theory Spec2Isabelle
  imports Main "HOL-Library.AList"
begin

section \<open>The calendar of Python's \<open>datetime\<close>\<close>

text \<open>
  \<open>main_db.py\<close> builds dates with \<open>datetime(year, month, day)\<close>, subtracts them,
  and reads \<open>strftime("%A")\<close>, \<open>isocalendar()[1]\<close> and \<open>.year\<close>. The functions
  below follow the pure-Python \<open>datetime\<close> module (\<open>_is_leap\<close>, \<open>_days_before_year\<close>,
  \<open>_days_in_month\<close>, \<open>_days_before_month\<close>, \<open>_ymd2ord\<close>, \<open>_isoweek1monday\<close>), with the
  leading underscore dropped. A datetime is naive (no tzinfo), as the ones the code
  constructs are.
\<close>

record datetime =
  dt_year :: int
  dt_month :: int
  dt_day :: int
  dt_hour :: int
  dt_minute :: int
  dt_second :: int
  dt_microsecond :: int

definition is_leap :: "int \<Rightarrow> bool" where
  "is_leap y = (y mod 4 = 0 \<and> (y mod 100 \<noteq> 0 \<or> y mod 400 = 0))"

definition days_before_year :: "int \<Rightarrow> int" where
  "days_before_year y = (y - 1) * 365 + (y - 1) div 4 - (y - 1) div 100 + (y - 1) div 400"

definition DAYS_IN_MONTH :: "int list" where
  "DAYS_IN_MONTH = [-1, 31, 28, 31, 30, 31, 30, 31, 31, 30, 31, 30, 31]"

definition DAYS_BEFORE_MONTH :: "int list" where
  "DAYS_BEFORE_MONTH = [-1, 0, 31, 59, 90, 120, 151, 181, 212, 243, 273, 304, 334]"

definition days_in_month :: "int \<Rightarrow> int \<Rightarrow> int" where
  "days_in_month y m = (if m = 2 \<and> is_leap y then 29 else DAYS_IN_MONTH ! nat m)"

definition days_before_month :: "int \<Rightarrow> int \<Rightarrow> int" where
  "days_before_month y m =
     DAYS_BEFORE_MONTH ! nat m + (if m > 2 \<and> is_leap y then 1 else 0)"

definition ymd2ord :: "int \<Rightarrow> int \<Rightarrow> int \<Rightarrow> int" where
  "ymd2ord y m d = days_before_year y + days_before_month y m + d"

definition toordinal :: "datetime \<Rightarrow> int" where
  "toordinal t = ymd2ord (dt_year t) (dt_month t) (dt_day t)"

text \<open>\<open>weekday()\<close>: Monday is 0, Sunday is 6.\<close>

definition weekday :: "datetime \<Rightarrow> int" where
  "weekday t = (toordinal t + 6) mod 7"

definition DAY_NAMES :: "string list" where
  "DAY_NAMES = [''Monday'', ''Tuesday'', ''Wednesday'', ''Thursday'', ''Friday'',
                ''Saturday'', ''Sunday'']"

text \<open>\<open>strftime("%A")\<close>: the full weekday name (C locale).\<close>

definition strftime_A :: "datetime \<Rightarrow> string" where
  "strftime_A t = DAY_NAMES ! nat (weekday t)"

definition isoweek1monday :: "int \<Rightarrow> int" where
  "isoweek1monday y =
     (let firstday = ymd2ord y 1 1;
          firstweekday = (firstday + 6) mod 7;
          week1monday = firstday - firstweekday
      in if firstweekday > 3 then week1monday + 7 else week1monday)"

text \<open>\<open>isocalendar()[1]\<close>: the ISO 8601 week number.\<close>

definition isocalendar_week :: "datetime \<Rightarrow> int" where
  "isocalendar_week t =
     (let y = dt_year t;
          today = toordinal t;
          week = (today - isoweek1monday y) div 7
      in if week < 0 then (today - isoweek1monday (y - 1)) div 7 + 1
         else if week \<ge> 52 \<and> today \<ge> isoweek1monday (y + 1) then 1
         else week + 1)"

text \<open>
  The exceptions the code can meet, as values. \<open>HTTPException s d c\<close> is FastAPI's
  \<open>HTTPException(status_code=s, detail=d + str(c))\<close>: \<open>c\<close> is the exception whose text an
  \<open>except\<close> handler appends to the detail with an f-string (\<open>None\<close> when the detail is
  a literal).
\<close>

datatype exn =
    HTTPException nat string "exn option"
  | ValueError
  | IndexError
  | FileNotFoundError
  | OSError
  | PDFPageCountError
  | IntegrityError
  | JSONDecodeError

text \<open>
  \<open>datetime(year, month, day)\<close>: \<open>_check_date_fields\<close> raises \<open>ValueError\<close> unless
  \<open>1 \<le> year \<le> 9999\<close>, \<open>1 \<le> month \<le> 12\<close> and \<open>1 \<le> day \<le> days_in_month\<close>; the time of
  day is midnight.
\<close>

definition mk_datetime :: "int \<Rightarrow> int \<Rightarrow> int \<Rightarrow> exn + datetime" where
  "mk_datetime y m d =
     (if \<not> (1 \<le> y \<and> y \<le> 9999) then Inl ValueError
      else if \<not> (1 \<le> m \<and> m \<le> 12) then Inl ValueError
      else if \<not> (1 \<le> d \<and> d \<le> days_in_month y m) then Inl ValueError
      else Inr \<lparr>dt_year = y, dt_month = m, dt_day = d, dt_hour = 0, dt_minute = 0,
                dt_second = 0, dt_microsecond = 0\<rparr>)"

text \<open>
  \<open>(a - b).days\<close>: the difference is normalised by \<open>timedelta\<close> so that seconds and
  microseconds are non-negative, which makes \<open>days\<close> the floor of the difference in
  days.
\<close>

definition micros_of :: "datetime \<Rightarrow> int" where
  "micros_of t =
     ((toordinal t * 86400 + dt_hour t * 3600 + dt_minute t * 60 + dt_second t) * 1000000
      + dt_microsecond t)"

definition sub_days :: "datetime \<Rightarrow> datetime \<Rightarrow> int" where
  "sub_days a b = (micros_of a - micros_of b) div (86400 * 1000000)"

section \<open>\<open>parse_filename_date\<close>\<close>

text \<open>
  A file name is a Python \<open>str\<close> that the client chooses: a list of Unicode code
  points (the integers \<open>ord\<close> gives). \<open>codes\<close> turns a literal of the program into one.
\<close>

type_synonym pystr = "int list"

definition codes :: "string \<Rightarrow> pystr" where
  "codes s = map of_char s"

text \<open>
  The pattern is \<open>(\d{2})(\d{2})\s+(\w+)\.pdf\<close>, tried with \<open>re.match\<close> (anchored at
  the start of the name only) and \<open>re.IGNORECASE\<close>. On a \<open>str\<close> the classes are the
  Unicode ones, read from the character database of the interpreter, which is a
  parameter here:
  \<^item> \<open>todecimal c\<close> is the value of \<open>c\<close> as a decimal digit (\<open>Py_UNICODE_TODECIMAL\<close>),
    \<open>None\<close> when it is not one; \<open>\d\<close> matches the characters that have a value, and
    \<open>int\<close> reads a string of such characters by their values;
  \<^item> \<open>isspace c\<close> is \<open>Py_UNICODE_ISSPACE\<close>, the class \<open>\s\<close>;
  \<^item> \<open>isalnum c\<close> is \<open>Py_UNICODE_ISALNUM\<close>; \<open>\w\<close> matches these characters and the
    underscore.
\<close>

record ucd =
  todecimal :: "int \<Rightarrow> int option"
  isspace :: "int \<Rightarrow> bool"
  isalnum :: "int \<Rightarrow> bool"

definition is_digit :: "ucd \<Rightarrow> int \<Rightarrow> bool" where
  "is_digit u c = (todecimal u c \<noteq> None)"

definition is_space :: "ucd \<Rightarrow> int \<Rightarrow> bool" where
  "is_space u c = isspace u c"

definition is_word :: "ucd \<Rightarrow> int \<Rightarrow> bool" where
  "is_word u c = (isalnum u c \<or> c = 95)"

text \<open>
  A letter of the pattern under \<open>re.IGNORECASE\<close>: the matcher compares the lower-case
  mapping of the character with the letter, and the capital letter is the only other
  character of Unicode whose lower case is \<open>p\<close>, \<open>d\<close> or \<open>f\<close>. \<open>l\<close> is the code of the
  small letter. The dot has no case and matches itself only.
\<close>

definition is_letter :: "int \<Rightarrow> int \<Rightarrow> bool" where
  "is_letter l c = (c = l \<or> c + 32 = l)"

fun is_ext :: "pystr \<Rightarrow> bool" where
  "is_ext (c0 # c1 # c2 # c3 # rest) =
     (c0 = 46 \<and> is_letter 112 c1 \<and> is_letter 100 c2 \<and> is_letter 102 c3)"
| "is_ext _ = False"

text \<open>
  \<open>(\w+)\.pdf\<close> after the characters \<open>acc\<close> of the word: a greedy repetition takes the
  next word character when there is one, and gives it back when the rest of the pattern
  does not match after it. \<open>\s+\<close> in front of it likewise; \<open>k\<close> tells whether a space
  has been taken. The result is group 3.
\<close>

fun match_word :: "ucd \<Rightarrow> pystr \<Rightarrow> pystr \<Rightarrow> pystr option" where
  "match_word u acc [] = None"
| "match_word u acc (c # r) =
     (case (if is_word u c then match_word u (acc @ [c]) r else None) of
        Some w \<Rightarrow> Some w
      | None \<Rightarrow> if acc \<noteq> [] \<and> is_ext (c # r) then Some acc else None)"

fun match_space :: "ucd \<Rightarrow> bool \<Rightarrow> pystr \<Rightarrow> pystr option" where
  "match_space u k [] = None"
| "match_space u k (c # r) =
     (case (if is_space u c then match_space u True r else None) of
        Some w \<Rightarrow> Some w
      | None \<Rightarrow> if k then match_word u [] (c # r) else None)"

text \<open>The groups of a match: month digits, day digits, the word.\<close>

fun match_filename :: "ucd \<Rightarrow> pystr \<Rightarrow> (pystr \<times> pystr \<times> pystr) option" where
  "match_filename u (a # b # c # d # rest) =
     (if is_digit u a \<and> is_digit u b \<and> is_digit u c \<and> is_digit u d then
        (case match_space u False rest of
           None \<Rightarrow> None
         | Some w \<Rightarrow> Some ([a, b], [c, d], w))
      else None)"
| "match_filename u _ = None"

text \<open>
  \<open>int(s)\<close> on a string of decimal digits (the groups 1 and 2 hold nothing else, so
  that \<open>int\<close> does not raise).
\<close>

definition digit_val :: "ucd \<Rightarrow> int \<Rightarrow> int" where
  "digit_val u c = (case todecimal u c of None \<Rightarrow> 0 | Some v \<Rightarrow> v)"

definition int_of_digits :: "ucd \<Rightarrow> pystr \<Rightarrow> int" where
  "int_of_digits u s = foldl (\<lambda>acc c. acc * 10 + digit_val u c) 0 s"

text \<open>
  The dictionary \<open>parse_filename_date\<close> returns has either all four keys or none;
  the empty dictionary is \<open>None\<close>. \<open>now\<close> is the value of \<open>datetime.now()\<close>.
\<close>

record date_info =
  di_event_date :: datetime
  di_day_of_week :: string
  di_week_number :: int
  di_year :: int

definition mk_date_info :: "datetime \<Rightarrow> int \<Rightarrow> date_info" where
  "mk_date_info ev y =
     \<lparr>di_event_date = ev, di_day_of_week = strftime_A ev,
      di_week_number = isocalendar_week ev, di_year = y\<rparr>"

definition parse_filename_date :: "ucd \<Rightarrow> datetime \<Rightarrow> pystr \<Rightarrow> date_info option" where
  "parse_filename_date u now fname =
     (case match_filename u fname of
        None \<Rightarrow> None
      | Some (g1, g2, g3) \<Rightarrow>
          (let month = int_of_digits u g1; day = int_of_digits u g2; y = dt_year now in
           case mk_datetime y month day of
             Inl e \<Rightarrow> None
           | Inr event_date \<Rightarrow>
               if sub_days now event_date > 180 then
                 (case mk_datetime (y + 1) month day of
                    Inl e \<Rightarrow> None
                  | Inr event_date' \<Rightarrow> Some (mk_date_info event_date' (y + 1)))
               else Some (mk_date_info event_date y)))"

section \<open>The registry, the artifact store and the environment\<close>

text \<open>
  The three tables of \<open>models.py\<close>. Field names are the columns'; the primary keys
  (\<open>id\<close> in all three tables) are \<open>b_id\<close>, \<open>p_id\<close> and \<open>a_id\<close>, and the columns of
  \<open>BEOPage\<close> and \<open>Annotation\<close> that share a name with one of \<open>BEO\<close> carry the prefix
  \<open>p_\<close> or \<open>a_\<close>. Nullable columns are options. A JSON payload and a file's bytes are
  opaque strings.
\<close>

type_synonym bytes = string
type_synonym json = string
type_synonym image = string

record BEO =
  b_id :: nat
  session_id :: string
  filename :: pystr
  beo_number :: "string option"
  event_date :: "datetime option"
  day_of_week :: "string option"
  week_number :: "int option"
  year :: "int option"
  order_position :: int
  status :: string
  file_type :: string
  is_revision :: bool
  parent_beo_id :: "nat option"
  version_number :: int
  is_active :: bool
  total_pages :: int
  created_at :: datetime
  updated_at :: datetime

record BEOPage =
  p_id :: nat
  beo_id :: nat
  page_index :: int
  original_order :: int
  thumbnail_path :: "string option"
  high_res_path :: "string option"
  p_created_at :: datetime

record Annotation =
  a_id :: nat
  a_beo_id :: nat
  a_page_index :: int
  canvas_data :: json
  a_created_at :: datetime
  a_updated_at :: datetime

record tables =
  beos :: "BEO list"
  beo_pages :: "BEOPage list"
  annotations :: "Annotation list"

text \<open>
  The state between two requests: the committed tables, the three primary-key
  sequences (a sequence is not rolled back with a transaction) and the three storage
  directories of \<open>database.py\<close>, each a list of (file name, contents).

  Inside a request \<open>db\<close> is the session's view: the committed rows and the pending
  writes of the session (\<open>db.add\<close>, attribute assignments). \<open>db.commit()\<close> publishes the
  view; \<open>db.rollback()\<close>, and the \<open>db.close()\<close> of \<open>get_db\<close> after an exception that no
  handler caught, put the tables of the request's start back. Files written before the
  exception stay.
\<close>

record state =
  db :: tables
  seq_beo :: nat
  seq_page :: nat
  seq_ann :: nat
  originals :: "(string \<times> bytes) list"
  thumbnails :: "(string \<times> bytes) list"
  high_res :: "(string \<times> bytes) list"

datatype dir = THUMBNAILS_DIR | HIGH_RES_DIR | ORIGINALS_DIR

text \<open>
  What a request reads from outside the program: the clocks, the identifiers
  \<open>uuid.uuid4()\<close> returns (\<open>uuids e k\<close> is the one of draw number \<open>k\<close> of the request), the rasterizer (pdf2image and PIL), the
  disk and \<open>datetime.fromisoformat\<close>.
  \<^item> \<open>page_count pdf\<close> is \<open>None\<close> when pdf2image cannot read the bytes;
  \<^item> \<open>render pdf dpi i\<close> is page \<open>i\<close> (0-based) of the document at that resolution;
  \<^item> \<open>jpeg img q\<close> is what \<open>img.save(buffer, format="JPEG", quality=q)\<close> leaves in the
    buffer, \<open>b64encode\<close> is \<open>base64.b64encode(...).decode("utf-8")\<close>;
  \<^item> \<open>write_ok d name\<close> tells whether \<open>open(path, 'wb')\<close> and the write succeed;
  \<^item> \<open>fromisoformat s\<close> is \<open>None\<close> when Python raises \<open>ValueError\<close>;
  \<^item> \<open>unicode\<close> is the character database of the interpreter.
\<close>

record env =
  utcnow :: datetime
  localnow :: datetime
  uuids :: "nat \<Rightarrow> string"
  page_count :: "bytes \<Rightarrow> nat option"
  render :: "bytes \<Rightarrow> nat \<Rightarrow> nat \<Rightarrow> image"
  jpeg :: "image \<Rightarrow> nat \<Rightarrow> bytes"
  b64encode :: "bytes \<Rightarrow> string"
  write_ok :: "dir \<Rightarrow> string \<Rightarrow> bool"
  fromisoformat :: "string \<Rightarrow> datetime option"
  unicode :: ucd

subsection \<open>Helpers\<close>

text \<open>\<open>str(n)\<close> for an integer, as an f-string formats it.\<close>

fun str_nat :: "nat \<Rightarrow> string" where
  "str_nat n = (if n < 10 then [char_of (48 + n)] else str_nat (n div 10) @ [char_of (48 + n mod 10)])"

declare str_nat.simps [simp del]

definition str_int :: "int \<Rightarrow> string" where
  "str_int i = (if i < 0 then CHR ''-'' # str_nat (nat (- i)) else str_nat (nat i))"

text \<open>\<open>s.endswith(suffix)\<close>.\<close>

definition endswith :: "'a list \<Rightarrow> 'a list \<Rightarrow> bool" where
  "endswith s suffix = (length suffix \<le> length s \<and> drop (length s - length suffix) s = suffix)"

text \<open>\<open>xs[i]\<close>: a negative index counts from the end; out of range raises.\<close>

definition py_index :: "'a list \<Rightarrow> int \<Rightarrow> exn + 'a" where
  "py_index xs i =
     (if 0 \<le> i \<and> i < int (length xs) then Inr (xs ! nat i)
      else if i < 0 \<and> - int (length xs) \<le> i then Inr (xs ! nat (int (length xs) + i))
      else Inl IndexError)"

text \<open>\<open>enumerate(xs)\<close>.\<close>

definition enumerate_py :: "'a list \<Rightarrow> (nat \<times> 'a) list" where
  "enumerate_py xs = zip [0..<length xs] xs"

definition get_dir :: "state \<Rightarrow> dir \<Rightarrow> (string \<times> bytes) list" where
  "get_dir st d = (case d of THUMBNAILS_DIR \<Rightarrow> thumbnails st | HIGH_RES_DIR \<Rightarrow> high_res st
                   | ORIGINALS_DIR \<Rightarrow> originals st)"

definition put_file :: "dir \<Rightarrow> string \<Rightarrow> bytes \<Rightarrow> state \<Rightarrow> state" where
  "put_file d name data st =
     (case d of
        THUMBNAILS_DIR \<Rightarrow> st\<lparr>thumbnails := AList.update name data (thumbnails st)\<rparr>
      | HIGH_RES_DIR \<Rightarrow> st\<lparr>high_res := AList.update name data (high_res st)\<rparr>
      | ORIGINALS_DIR \<Rightarrow> st\<lparr>originals := AList.update name data (originals st)\<rparr>)"

text \<open>\<open>save_file\<close>: writes the file and returns its name; the write may raise.\<close>

definition save_file :: "env \<Rightarrow> bytes \<Rightarrow> dir \<Rightarrow> string \<Rightarrow> state \<Rightarrow> (exn + string) \<times> state" where
  "save_file e data d name st =
     (if write_ok e d name then (Inr name, put_file d name data st) else (Inl OSError, st))"

text \<open>\<open>open(path, 'rb').read()\<close>.\<close>

definition read_file :: "state \<Rightarrow> dir \<Rightarrow> string \<Rightarrow> exn + bytes" where
  "read_file st d name =
     (case map_of (get_dir st d) name of None \<Rightarrow> Inl FileNotFoundError | Some data \<Rightarrow> Inr data)"

text \<open>
  \<open>convert_from_bytes(pdf, fmt="jpeg", dpi=dpi)\<close>, and the same call with
  \<open>first_page\<close> and \<open>last_page\<close> (1-based, inclusive). pdf2image moves a first page
  below 1 to 1 and a last page past the end to the end, and returns no image when the
  first page is then past the last.
\<close>

definition convert_from_bytes :: "env \<Rightarrow> bytes \<Rightarrow> nat \<Rightarrow> exn + image list" where
  "convert_from_bytes e pdf dpi =
     (case page_count e pdf of
        None \<Rightarrow> Inl PDFPageCountError
      | Some n \<Rightarrow> Inr (map (render e pdf dpi) [0..<n]))"

definition convert_range :: "env \<Rightarrow> bytes \<Rightarrow> nat \<Rightarrow> int \<Rightarrow> int \<Rightarrow> exn + image list" where
  "convert_range e pdf dpi first_page last_page =
     (case page_count e pdf of
        None \<Rightarrow> Inl PDFPageCountError
      | Some n \<Rightarrow>
          (let f = (if first_page < 1 then 1 else first_page);
               l = (if last_page > int n then int n else last_page)
           in if f > l then Inr []
              else Inr (map (render e pdf dpi) [nat (f - 1)..<nat l])))"

text \<open>Row-level access: \<open>query.filter(...).first()\<close> is \<open>find\<close>; an attribute assignment
  on a loaded row changes the row with that primary key.\<close>

definition upd_beo :: "nat \<Rightarrow> (BEO \<Rightarrow> BEO) \<Rightarrow> state \<Rightarrow> state" where
  "upd_beo i f st =
     st\<lparr>db := (db st)\<lparr>beos := map (\<lambda>b. if b_id b = i then f b else b) (beos (db st))\<rparr>\<rparr>"

definition upd_page :: "nat \<Rightarrow> (BEOPage \<Rightarrow> BEOPage) \<Rightarrow> state \<Rightarrow> state" where
  "upd_page i f st =
     st\<lparr>db := (db st)\<lparr>beo_pages := map (\<lambda>p. if p_id p = i then f p else p) (beo_pages (db st))\<rparr>\<rparr>"

definition upd_annotation :: "nat \<Rightarrow> (Annotation \<Rightarrow> Annotation) \<Rightarrow> state \<Rightarrow> state" where
  "upd_annotation i f st =
     st\<lparr>db := (db st)\<lparr>annotations :=
        map (\<lambda>a. if a_id a = i then f a else a) (annotations (db st))\<rparr>\<rparr>"

definition find_beo :: "state \<Rightarrow> string \<Rightarrow> BEO option" where
  "find_beo st sid = find (\<lambda>b. session_id b = sid) (beos (db st))"

text \<open>
  \<open>db.add(BEO(...)); db.flush()\<close>: the row gets the next primary key and the column
  defaults of \<open>models.py\<close>; the unique index on \<open>session_id\<close> refuses a second row with
  the same identifier.
\<close>

definition new_beo :: "env \<Rightarrow> nat \<Rightarrow> string \<Rightarrow> pystr \<Rightarrow> int \<Rightarrow> string \<Rightarrow> string \<Rightarrow> BEO" where
  "new_beo e i sid fname n stat ftype =
     \<lparr>b_id = i, session_id = sid, filename = fname, beo_number = None, event_date = None,
      day_of_week = None, week_number = None, year = None, order_position = 0,
      status = stat, file_type = ftype, is_revision = False, parent_beo_id = None,
      version_number = 1, is_active = True, total_pages = n, created_at = utcnow e,
      updated_at = utcnow e\<rparr>"

definition add_beo :: "(nat \<Rightarrow> BEO) \<Rightarrow> state \<Rightarrow> (exn + BEO) \<times> state" where
  "add_beo mk st =
     (let b = mk (seq_beo st); st' = st\<lparr>seq_beo := Suc (seq_beo st)\<rparr>
      in if session_id b \<in> set (map session_id (beos (db st))) then (Inl IntegrityError, st')
         else (Inr b, st'\<lparr>db := (db st)\<lparr>beos := beos (db st) @ [b]\<rparr>\<rparr>))"

definition add_page :: "env \<Rightarrow> nat \<Rightarrow> int \<Rightarrow> int \<Rightarrow> string option \<Rightarrow> string option \<Rightarrow> state \<Rightarrow> state" where
  "add_page e bid idx orig thumb hi st =
     st\<lparr>seq_page := Suc (seq_page st),
        db := (db st)\<lparr>beo_pages := beo_pages (db st) @
          [\<lparr>p_id = seq_page st, beo_id = bid, page_index = idx, original_order = orig,
            thumbnail_path = thumb, high_res_path = hi, p_created_at = utcnow e\<rparr>]\<rparr>\<rparr>"

text \<open>The end of a request that raised: the tables of its start, everything else as
  the request left it.\<close>

definition rollback :: "state \<Rightarrow> state \<Rightarrow> state" where
  "rollback st0 st = st\<lparr>db := db st0\<rparr>"

section \<open>The operations of \<open>main_db.py\<close>\<close>

text \<open>
  Every operation takes what the request reads from outside, the request and the state
  before, and returns the response, or the exception that leaves the handler, with the
  state after. FastAPI turns an \<open>HTTPException\<close> into a response with its status code
  and any other exception into the response \<open>500 Internal Server Error\<close>.
\<close>

subsection \<open>\<open>upload_pdf\<close>\<close>

record upload_request =
  up_filename :: pystr
  up_content :: bytes
  up_file_type :: string

record SessionResponse =
  sr_session_id :: string
  sr_filename :: pystr
  sr_total_pages :: int
  sr_pages :: "string list"

definition set_date_info :: "date_info option \<Rightarrow> BEO \<Rightarrow> BEO" where
  "set_date_info d b =
     b\<lparr>event_date := map_option di_event_date d,
       day_of_week := map_option di_day_of_week d,
       week_number := map_option di_week_number d,
       year := map_option di_year d\<rparr>"

text \<open>The loop over \<open>enumerate(images)\<close> of \<open>upload_pdf\<close> and
  \<open>upload_multiple_pdfs\<close>: \<open>acc\<close> is \<open>base64_thumbnails\<close>.\<close>

fun thumbnail_loop ::
  "env \<Rightarrow> string \<Rightarrow> nat \<Rightarrow> (nat \<times> image) list \<Rightarrow> string list \<Rightarrow> state
     \<Rightarrow> (exn + string list) \<times> state" where
  "thumbnail_loop e sid bid [] acc st = (Inr acc, st)"
| "thumbnail_loop e sid bid ((idx, img) # rest) acc st =
     (let thumbnail_filename = sid @ ''_thumb_'' @ str_nat idx @ ''.jpg'';
          buffered = jpeg e img 60
      in case save_file e buffered THUMBNAILS_DIR thumbnail_filename st of
           (Inl x, st1) \<Rightarrow> (Inl x, st1)
         | (Inr _, st1) \<Rightarrow>
             thumbnail_loop e sid bid rest (acc @ [b64encode e buffered])
               (add_page e bid (int idx) (int idx) (Some thumbnail_filename) None st1))"

text \<open>The body of the \<open>try\<close> block.\<close>

definition upload_pdf_try ::
  "env \<Rightarrow> upload_request \<Rightarrow> state \<Rightarrow> (exn + SessionResponse) \<times> state" where
  "upload_pdf_try e req st =
     (if \<not> endswith (up_filename req) (codes ''.pdf'')
      then (Inl (HTTPException 400 ''File must be a PDF'' None), st)
      else
        let pdf_bytes = up_content req;
            sid = uuids e 0;
            original_filename = sid @ ''.pdf''
        in case save_file e pdf_bytes ORIGINALS_DIR original_filename st of
             (Inl x, st1) \<Rightarrow> (Inl x, st1)
           | (Inr _, st1) \<Rightarrow>
        (case convert_from_bytes e pdf_bytes 75 of
           Inl x \<Rightarrow> (Inl x, st1)
         | Inr images \<Rightarrow>
        let date_info = parse_filename_date (unicode e) (localnow e) (up_filename req)
        in case add_beo (\<lambda>i. set_date_info date_info
                    (new_beo e i sid (up_filename req) (int (length images)) ''new''
                       (up_file_type req))) st1 of
             (Inl x, st2) \<Rightarrow> (Inl x, st2)
           | (Inr beo, st2) \<Rightarrow>
        (case thumbnail_loop e sid (b_id beo) (enumerate_py images) [] st2 of
           (Inl x, st3) \<Rightarrow> (Inl x, st3)
         | (Inr base64_thumbnails, st3) \<Rightarrow>
             (Inr \<lparr>sr_session_id = sid, sr_filename = up_filename req,
                   sr_total_pages = int (length images), sr_pages = base64_thumbnails\<rparr>,
              st3))))"

text \<open>\<open>except Exception as e: db.rollback(); raise HTTPException(500, ...)\<close>.
  \<open>HTTPException\<close> is a subclass of \<open>Exception\<close>, so the handler also catches the one
  the \<open>try\<close> block raises itself.\<close>

definition upload_pdf ::
  "env \<Rightarrow> upload_request \<Rightarrow> state \<Rightarrow> (exn + SessionResponse) \<times> state" where
  "upload_pdf e req st =
     (case upload_pdf_try e req st of
        (Inr r, st') \<Rightarrow> (Inr r, st')
      | (Inl x, st') \<Rightarrow>
          (Inl (HTTPException 500 ''PDF processing failed: '' (Some x)), rollback st st'))"

subsection \<open>\<open>upload_multiple_pdfs\<close>\<close>

text \<open>
  \<open>um_file_info\<close> is the list \<open>json.loads(file_data) if file_data else []\<close> with the
  keys the code reads from each item (\<open>None\<close> for an absent key); it is \<open>None\<close> when
  reading the JSON or building \<open>file_info_map\<close> raises.
\<close>

record file_info =
  fi_filename :: pystr
  fi_event_date :: "string option"
  fi_file_type :: "string option"

record multi_request =
  um_files :: "(pystr \<times> bytes) list"
  um_file_info :: "file_info list option"

record multi_result =
  mr_session_id :: string
  mr_filename :: pystr
  mr_total_pages :: int
  mr_pages :: "string list"
  mr_event_date :: "datetime option"
  mr_file_type :: string

text \<open>\<open>{item['filename']: item for item in file_info_list}.get(name)\<close>: the last item
  with that name.\<close>

definition file_info_map :: "file_info list \<Rightarrow> pystr \<Rightarrow> file_info option" where
  "file_info_map l name = find (\<lambda>i. fi_filename i = name) (rev l)"

definition replace_Z :: "string \<Rightarrow> string" where
  "replace_Z s = concat (map (\<lambda>c. if c = CHR ''Z'' then ''+00:00'' else [c]) s)"

text \<open>The date block of the loop: an absent or empty string, or one that
  \<open>fromisoformat\<close> refuses, leaves all four values \<open>None\<close>.\<close>

definition parse_event_date :: "env \<Rightarrow> string option \<Rightarrow> datetime option" where
  "parse_event_date e event_date_str =
     (case event_date_str of
        None \<Rightarrow> None
      | Some s \<Rightarrow>
          if s = [] then None
          else fromisoformat e
                 (replace_Z (if CHR ''T'' \<notin> set s then s @ ''T00:00:00'' else s)))"

definition set_event_date :: "datetime option \<Rightarrow> BEO \<Rightarrow> BEO" where
  "set_event_date d b =
     b\<lparr>event_date := d,
       day_of_week := map_option strftime_A d,
       week_number := map_option isocalendar_week d,
       year := map_option dt_year d\<rparr>"

text \<open>The loop over \<open>files\<close>; \<open>k\<close> counts the identifiers drawn so far.\<close>

fun multi_loop ::
  "env \<Rightarrow> file_info list \<Rightarrow> nat \<Rightarrow> (pystr \<times> bytes) list \<Rightarrow> multi_result list \<Rightarrow> state
     \<Rightarrow> (exn + multi_result list) \<times> state" where
  "multi_loop e info k [] results st = (Inr results, st)"
| "multi_loop e info k ((fname, pdf_bytes) # rest) results st =
     (if \<not> endswith fname (codes ''.pdf'') then multi_loop e info k rest results st
      else
        let fi = file_info_map info fname;
            event_date_str = (case fi of None \<Rightarrow> None | Some i \<Rightarrow> fi_event_date i);
            ftype = (case fi of None \<Rightarrow> ''daily''
                     | Some i \<Rightarrow> (case fi_file_type i of None \<Rightarrow> ''daily'' | Some t \<Rightarrow> t));
            ev = parse_event_date e event_date_str;
            sid = uuids e k
        in case save_file e pdf_bytes ORIGINALS_DIR (sid @ ''.pdf'') st of
             (Inl x, st1) \<Rightarrow> (Inl x, st1)
           | (Inr _, st1) \<Rightarrow>
        (case convert_from_bytes e pdf_bytes 75 of
           Inl x \<Rightarrow> (Inl x, st1)
         | Inr images \<Rightarrow>
        (case add_beo (\<lambda>i. set_event_date ev
                  (new_beo e i sid fname (int (length images)) ''new'' ftype)) st1 of
           (Inl x, st2) \<Rightarrow> (Inl x, st2)
         | (Inr beo, st2) \<Rightarrow>
        (case thumbnail_loop e sid (b_id beo) (enumerate_py images) [] st2 of
           (Inl x, st3) \<Rightarrow> (Inl x, st3)
         | (Inr base64_thumbnails, st3) \<Rightarrow>
             multi_loop e info (Suc k) rest
               (results @ [\<lparr>mr_session_id = sid, mr_filename = fname,
                             mr_total_pages = int (length images),
                             mr_pages = base64_thumbnails, mr_event_date = ev,
                             mr_file_type = ftype\<rparr>]) st3))))"

definition upload_multiple_pdfs ::
  "env \<Rightarrow> multi_request \<Rightarrow> state \<Rightarrow> (exn + multi_result list \<times> nat) \<times> state" where
  "upload_multiple_pdfs e req st =
     (case um_file_info req of
        None \<Rightarrow> (Inl (HTTPException 500 ''Multi-file upload failed: '' (Some JSONDecodeError)), st)
      | Some info \<Rightarrow>
          (case multi_loop e info 0 (um_files req) [] st of
             (Inr results, st') \<Rightarrow> (Inr (results, length results), st')
           | (Inl x, st') \<Rightarrow>
               (Inl (HTTPException 500 ''Multi-file upload failed: '' (Some x)),
                rollback st st')))"

subsection \<open>\<open>process_all_pages\<close> and \<open>create_beo_from_pages\<close>\<close>

text \<open>
  Both loops store one page the same way: the high-resolution image, then the
  thumbnail rendered from the single page \<open>original_idx + 1\<close> of the PDF (\<open>[0]\<close> of the
  list pdf2image returns, an \<open>IndexError\<close> when the list is empty), then the page row.
\<close>

definition store_page ::
  "env \<Rightarrow> string \<Rightarrow> nat \<Rightarrow> bytes \<Rightarrow> nat \<Rightarrow> int \<Rightarrow> image \<Rightarrow> state \<Rightarrow> (exn + unit) \<times> state" where
  "store_page e sid bid pdf_bytes new_idx original_idx img st =
     (let highres_filename = sid @ ''_highres_'' @ str_nat new_idx @ ''.jpg''
      in case save_file e (jpeg e img 95) HIGH_RES_DIR highres_filename st of
           (Inl x, st1) \<Rightarrow> (Inl x, st1)
         | (Inr _, st1) \<Rightarrow>
      (case convert_range e pdf_bytes 75 (original_idx + 1) (original_idx + 1) of
         Inl x \<Rightarrow> (Inl x, st1)
       | Inr [] \<Rightarrow> (Inl IndexError, st1)
       | Inr (thumb_img # _) \<Rightarrow>
      let thumbnail_filename = sid @ ''_thumb_'' @ str_nat new_idx @ ''.jpg''
      in case save_file e (jpeg e thumb_img 60) THUMBNAILS_DIR thumbnail_filename st1 of
           (Inl x, st2) \<Rightarrow> (Inl x, st2)
         | (Inr _, st2) \<Rightarrow>
             (Inr (), add_page e bid (int new_idx) original_idx (Some thumbnail_filename)
                        (Some highres_filename) st2)))"

fun all_pages_inner ::
  "env \<Rightarrow> string \<Rightarrow> nat \<Rightarrow> bytes \<Rightarrow> (nat \<times> image) list \<Rightarrow> state \<Rightarrow> (exn + unit) \<times> state" where
  "all_pages_inner e sid bid pdf_bytes [] st = (Inr (), st)"
| "all_pages_inner e sid bid pdf_bytes ((idx, img) # rest) st =
     (case store_page e sid bid pdf_bytes idx (int idx) img st of
        (Inl x, st1) \<Rightarrow> (Inl x, st1)
      | (Inr _, st1) \<Rightarrow> all_pages_inner e sid bid pdf_bytes rest st1)"

record processed_beo =
  pb_session_id :: string
  pb_filename :: pystr
  pb_total_pages :: int
  pb_event_date :: "datetime option"

text \<open>The loop over \<open>request.session_ids\<close>; \<open>k\<close> counts the identifiers drawn so far.\<close>

fun all_pages_loop ::
  "env \<Rightarrow> nat \<Rightarrow> string list \<Rightarrow> processed_beo list \<Rightarrow> state
     \<Rightarrow> (exn + processed_beo list) \<times> state" where
  "all_pages_loop e k [] processed st = (Inr processed, st)"
| "all_pages_loop e k (sid # rest) processed st =
     (case find_beo st sid of
        None \<Rightarrow> all_pages_loop e k rest processed st
      | Some upload_beo \<Rightarrow>
     (case map_of (originals st) (sid @ ''.pdf'') of
        None \<Rightarrow> all_pages_loop e k rest processed st
      | Some pdf_bytes \<Rightarrow>
     (case convert_from_bytes e pdf_bytes 300 of
        Inl x \<Rightarrow> (Inl x, st)
      | Inr images \<Rightarrow>
     let new_session_id = uuids e k
     in case add_beo (\<lambda>i.
               (new_beo e i new_session_id (filename upload_beo) (int (length images))
                  ''ready_for_annotation'' (file_type upload_beo))
               \<lparr>beo_number := Some ''BEO 1'',
                event_date := event_date upload_beo,
                day_of_week := day_of_week upload_beo,
                week_number := week_number upload_beo,
                year := year upload_beo,
                order_position := 0\<rparr>) st of
          (Inl x, st1) \<Rightarrow> (Inl x, st1)
        | (Inr nb, st1) \<Rightarrow>
     (case all_pages_inner e new_session_id (b_id nb) pdf_bytes (enumerate_py images) st1 of
        (Inl x, st2) \<Rightarrow> (Inl x, st2)
      | (Inr _, st2) \<Rightarrow>
          all_pages_loop e (Suc k) rest
            (processed @ [\<lparr>pb_session_id = new_session_id, pb_filename = filename upload_beo,
                           pb_total_pages = int (length images),
                           pb_event_date = event_date upload_beo\<rparr>]) st2))))"

definition process_all_pages ::
  "env \<Rightarrow> string list \<Rightarrow> state \<Rightarrow> (exn + nat \<times> processed_beo list) \<times> state" where
  "process_all_pages e session_ids st =
     (case all_pages_loop e 0 session_ids [] st of
        (Inr processed, st') \<Rightarrow> (Inr (length processed, processed), st')
      | (Inl x, st') \<Rightarrow>
          (Inl (HTTPException 500 ''Processing failed: '' (Some x)), rollback st st'))"

record CreateBEOFromPages =
  parent_session_id :: string
  cb_beo_number :: string
  page_indices :: "int list"
  cb_order_position :: int

text \<open>The loop over \<open>enumerate(data.page_indices)\<close>.\<close>

fun from_pages_loop ::
  "env \<Rightarrow> string \<Rightarrow> nat \<Rightarrow> bytes \<Rightarrow> image list \<Rightarrow> (nat \<times> int) list \<Rightarrow> state
     \<Rightarrow> (exn + unit) \<times> state" where
  "from_pages_loop e sid bid pdf_bytes images [] st = (Inr (), st)"
| "from_pages_loop e sid bid pdf_bytes images ((new_idx, original_idx) # rest) st =
     (if original_idx < int (length images) then
        (case py_index images original_idx of
           Inl x \<Rightarrow> (Inl x, st)
         | Inr img \<Rightarrow>
        (case store_page e sid bid pdf_bytes new_idx original_idx img st of
           (Inl x, st1) \<Rightarrow> (Inl x, st1)
         | (Inr _, st1) \<Rightarrow> from_pages_loop e sid bid pdf_bytes images rest st1))
      else from_pages_loop e sid bid pdf_bytes images rest st)"

text \<open>The handler has no \<open>try\<close>: an exception leaves it as it is, and the session is
  closed without a commit. The response carries the new identifier and the number.\<close>

definition create_beo_from_pages ::
  "env \<Rightarrow> CreateBEOFromPages \<Rightarrow> state \<Rightarrow> (exn + string \<times> string) \<times> state" where
  "create_beo_from_pages e data st =
     (case find_beo st (parent_session_id data) of
        None \<Rightarrow> (Inl (HTTPException 404 ''Parent session not found'' None), st)
      | Some parent_beo \<Rightarrow>
     let new_session_id = uuids e 0
     in case read_file st ORIGINALS_DIR (parent_session_id data @ ''.pdf'') of
          Inl x \<Rightarrow> (Inl x, st)
        | Inr pdf_bytes \<Rightarrow>
     (case convert_from_bytes e pdf_bytes 300 of
        Inl x \<Rightarrow> (Inl x, st)
      | Inr images \<Rightarrow>
     (case add_beo (\<lambda>i.
               (new_beo e i new_session_id (filename parent_beo)
                  (int (length (page_indices data))) ''ready_for_annotation''
                  (file_type parent_beo))
               \<lparr>beo_number := Some (cb_beo_number data),
                event_date := event_date parent_beo,
                day_of_week := day_of_week parent_beo,
                week_number := week_number parent_beo,
                year := year parent_beo,
                order_position := cb_order_position data\<rparr>) st of
        (Inl x, st1) \<Rightarrow> (Inl x, rollback st st1)
      | (Inr nb, st1) \<Rightarrow>
     (case from_pages_loop e new_session_id (b_id nb) pdf_bytes images
             (enumerate_py (page_indices data)) st1 of
        (Inl x, st2) \<Rightarrow> (Inl x, rollback st st2)
      | (Inr _, st2) \<Rightarrow> (Inr (new_session_id, cb_beo_number data), st2)))))"

subsection \<open>\<open>select_pages\<close> and \<open>process_selected_pages\<close>\<close>

record PageSelection =
  ps_session_id :: string
  selected_pages :: "int list"

text \<open>The response of \<open>select_pages\<close> is its \<open>selected_count\<close>.\<close>

definition select_pages :: "env \<Rightarrow> PageSelection \<Rightarrow> state \<Rightarrow> (exn + nat) \<times> state" where
  "select_pages e selection st =
     (case find_beo st (ps_session_id selection) of
        None \<Rightarrow> (Inl (HTTPException 404 ''Session not found'' None), st)
      | Some beo \<Rightarrow>
          (Inr (length (selected_pages selection)),
           upd_beo (b_id beo) (\<lambda>b. b\<lparr>status := ''selected'', updated_at := utcnow e\<rparr>) st))"

record process_response =
  processed_pages :: nat
  high_res_pages :: "(int \<times> string) list"

text \<open>The loop over \<open>selection.selected_pages\<close>; \<open>hrp\<close> is the dictionary
  \<open>high_res_pages\<close>, in insertion order.\<close>

fun selected_loop ::
  "env \<Rightarrow> string \<Rightarrow> nat \<Rightarrow> image list \<Rightarrow> int list \<Rightarrow> (int \<times> string) list \<Rightarrow> state
     \<Rightarrow> (exn + (int \<times> string) list) \<times> state" where
  "selected_loop e sid bid images [] hrp st = (Inr hrp, st)"
| "selected_loop e sid bid images (page_idx # rest) hrp st =
     (if page_idx < int (length images) then
        (case py_index images page_idx of
           Inl x \<Rightarrow> (Inl x, st)
         | Inr img \<Rightarrow>
        let highres_filename = sid @ ''_highres_'' @ str_int page_idx @ ''.jpg'';
            buffered = jpeg e img 95
        in case save_file e buffered HIGH_RES_DIR highres_filename st of
             (Inl x, st1) \<Rightarrow> (Inl x, st1)
           | (Inr _, st1) \<Rightarrow>
        let st2 = (case find (\<lambda>p. beo_id p = bid \<and> page_index p = page_idx)
                         (beo_pages (db st1)) of
                     None \<Rightarrow> st1
                   | Some page \<Rightarrow>
                       upd_page (p_id page) (\<lambda>p. p\<lparr>high_res_path := Some highres_filename\<rparr>) st1)
        in selected_loop e sid bid images rest
             (AList.update page_idx (b64encode e buffered) hrp) st2)
      else selected_loop e sid bid images rest hrp st)"

definition process_selected_pages ::
  "env \<Rightarrow> PageSelection \<Rightarrow> state \<Rightarrow> (exn + process_response) \<times> state" where
  "process_selected_pages e selection st =
     (case find_beo st (ps_session_id selection) of
        None \<Rightarrow> (Inl (HTTPException 404 ''Session not found'' None), st)
      | Some beo \<Rightarrow>
     (case read_file st ORIGINALS_DIR (ps_session_id selection @ ''.pdf'') of
        Inl x \<Rightarrow> (Inl x, st)
      | Inr pdf_bytes \<Rightarrow>
     (case convert_from_bytes e pdf_bytes 300 of
        Inl x \<Rightarrow> (Inl x, st)
      | Inr images \<Rightarrow>
     (case selected_loop e (ps_session_id selection) (b_id beo) images
             (selected_pages selection) [] st of
        (Inl x, st1) \<Rightarrow> (Inl x, rollback st st1)
      | (Inr hrp, st1) \<Rightarrow>
          (Inr \<lparr>processed_pages = length (selected_pages selection), high_res_pages = hrp\<rparr>,
           upd_beo (b_id beo)
             (\<lambda>b. b\<lparr>status := ''ready_for_annotation'', updated_at := utcnow e\<rparr>) st1)))))"

subsection \<open>\<open>save_annotation\<close>\<close>

record AnnotationData =
  ad_session_id :: string
  ad_page_index :: int
  annotation_data :: json

definition add_annotation :: "env \<Rightarrow> nat \<Rightarrow> int \<Rightarrow> json \<Rightarrow> state \<Rightarrow> state" where
  "add_annotation e bid idx data st =
     st\<lparr>seq_ann := Suc (seq_ann st),
        db := (db st)\<lparr>annotations := annotations (db st) @
          [\<lparr>a_id = seq_ann st, a_beo_id = bid, a_page_index = idx, canvas_data = data,
            a_created_at = utcnow e, a_updated_at = utcnow e\<rparr>]\<rparr>\<rparr>"

definition save_annotation :: "env \<Rightarrow> AnnotationData \<Rightarrow> state \<Rightarrow> (exn + unit) \<times> state" where
  "save_annotation e annotation st =
     (case find_beo st (ad_session_id annotation) of
        None \<Rightarrow> (Inl (HTTPException 404 ''Session not found'' None), st)
      | Some beo \<Rightarrow>
          (let st1 =
             (case find (\<lambda>a. a_beo_id a = b_id beo \<and> a_page_index a = ad_page_index annotation)
                     (annotations (db st)) of
                Some existing \<Rightarrow>
                  upd_annotation (a_id existing)
                    (\<lambda>a. a\<lparr>canvas_data := annotation_data annotation,
                            a_updated_at := utcnow e\<rparr>) st
              | None \<Rightarrow>
                  add_annotation e (b_id beo) (ad_page_index annotation)
                    (annotation_data annotation) st)
           in (Inr (),
               upd_beo (b_id beo) (\<lambda>b. b\<lparr>status := ''annotated'', updated_at := utcnow e\<rparr>) st1)))"

subsection \<open>\<open>update_beo_metadata\<close>, \<open>reorder_beo\<close> and \<open>delete_beo\<close>\<close>

record BEOMetadata =
  md_session_id :: string
  md_beo_number :: "string option"
  md_event_date :: "string option"
  md_order_position :: "int option"

definition update_beo_metadata :: "env \<Rightarrow> BEOMetadata \<Rightarrow> state \<Rightarrow> (exn + unit) \<times> state" where
  "update_beo_metadata e metadata st =
     (case find_beo st (md_session_id metadata) of
        None \<Rightarrow> (Inl (HTTPException 404 ''BEO not found'' None), st)
      | Some beo \<Rightarrow>
     (let f1 = (case md_beo_number metadata of
                  None \<Rightarrow> (\<lambda>b. b) | Some n \<Rightarrow> (\<lambda>b. b\<lparr>beo_number := Some n\<rparr>));
          f3 = (case md_order_position metadata of
                  None \<Rightarrow> (\<lambda>b. b) | Some p \<Rightarrow> (\<lambda>b. b\<lparr>order_position := p\<rparr>))
      in case md_event_date metadata of
           None \<Rightarrow>
             (Inr (), upd_beo (b_id beo) (\<lambda>b. (f3 (f1 b))\<lparr>updated_at := utcnow e\<rparr>) st)
         | Some s \<Rightarrow>
             (case fromisoformat e s of
                None \<Rightarrow> (Inl ValueError, st)
              | Some event_dt \<Rightarrow>
                  (Inr (),
                   upd_beo (b_id beo)
                     (\<lambda>b. (f3 (set_event_date (Some event_dt) (f1 b)))\<lparr>updated_at := utcnow e\<rparr>)
                     st))))"

record BEOReorder =
  ro_session_id :: string
  ro_event_date :: string
  ro_order_position :: int

text \<open>
  The other documents of the day, as the query returns them:
  \<open>order_by(BEO.order_position)\<close> is a stable sort of the table here (SQL leaves the
  order of rows with equal positions open). The query reads the database, where the
  pending changes of \<open>beo\<close> are not yet written (\<open>autoflush=False\<close>); \<open>beo\<close> is left out
  by its \<open>session_id\<close> in any case.
\<close>

definition same_day_beos :: "state \<Rightarrow> datetime \<Rightarrow> string \<Rightarrow> BEO list" where
  "same_day_beos st new_date sid =
     sort_key order_position
       (filter (\<lambda>b. event_date b = Some new_date \<and> session_id b \<noteq> sid \<and> is_active b)
          (beos (db st)))"

text \<open>One pass of the loop over \<open>enumerate(same_day_beos)\<close>. A row whose position does
  not change is not written, one that changes gets \<open>updated_at\<close> from the column's
  \<open>onupdate\<close>.\<close>

definition adjust_position :: "env \<Rightarrow> int \<Rightarrow> state \<Rightarrow> nat \<times> BEO \<Rightarrow> state" where
  "adjust_position e pos st ib =
     (case ib of (idx, other_beo) \<Rightarrow>
        (let v = (if int idx \<ge> pos then int idx + 1 else int idx)
         in upd_beo (b_id other_beo)
              (\<lambda>b. if order_position b = v then b
                    else b\<lparr>order_position := v, updated_at := utcnow e\<rparr>) st))"

definition reorder_beo :: "env \<Rightarrow> BEOReorder \<Rightarrow> state \<Rightarrow> (exn + unit) \<times> state" where
  "reorder_beo e reorder st =
     (case find_beo st (ro_session_id reorder) of
        None \<Rightarrow> (Inl (HTTPException 404 ''BEO not found'' None), st)
      | Some beo \<Rightarrow>
     (case fromisoformat e (ro_event_date reorder) of
        None \<Rightarrow> (Inl ValueError, st)
      | Some new_date \<Rightarrow>
          (let st1 = upd_beo (b_id beo)
                 (\<lambda>b. (set_event_date (Some new_date) b)
                         \<lparr>order_position := ro_order_position reorder,
                          updated_at := utcnow e\<rparr>) st;
               others = same_day_beos st new_date (ro_session_id reorder)
           in (Inr (),
               foldl (adjust_position e (ro_order_position reorder)) st1
                 (enumerate_py others)))))"

definition delete_beo :: "string \<Rightarrow> state \<Rightarrow> (exn + unit) \<times> state" where
  "delete_beo sid st =
     (case find_beo st sid of
        None \<Rightarrow> (Inl (HTTPException 404 ''BEO not found'' None), st)
      | Some beo \<Rightarrow>
          (Inr (),
           st\<lparr>db := \<lparr>beos = filter (\<lambda>b. b_id b \<noteq> b_id beo) (beos (db st)),
                     beo_pages = filter (\<lambda>p. beo_id p \<noteq> b_id beo) (beo_pages (db st)),
                     annotations = filter (\<lambda>a. a_beo_id a \<noteq> b_id beo) (annotations (db st))\<rparr>\<rparr>))"

subsection \<open>Requests in sequence\<close>

datatype request =
    UploadPdf upload_request
  | UploadMultiplePdfs multi_request
  | ProcessAllPages "string list"
  | SelectPages PageSelection
  | ProcessSelectedPages PageSelection
  | SaveAnnotation AnnotationData
  | CreateFromPages CreateBEOFromPages
  | UpdateMetadata BEOMetadata
  | Reorder BEOReorder
  | DeleteBeo string

text \<open>The state a request leaves, whatever it answers.\<close>

fun step :: "state \<Rightarrow> env \<times> request \<Rightarrow> state" where
  "step st (e, UploadPdf r) = snd (upload_pdf e r st)"
| "step st (e, UploadMultiplePdfs r) = snd (upload_multiple_pdfs e r st)"
| "step st (e, ProcessAllPages r) = snd (process_all_pages e r st)"
| "step st (e, SelectPages r) = snd (select_pages e r st)"
| "step st (e, ProcessSelectedPages r) = snd (process_selected_pages e r st)"
| "step st (e, SaveAnnotation r) = snd (save_annotation e r st)"
| "step st (e, CreateFromPages r) = snd (create_beo_from_pages e r st)"
| "step st (e, UpdateMetadata r) = snd (update_beo_metadata e r st)"
| "step st (e, Reorder r) = snd (reorder_beo e r st)"
| "step st (e, DeleteBeo r) = snd (delete_beo r st)"

definition run :: "state \<Rightarrow> (env \<times> request) list \<Rightarrow> state" where
  "run st rs = foldl step st rs"

text \<open>The state after \<open>init_db()\<close> on an empty database and empty storage.\<close>

definition init_state :: state where
  "init_state =
     \<lparr>db = \<lparr>beos = [], beo_pages = [], annotations = []\<rparr>,
      seq_beo = 1, seq_page = 1, seq_ann = 1,
      originals = [], thumbnails = [], high_res = []\<rparr>"

section \<open>Notions used in the statements\<close>

text \<open>
  \<open>pages_added bid st st' new\<close>: between \<open>st\<close> and \<open>st'\<close> the page rows \<open>new\<close>, all of
  document \<open>bid\<close> and numbered from the page sequence, were appended, and nothing else
  of the registry changed. \<open>valid_date\<close>, \<open>midnight\<close> and \<open>valid_time\<close> say when
  \<open>datetime(y, m, d)\<close> exists, what it is, and that a time of day is in range.
  \<open>resolve_date now m d\<close> is the date a file name with month \<open>m\<close> and day \<open>d\<close> stands
  for at the moment \<open>now\<close>: that day of the current year, or of the next year when it lies
  more than 180 whole days back; \<open>None\<close> when the day does not exist in the year chosen.
\<close>

definition pages_added :: "nat \<Rightarrow> state \<Rightarrow> state \<Rightarrow> BEOPage list \<Rightarrow> bool" where
  "pages_added bid st st' new =
     (beo_pages (db st') = beo_pages (db st) @ new \<and>
      beos (db st') = beos (db st) \<and>
      annotations (db st') = annotations (db st) \<and>
      seq_beo st' = seq_beo st \<and> seq_ann st' = seq_ann st \<and>
      seq_page st' = seq_page st + length new \<and>
      map p_id new = [seq_page st..<seq_page st + length new] \<and>
      (\<forall>p\<in>set new. beo_id p = bid))"

definition valid_date :: "int \<Rightarrow> int \<Rightarrow> int \<Rightarrow> bool" where
  "valid_date y m d = (1 \<le> y \<and> y \<le> 9999 \<and> 1 \<le> m \<and> m \<le> 12 \<and> 1 \<le> d \<and> d \<le> days_in_month y m)"

definition midnight :: "int \<Rightarrow> int \<Rightarrow> int \<Rightarrow> datetime" where
  "midnight y m d = \<lparr>dt_year = y, dt_month = m, dt_day = d, dt_hour = 0, dt_minute = 0,
                dt_second = 0, dt_microsecond = 0\<rparr>"

definition valid_time :: "datetime \<Rightarrow> bool" where
  "valid_time t = (0 \<le> dt_hour t \<and> dt_hour t < 24 \<and> 0 \<le> dt_minute t \<and> dt_minute t < 60 \<and>
     0 \<le> dt_second t \<and> dt_second t < 60 \<and> 0 \<le> dt_microsecond t \<and> dt_microsecond t < 1000000)"

definition resolve_date :: "datetime \<Rightarrow> int \<Rightarrow> int \<Rightarrow> datetime option" where
  "resolve_date now m d =
     (let y = dt_year now in
      if \<not> valid_date y m d then None
      else if toordinal now - ymd2ord y m d \<le> 180 then Some (midnight y m d)
      else if valid_date (y + 1) m d then Some (midnight (y + 1) m d)
      else None)"

definition date_info_of :: "datetime \<Rightarrow> date_info" where
  "date_info_of ev =
     \<lparr>di_event_date = ev, di_day_of_week = strftime_A ev,
      di_week_number = isocalendar_week ev, di_year = dt_year ev\<rparr>"

text \<open>
  \<open>name_shape u a b c d sp w x y z\<close>: the ten pieces are what the pattern asks of the
  start of a name \<open>[a, b, c, d] @ sp @ w @ [46, x, y, z] @ rest\<close>: four decimal digits,
  a non-empty run of white space, a non-empty run of word characters, and after the dot
  (code 46) the letters \<open>p\<close>, \<open>d\<close>, \<open>f\<close>, each small or capital.
\<close>

definition name_shape ::
  "ucd \<Rightarrow> int \<Rightarrow> int \<Rightarrow> int \<Rightarrow> int \<Rightarrow> pystr \<Rightarrow> pystr \<Rightarrow> int \<Rightarrow> int \<Rightarrow> int \<Rightarrow> bool" where
  "name_shape u a b c d sp w x y z =
     (is_digit u a \<and> is_digit u b \<and> is_digit u c \<and> is_digit u d \<and>
      sp \<noteq> [] \<and> (\<forall>s\<in>set sp. is_space u s) \<and> w \<noteq> [] \<and> (\<forall>s\<in>set w. is_word u s) \<and>
      is_letter 112 x \<and> is_letter 100 y \<and> is_letter 102 z)"

section \<open>Concrete instances\<close>

text \<open>A small environment and a small registry, used to run the operations on
  concrete inputs: a PDF of \<open>n\<close> bytes has \<open>n\<close> pages, page \<open>i\<close> renders to byte \<open>i\<close>, the
  encoders are the identity, every write succeeds, and one date string is known to
  \<open>fromisoformat\<close>.\<close>

definition demo_now :: datetime where
  "demo_now = \<lparr>dt_year = 2025, dt_month = 10, dt_day = 1, dt_hour = 12, dt_minute = 0,
                dt_second = 0, dt_microsecond = 0\<rparr>"

definition demo_date :: datetime where
  "demo_date = \<lparr>dt_year = 2025, dt_month = 10, dt_day = 28, dt_hour = 0, dt_minute = 0,
                 dt_second = 0, dt_microsecond = 0\<rparr>"

text \<open>The character database of the examples: Unicode on the code points below 256
  (ASCII and Latin-1) and on the full-width digits U+FF10 to U+FF19; no other character
  is classified.\<close>

definition demo_ucd :: ucd where
  "demo_ucd =
     \<lparr>todecimal = (\<lambda>c. if 48 \<le> c \<and> c \<le> 57 then Some (c - 48)
                       else if 65296 \<le> c \<and> c \<le> 65305 then Some (c - 65296) else None),
      isspace = (\<lambda>c. (9 \<le> c \<and> c \<le> 13) \<or> (28 \<le> c \<and> c \<le> 32) \<or> c = 133 \<or> c = 160),
      isalnum = (\<lambda>c. (48 \<le> c \<and> c \<le> 57) \<or> (65 \<le> c \<and> c \<le> 90) \<or> (97 \<le> c \<and> c \<le> 122) \<or>
                     c = 170 \<or> c = 178 \<or> c = 179 \<or> c = 181 \<or> c = 185 \<or> c = 186 \<or>
                     (188 \<le> c \<and> c \<le> 190) \<or> (192 \<le> c \<and> c \<le> 214) \<or>
                     (216 \<le> c \<and> c \<le> 246) \<or> (248 \<le> c \<and> c \<le> 255) \<or>
                     (65296 \<le> c \<and> c \<le> 65305))\<rparr>"

definition demo_env :: env where
  "demo_env =
     \<lparr>utcnow = demo_now, localnow = demo_now, uuids = (\<lambda>k. ''u'' @ str_nat k),
      page_count = (\<lambda>pdf. if pdf = ''bad'' then None else Some (length pdf)),
      render = (\<lambda>pdf dpi i. [pdf ! i]), jpeg = (\<lambda>img q. img), b64encode = (\<lambda>b. b),
      write_ok = (\<lambda>d n. True),
      fromisoformat = (\<lambda>s. if s = ''2025-10-28'' then Some demo_date else None),
      unicode = demo_ucd\<rparr>"

definition demo_upload :: upload_request where
  "demo_upload =
     \<lparr>up_filename = codes ''1028 Tuesday.pdf'', up_content = ''abc'', up_file_type = ''daily''\<rparr>"

text \<open>The state after one upload of a three-page PDF into the empty system.\<close>

definition demo_state :: state where
  "demo_state = snd (upload_pdf demo_env demo_upload init_state)"

definition leap_now :: datetime where
  "leap_now = \<lparr>dt_year = 2024, dt_month = 12, dt_day = 1, dt_hour = 9, dt_minute = 30,
                dt_second = 0, dt_microsecond = 0\<rparr>"

definition notes_upload :: upload_request where
  "notes_upload = \<lparr>up_filename = codes ''notes.pdf'', up_content = ''abc'', up_file_type = ''daily''\<rparr>"

text \<open>An environment in which the write of the second thumbnail fails.\<close>

definition failing_env :: env where
  "failing_env = demo_env\<lparr>write_ok := (\<lambda>d n. n \<noteq> ''u0_thumb_1.jpg'')\<rparr>"

text \<open>
  What the caller of an endpoint sees of an exception: FastAPI answers an
  \<open>HTTPException\<close> with its status code and detail, and any other exception with the
  plain response \<open>500 Internal Server Error\<close>.
\<close>

definition http_response :: "exn \<Rightarrow> nat \<times> string \<times> exn option" where
  "http_response x =
     (case x of HTTPException s d c \<Rightarrow> (s, d, c) | _ \<Rightarrow> (500, ''Internal Server Error'', None))"

text \<open>\<open>only_high_res old new\<close>: the page rows are the same, row by row, but for
  \<open>high_res_path\<close>. \<open>pages_marked st st'\<close>: between the two states nothing of the registry
  changed but \<open>high_res_path\<close> values (the high-resolution files may differ).
  \<open>mark_page\<close> is the page update of one pass of the loop of
  \<open>process_selected_pages\<close>.\<close>

definition only_high_res :: "BEOPage list \<Rightarrow> BEOPage list \<Rightarrow> bool" where
  "only_high_res old new = list_all2 (\<lambda>p q. \<exists>h. q = p\<lparr>high_res_path := h\<rparr>) old new"

definition pages_marked :: "state \<Rightarrow> state \<Rightarrow> bool" where
  "pages_marked st st' =
     (beos (db st') = beos (db st) \<and> annotations (db st') = annotations (db st) \<and>
      seq_beo st' = seq_beo st \<and> seq_page st' = seq_page st \<and> seq_ann st' = seq_ann st \<and>
      originals st' = originals st \<and> thumbnails st' = thumbnails st \<and>
      only_high_res (beo_pages (db st)) (beo_pages (db st')))"

definition mark_page :: "nat \<Rightarrow> int \<Rightarrow> string \<Rightarrow> state \<Rightarrow> state" where
  "mark_page bid page_idx name st =
     (case find (\<lambda>p. beo_id p = bid \<and> page_index p = page_idx) (beo_pages (db st)) of
        None \<Rightarrow> st
      | Some page \<Rightarrow> upd_page (p_id page) (\<lambda>p. p\<lparr>high_res_path := Some name\<rparr>) st)"

text \<open>A second source of identifiers, a state with two uploaded documents (three
  pages and one page), and the state after splitting pages 0, 99 and 1 off the first
  upload.\<close>

definition demo_env2 :: env where
  "demo_env2 = demo_env\<lparr>uuids := (\<lambda>k. ''v'' @ str_nat k)\<rparr>"

definition two_doc_state :: state where
  "two_doc_state =
     snd (upload_pdf demo_env2
            \<lparr>up_filename = codes ''one.pdf'', up_content = ''z'', up_file_type = ''daily''\<rparr>
            demo_state)"

definition split_state :: state where
  "split_state =
     snd (create_beo_from_pages demo_env2
            \<lparr>parent_session_id = ''u0'', cb_beo_number = ''7'', page_indices = [0, 99, 1],
             cb_order_position = 0\<rparr> demo_state)"

text \<open>\<open>pages_of st i\<close>: the page rows of the document with primary key \<open>i\<close>.
  \<open>dense_pages st b\<close>: their \<open>page_index\<close> values are exactly \<open>0 .. total_pages - 1\<close>,
  each once.\<close>

definition pages_of :: "state \<Rightarrow> nat \<Rightarrow> BEOPage list" where
  "pages_of st i = filter (\<lambda>p. beo_id p = i) (beo_pages (db st))"

definition dense_pages :: "state \<Rightarrow> BEO \<Rightarrow> bool" where
  "dense_pages st b =
     (distinct (map page_index (pages_of st (b_id b))) \<and>
      set (map page_index (pages_of st (b_id b))) = {0..<total_pages b})"

text \<open>Two splits of the first upload (one with an index out of range) and a
  promotion of its pages 0 and 2.\<close>

definition split_request :: CreateBEOFromPages where
  "split_request = \<lparr>parent_session_id = ''u0'', cb_beo_number = ''7'', page_indices = [0, 99, 1],
                     cb_order_position = 0\<rparr>"

definition split_ok_request :: CreateBEOFromPages where
  "split_ok_request = \<lparr>parent_session_id = ''u0'', cb_beo_number = ''8'', page_indices = [2, 0],
                        cb_order_position = 1\<rparr>"

definition split_ok_state :: state where
  "split_ok_state = snd (create_beo_from_pages demo_env2 split_ok_request demo_state)"

definition promoted_state :: state where
  "promoted_state =
     snd (process_selected_pages demo_env \<lparr>ps_session_id = ''u0'', selected_pages = [0, 2]\<rparr>
            demo_state)"

text \<open>
  \<open>date_consistent b\<close>: the weekday name, the week number and the year of a document
  are the ones of its event date, and unset when the date is unset. \<open>dates_ok\<close>: every
  document row is so. \<open>ann_unique\<close>: no two annotation rows have the same document and
  page index. \<open>inv2 A\<close> is \<open>dates_ok\<close>, with \<open>ann_unique\<close> too when \<open>A\<close> holds.
  \<open>ann_rows st bid idx\<close>: the annotation rows of page \<open>idx\<close> of document \<open>bid\<close>.
\<close>

definition date_consistent :: "BEO \<Rightarrow> bool" where
  "date_consistent b =
     (day_of_week b = map_option strftime_A (event_date b) \<and>
      week_number b = map_option isocalendar_week (event_date b) \<and>
      year b = map_option dt_year (event_date b))"

definition dates_ok :: "state \<Rightarrow> bool" where
  "dates_ok st = (\<forall>b\<in>set (beos (db st)). date_consistent b)"

definition ann_unique :: "state \<Rightarrow> bool" where
  "ann_unique st = distinct (map (\<lambda>a. (a_beo_id a, a_page_index a)) (annotations (db st)))"

definition inv2 :: "bool \<Rightarrow> state \<Rightarrow> bool" where
  "inv2 A st = (dates_ok st \<and> (A \<longrightarrow> ann_unique st))"

definition ann_rows :: "state \<Rightarrow> nat \<Rightarrow> int \<Rightarrow> Annotation list" where
  "ann_rows st bid idx =
     filter (\<lambda>a. a_beo_id a = bid \<and> a_page_index a = idx) (annotations (db st))"

text \<open>An upload without a date in its name followed by a metadata update that sets
  the date, and an annotation of page 1 of the first upload.\<close>

definition demo_requests :: "(env \<times> request) list" where
  "demo_requests =
     [(demo_env, UploadPdf notes_upload),
      (demo_env, UpdateMetadata \<lparr>md_session_id = ''u0'', md_beo_number = Some ''1234567'',
                                  md_event_date = Some ''2025-10-28'',
                                  md_order_position = None\<rparr>)]"

definition demo_annotation :: AnnotationData where
  "demo_annotation = \<lparr>ad_session_id = ''u0'', ad_page_index = 1, annotation_data = ''{}''\<rparr>"

text \<open>
  Notions for \<open>reorder_beo\<close>. \<open>day_beos st t\<close>: the active documents whose event date is
  \<open>t\<close>, in table order. \<open>shifted p idx\<close>: the position the loop of \<open>reorder_beo\<close> gives the
  document it meets at index \<open>idx\<close> of its query result. \<open>set_position e v\<close>: the
  assignment \<open>other_beo.order_position = v\<close> (the ORM writes the row, and refreshes
  \<open>updated_at\<close>, only when the value changes). \<open>assign e al\<close>: the assignments of a whole
  loop, \<open>al\<close> pairing primary keys with new positions.
\<close>

definition day_beos :: "state \<Rightarrow> datetime \<Rightarrow> BEO list" where
  "day_beos st t = filter (\<lambda>b. event_date b = Some t \<and> is_active b) (beos (db st))"

definition shifted :: "int \<Rightarrow> nat \<Rightarrow> int" where
  "shifted p idx = (if int idx \<ge> p then int idx + 1 else int idx)"

definition set_position :: "env \<Rightarrow> int \<Rightarrow> BEO \<Rightarrow> BEO" where
  "set_position e v b =
     (if order_position b = v then b else b\<lparr>order_position := v, updated_at := utcnow e\<rparr>)"

definition assign :: "env \<Rightarrow> (nat \<times> int) list \<Rightarrow> BEO \<Rightarrow> BEO" where
  "assign e al b = (case map_of al (b_id b) of None \<Rightarrow> b | Some v \<Rightarrow> set_position e v b)"

text \<open>
  A third source of identifiers; a calendar with two one-page documents on
  28 October 2025, at positions 0 (\<open>u0\<close>) and 1 (\<open>v0\<close>), and a third document
  (\<open>w0\<close>) without a date; three reorder requests; and the positions of a day as pairs
  (session identifier, position) in table order.
\<close>

definition demo_env3 :: env where
  "demo_env3 = demo_env\<lparr>uuids := (\<lambda>k. ''w'' @ str_nat k)\<rparr>"

definition calendar_state :: state where
  "calendar_state = run init_state
     [(demo_env, UploadPdf \<lparr>up_filename = codes ''1028 Tuesday.pdf'', up_content = ''x'',
                             up_file_type = ''daily''\<rparr>),
      (demo_env2, UploadPdf \<lparr>up_filename = codes ''1028 Tuesday.pdf'', up_content = ''y'',
                              up_file_type = ''daily''\<rparr>),
      (demo_env3, UploadPdf \<lparr>up_filename = codes ''notes.pdf'', up_content = ''z'',
                              up_file_type = ''daily''\<rparr>),
      (demo_env, Reorder \<lparr>ro_session_id = ''v0'', ro_event_date = ''2025-10-28'',
                           ro_order_position = 1\<rparr>)]"

definition insert_request :: BEOReorder where
  "insert_request = \<lparr>ro_session_id = ''w0'', ro_event_date = ''2025-10-28'',
                       ro_order_position = 1\<rparr>"

definition move_request :: BEOReorder where
  "move_request = \<lparr>ro_session_id = ''u0'', ro_event_date = ''2025-10-28'',
                     ro_order_position = 2\<rparr>"

definition far_request :: BEOReorder where
  "far_request = \<lparr>ro_session_id = ''u0'', ro_event_date = ''2025-10-28'',
                    ro_order_position = 5\<rparr>"

definition positions :: "state \<Rightarrow> datetime \<Rightarrow> (string \<times> int) list" where
  "positions st t = map (\<lambda>b. (session_id b, order_position b)) (day_beos st t)"

section \<open>Properties\<close>

subsection \<open>Auxiliary facts\<close>

lemma pages_added_refl: "pages_added bid st st []"
  by (simp add: pages_added_def)

lemma upt_split: "[s..<s + a] @ [s + a..<s + (a + b)] = [s..<s + (a + b::nat)]"
  using upt_add_eq_append[of s "s + a" b] by (simp add: add.assoc)

lemma pages_added_trans:
  "pages_added bid st st1 n1 \<Longrightarrow> pages_added bid st1 st2 n2 \<Longrightarrow> pages_added bid st st2 (n1 @ n2)"
  by (auto simp: pages_added_def upt_split add.assoc)

lemma save_file_frame:
  "save_file e data d name st = (r, st') \<Longrightarrow>
     db st' = db st \<and> seq_beo st' = seq_beo st \<and> seq_page st' = seq_page st \<and> seq_ann st' = seq_ann st"
  by (auto simp: save_file_def put_file_def split: if_splits dir.splits)

lemma save_file_added: "save_file e data d name st = (r, st') \<Longrightarrow> pages_added bid st st' []"
  by (drule save_file_frame) (simp add: pages_added_def)

lemma add_page_added:
  "pages_added bid st (add_page e bid idx orig th hi st)
     [\<lparr>p_id = seq_page st, beo_id = bid, page_index = idx, original_order = orig,
       thumbnail_path = th, high_res_path = hi, p_created_at = utcnow e\<rparr>]"
  by (simp add: pages_added_def add_page_def)

lemma thumbnail_loop_added:
  "thumbnail_loop e sid bid xs acc st = (r, st') \<Longrightarrow>
     \<exists>new. pages_added bid st st' new \<and>
       (\<forall>x. r = Inr x \<longrightarrow> map page_index new = map (int \<circ> fst) xs)"
proof (induction xs arbitrary: acc st)
  case Nil
  then show ?case by (auto simp: pages_added_refl)
next
  case (Cons a xs)
  obtain idx img where a: "a = (idx, img)" by (cases a)
  let ?name = "sid @ ''_thumb_'' @ str_nat idx @ ''.jpg''"
  obtain r1 st1 where sf: "save_file e (jpeg e img 60) THUMBNAILS_DIR ?name st = (r1, st1)"
    by (cases "save_file e (jpeg e img 60) THUMBNAILS_DIR ?name st")
  show ?case
  proof (cases r1)
    case (Inl x)
    with Cons.prems a sf have "st' = st1" "r = Inl x" by (auto simp: Let_def)
    with save_file_added[OF sf] show ?thesis by auto
  next
    case (Inr y)
    let ?st2 = "add_page e bid (int idx) (int idx) (Some ?name) None st1"
    from Cons.prems a sf Inr have
      rec: "thumbnail_loop e sid bid xs (acc @ [b64encode e (jpeg e img 60)]) ?st2 = (r, st')"
      by (simp add: Let_def)
    from Cons.IH[OF rec] obtain new where
      n: "pages_added bid ?st2 st' new" "\<forall>x. r = Inr x \<longrightarrow> map page_index new = map (int \<circ> fst) xs"
      by blast
    have "pages_added bid st st' ([] @ [\<lparr>p_id = seq_page st1, beo_id = bid, page_index = int idx,
        original_order = int idx, thumbnail_path = Some ?name, high_res_path = None,
        p_created_at = utcnow e\<rparr>] @ new)"
      by (rule pages_added_trans[OF save_file_added[OF sf] pages_added_trans[OF add_page_added n(1)]])
    with n(2) a show ?thesis by auto
  qed
qed

lemma add_beo_Inr:
  "add_beo mk st = (Inr b, st') \<Longrightarrow>
     b = mk (seq_beo st) \<and> session_id b \<notin> set (map session_id (beos (db st))) \<and>
     db st' = (db st)\<lparr>beos := beos (db st) @ [b]\<rparr> \<and>
     seq_beo st' = Suc (seq_beo st) \<and> seq_page st' = seq_page st \<and> seq_ann st' = seq_ann st \<and>
     originals st' = originals st \<and> thumbnails st' = thumbnails st \<and> high_res st' = high_res st"
  by (auto simp: add_beo_def Let_def split: if_splits)

lemma add_beo_Inl:
  "add_beo mk st = (Inl x, st') \<Longrightarrow>
     x = IntegrityError \<and> db st' = db st \<and>
     seq_beo st' = Suc (seq_beo st) \<and> seq_page st' = seq_page st \<and> seq_ann st' = seq_ann st"
  by (auto simp: add_beo_def Let_def split: if_splits)

lemma store_page_added:
  "store_page e sid bid pdf new_idx original_idx img st = (r, st') \<Longrightarrow>
     \<exists>new. pages_added bid st st' new \<and>
       (r = Inr () \<longrightarrow> map page_index new = [int new_idx]) \<and> (r \<noteq> Inr () \<longrightarrow> new = [])"
proof -
  assume a: "store_page e sid bid pdf new_idx original_idx img st = (r, st')"
  let ?hn = "sid @ ''_highres_'' @ str_nat new_idx @ ''.jpg''"
  let ?tn = "sid @ ''_thumb_'' @ str_nat new_idx @ ''.jpg''"
  obtain r1 st1 where s1: "save_file e (jpeg e img 95) HIGH_RES_DIR ?hn st = (r1, st1)"
    by (cases "save_file e (jpeg e img 95) HIGH_RES_DIR ?hn st")
  note f1 = save_file_added[OF s1, of bid]
  show ?thesis
  proof (cases r1)
    case (Inl x)
    with a s1 have "r = Inl x \<and> st' = st1" by (simp add: store_page_def Let_def)
    with f1 show ?thesis by auto
  next
    case Inr1: (Inr y)
    show ?thesis
    proof (cases "convert_range e pdf 75 (original_idx + 1) (original_idx + 1)")
      case (Inl x)
      with a s1 Inr1 have "r = Inl x \<and> st' = st1" by (simp add: store_page_def Let_def)
      with f1 show ?thesis by auto
    next
      case (Inr ts)
      show ?thesis
      proof (cases ts)
        case Nil
        with a s1 Inr1 Inr have "r = Inl IndexError \<and> st' = st1"
          by (simp add: store_page_def Let_def)
        with f1 show ?thesis by auto
      next
        case (Cons t ts')
        obtain r2 st2 where s2: "save_file e (jpeg e t 60) THUMBNAILS_DIR ?tn st1 = (r2, st2)"
          by (cases "save_file e (jpeg e t 60) THUMBNAILS_DIR ?tn st1")
        note f2 = pages_added_trans[OF f1 save_file_added[OF s2, of bid]]
        show ?thesis
        proof (cases r2)
          case (Inl x)
          with a s1 Inr1 Inr Cons s2 have "r = Inl x \<and> st' = st2"
            by (simp add: store_page_def Let_def)
          with f2 show ?thesis by auto
        next
          case Inr2: (Inr z)
          with a s1 Inr1 Inr Cons s2 have
            "r = Inr () \<and> st' = add_page e bid (int new_idx) original_idx (Some ?tn) (Some ?hn) st2"
            by (simp add: store_page_def Let_def)
          then have r: "r = Inr ()" and st': "st' = add_page e bid (int new_idx) original_idx (Some ?tn) (Some ?hn) st2"
            by simp_all
          have "pages_added bid st st' (([] @ []) @
             [\<lparr>p_id = seq_page st2, beo_id = bid, page_index = int new_idx,
               original_order = original_idx, thumbnail_path = Some ?tn,
               high_res_path = Some ?hn, p_created_at = utcnow e\<rparr>])"
            unfolding st' by (rule pages_added_trans[OF f2 add_page_added])
          with r show ?thesis by auto
        qed
      qed
    qed
  qed
qed

lemma all_pages_inner_added:
  "all_pages_inner e sid bid pdf xs st = (r, st') \<Longrightarrow>
     \<exists>new. pages_added bid st st' new \<and>
       (r = Inr () \<longrightarrow> map page_index new = map (int \<circ> fst) xs)"
proof (induction xs arbitrary: st)
  case Nil
  then show ?case by (auto simp: pages_added_refl)
next
  case (Cons a xs)
  obtain idx img where a: "a = (idx, img)" by (cases a)
  obtain r1 st1 where s1: "store_page e sid bid pdf idx (int idx) img st = (r1, st1)"
    by (cases "store_page e sid bid pdf idx (int idx) img st")
  from store_page_added[OF s1] obtain n1 where
    n1: "pages_added bid st st1 n1" "r1 = Inr () \<longrightarrow> map page_index n1 = [int idx]"
    by (elim exE conjE)
  show ?case
  proof (cases r1)
    case (Inl x)
    with Cons.prems a s1 have "r = Inl x" "st' = st1" by auto
    with n1 show ?thesis by auto
  next
    case (Inr y)
    with Cons.prems a s1 have rec: "all_pages_inner e sid bid pdf xs st1 = (r, st')" by auto
    from Cons.IH[OF rec] obtain n2 where
      n2: "pages_added bid st1 st' n2" "r = Inr () \<longrightarrow> map page_index n2 = map (int \<circ> fst) xs"
      by blast
    from pages_added_trans[OF n1(1) n2(1)] n1(2) n2(2) Inr a show ?thesis by auto
  qed
qed

lemma from_pages_loop_added:
  "from_pages_loop e sid bid pdf images xs st = (r, st') \<Longrightarrow>
     \<exists>new. pages_added bid st st' new \<and>
       (r = Inr () \<longrightarrow>
          map page_index new =
            map (int \<circ> fst) (filter (\<lambda>(n, i). i < int (length images)) xs))"
proof (induction xs arbitrary: st)
  case Nil
  then show ?case by (auto simp: pages_added_refl)
next
  case (Cons a xs)
  obtain new_idx original_idx where a: "a = (new_idx, original_idx)" by (cases a)
  show ?case
  proof (cases "original_idx < int (length images)")
    case False
    with Cons.prems a have "from_pages_loop e sid bid pdf images xs st = (r, st')" by simp
    from Cons.IH[OF this] False a show ?thesis by auto
  next
    case True
    show ?thesis
    proof (cases "py_index images original_idx")
      case (Inl x)
      with Cons.prems a True have "r = Inl x" "st' = st" by auto
      then show ?thesis using pages_added_refl by blast
    next
      case (Inr img)
      obtain r1 st1 where s1: "store_page e sid bid pdf new_idx original_idx img st = (r1, st1)"
        by (cases "store_page e sid bid pdf new_idx original_idx img st")
      from store_page_added[OF s1] obtain n1 where
        n1: "pages_added bid st st1 n1" "r1 = Inr () \<longrightarrow> map page_index n1 = [int new_idx]"
        by (elim exE conjE)
      show ?thesis
      proof (cases r1)
        case (Inl x)
        with Cons.prems a True Inr s1 have "r = Inl x" "st' = st1" by auto
        with n1 show ?thesis by auto
      next
        case Inr1: (Inr y)
        with Cons.prems a True Inr s1 have
          rec: "from_pages_loop e sid bid pdf images xs st1 = (r, st')" by auto
        from Cons.IH[OF rec] obtain n2 where
          n2: "pages_added bid st1 st' n2"
            "r = Inr () \<longrightarrow> map page_index n2 =
               map (int \<circ> fst) (filter (\<lambda>(n, i). i < int (length images)) xs)"
          by blast
        from pages_added_trans[OF n1(1) n2(1)] n1(2) n2(2) Inr1 a True show ?thesis by auto
      qed
    qed
  qed
qed

lemma mk_datetime_valid:
  "mk_datetime y m d = (if valid_date y m d then Inr (midnight y m d) else Inl ValueError)"
  by (auto simp: mk_datetime_def valid_date_def midnight_def)

lemma sub_days_midnight:
  assumes "valid_time now"
  shows "sub_days now (midnight y m d) = toordinal now - ymd2ord y m d"
proof -
  define r where "r = (dt_hour now * 3600 + dt_minute now * 60 + dt_second now) * 1000000
      + dt_microsecond now"
  have r: "0 \<le> r" "r < 86400 * 1000000"
    using assms unfolding r_def valid_time_def by auto
  have "micros_of now - micros_of (midnight y m d) =
          (toordinal now - ymd2ord y m d) * (86400 * 1000000) + r"
    by (simp add: micros_of_def midnight_def toordinal_def r_def algebra_simps)
  then have "sub_days now (midnight y m d) =
      ((toordinal now - ymd2ord y m d) * (86400 * 1000000) + r) div (86400 * 1000000)"
    by (simp add: sub_days_def)
  also have "\<dots> = toordinal now - ymd2ord y m d"
    using r by (simp add: div_pos_pos_trivial)
  finally show ?thesis .
qed

lemma is_ext_iff:
  "is_ext tail \<longleftrightarrow>
     (\<exists>x y z rest. tail = 46 # x # y # z # rest \<and>
        is_letter 112 x \<and> is_letter 100 y \<and> is_letter 102 z)"
  by (cases tail rule: is_ext.cases) auto

lemma match_word_complete:
  "\<forall>x\<in>set w. is_word u x \<Longrightarrow> acc @ w \<noteq> [] \<Longrightarrow> is_ext tail \<Longrightarrow>
     match_word u acc (w @ tail) \<noteq> None"
proof (induction w arbitrary: acc)
  case Nil
  from Nil(3) obtain c r where t: "tail = c # r" by (cases tail) auto
  with Nil show ?case by (auto split: option.splits)
next
  case (Cons x w)
  from Cons have "match_word u (acc @ [x]) (w @ tail) \<noteq> None" by (intro Cons.IH) auto
  with Cons.prems show ?case by (auto split: option.splits)
qed

lemma match_space_complete:
  "\<forall>x\<in>set sp. is_space u x \<Longrightarrow> k \<or> sp \<noteq> [] \<Longrightarrow> \<forall>x\<in>set w. is_word u x \<Longrightarrow> w \<noteq> [] \<Longrightarrow>
     is_ext tail \<Longrightarrow> match_space u k (sp @ w @ tail) \<noteq> None"
proof (induction sp arbitrary: k)
  case Nil
  then obtain x w' where w: "w = x # w'" by (cases w) auto
  from Nil have k by simp
  have "match_word u [] (w @ tail) \<noteq> None"
    using Nil by (intro match_word_complete) auto
  with w \<open>k\<close> show ?case by (auto split: option.splits)
next
  case (Cons s sp)
  from Cons have "match_space u True (sp @ w @ tail) \<noteq> None" by (intro Cons.IH) auto
  with Cons.prems show ?case by (auto split: option.splits)
qed

lemma match_word_sound:
  "match_word u acc r = Some w \<Longrightarrow>
     \<exists>w' tail. r = w' @ tail \<and> w = acc @ w' \<and> (\<forall>x\<in>set w'. is_word u x) \<and> w \<noteq> [] \<and>
        is_ext tail"
proof (induction r arbitrary: acc)
  case Nil
  then show ?case by simp
next
  case (Cons c r)
  show ?case
  proof (cases "is_word u c \<and> match_word u (acc @ [c]) r \<noteq> None")
    case True
    with Cons.prems have m: "match_word u (acc @ [c]) r = Some w" by auto
    from Cons.IH[OF m] obtain w' tail where
      h: "r = w' @ tail" "w = (acc @ [c]) @ w'" "\<forall>x\<in>set w'. is_word u x" "w \<noteq> []" "is_ext tail"
      by (elim exE conjE)
    have "c # r = (c # w') @ tail \<and> w = acc @ (c # w') \<and> (\<forall>x\<in>set (c # w'). is_word u x) \<and>
          w \<noteq> [] \<and> is_ext tail"
      using h True by simp
    then show ?thesis by blast
  next
    case False
    with Cons.prems have "acc \<noteq> []" "is_ext (c # r)" "w = acc"
      by (auto split: option.splits if_splits)
    then have "c # r = [] @ (c # r) \<and> w = acc @ [] \<and> (\<forall>x\<in>set []. is_word u x) \<and>
          w \<noteq> [] \<and> is_ext (c # r)" by simp
    then show ?thesis by blast
  qed
qed

lemma match_space_sound:
  "match_space u k r = Some w \<Longrightarrow>
     \<exists>sp tail. r = sp @ w @ tail \<and> (\<forall>x\<in>set sp. is_space u x) \<and> (k \<or> sp \<noteq> []) \<and>
        (\<forall>x\<in>set w. is_word u x) \<and> w \<noteq> [] \<and> is_ext tail"
proof (induction r arbitrary: k)
  case Nil
  then show ?case by simp
next
  case (Cons c r)
  show ?case
  proof (cases "is_space u c \<and> match_space u True r \<noteq> None")
    case True
    with Cons.prems have m: "match_space u True r = Some w" by auto
    from Cons.IH[OF m] obtain sp tail where
      h: "r = sp @ w @ tail" "\<forall>x\<in>set sp. is_space u x" "\<forall>x\<in>set w. is_word u x" "w \<noteq> []"
         "is_ext tail"
      by (elim exE conjE)
    have "c # r = (c # sp) @ w @ tail \<and> (\<forall>x\<in>set (c # sp). is_space u x) \<and>
          (k \<or> c # sp \<noteq> []) \<and> (\<forall>x\<in>set w. is_word u x) \<and> w \<noteq> [] \<and> is_ext tail"
      using h True by simp
    then show ?thesis by blast
  next
    case False
    with Cons.prems have k: k and m: "match_word u [] (c # r) = Some w"
      by (auto split: option.splits if_splits)
    from match_word_sound[OF m] obtain w' tail where
      h: "c # r = w' @ tail" "w = [] @ w'" "\<forall>x\<in>set w'. is_word u x" "w \<noteq> []" "is_ext tail"
      by (elim exE conjE)
    have "c # r = [] @ w @ tail \<and> (\<forall>x\<in>set []. is_space u x) \<and> (k \<or> [] \<noteq> []) \<and>
          (\<forall>x\<in>set w. is_word u x) \<and> w \<noteq> [] \<and> is_ext tail"
      using h k by simp
    then show ?thesis by blast
  qed
qed

lemma match_filename_complete:
  assumes "name_shape u a b c d sp w x y z"
  shows "\<exists>g3. match_filename u ([a, b, c, d] @ sp @ w @ [46, x, y, z] @ rest) =
                Some ([a, b], [c, d], g3)"
proof -
  have e: "is_ext ([46, x, y, z] @ rest)"
    using assms by (simp add: name_shape_def)
  have "match_space u False (sp @ w @ [46, x, y, z] @ rest) \<noteq> None"
    using assms e by (intro match_space_complete) (simp_all add: name_shape_def)
  then obtain g3 where "match_space u False (sp @ w @ [46, x, y, z] @ rest) = Some g3" by auto
  with assms show ?thesis by (simp add: name_shape_def)
qed

lemma match_filename_sound:
  assumes "match_filename u fname = Some (g1, g2, g3)"
  shows "\<exists>a b c d sp x y z rest. fname = [a, b, c, d] @ sp @ g3 @ [46, x, y, z] @ rest \<and>
           g1 = [a, b] \<and> g2 = [c, d] \<and> name_shape u a b c d sp g3 x y z"
proof -
  from assms obtain a b c d r where f: "fname = a # b # c # d # r"
    by (cases "(u, fname)" rule: match_filename.cases) auto
  from assms f have dg: "is_digit u a" "is_digit u b" "is_digit u c" "is_digit u d"
    and m: "match_space u False r = Some g3" and g: "g1 = [a, b]" "g2 = [c, d]"
    by (auto split: if_splits option.splits)
  from match_space_sound[OF m] obtain sp tail where
    h: "r = sp @ g3 @ tail" "\<forall>x\<in>set sp. is_space u x" "False \<or> sp \<noteq> []"
       "\<forall>x\<in>set g3. is_word u x" "g3 \<noteq> []" "is_ext tail"
    by (elim exE conjE)
  from h(6) obtain x y z rest where
    t: "tail = 46 # x # y # z # rest" "is_letter 112 x" "is_letter 100 y" "is_letter 102 z"
    unfolding is_ext_iff by (elim exE conjE)
  have "fname = [a, b, c, d] @ sp @ g3 @ [46, x, y, z] @ rest \<and>
           g1 = [a, b] \<and> g2 = [c, d] \<and> name_shape u a b c d sp g3 x y z"
    using f h t dg g by (simp add: name_shape_def)
  then show ?thesis by blast
qed

lemma match_filename_None:
  assumes "\<forall>a b c d sp w x y z rest.
             fname = [a, b, c, d] @ sp @ w @ [46, x, y, z] @ rest \<longrightarrow>
             \<not> name_shape u a b c d sp w x y z"
  shows "match_filename u fname = None"
proof (cases "match_filename u fname")
  case None
  then show ?thesis .
next
  case (Some g)
  obtain g1 g2 g3 where "g = (g1, g2, g3)" by (cases g)
  with Some match_filename_sound[of u fname g1 g2 g3] assms show ?thesis by blast
qed

lemma midnight_year: "dt_year (midnight y m d) = y"
  by (simp add: midnight_def)

lemma int_of_two_digits: "int_of_digits u [a, b] = 10 * digit_val u a + digit_val u b"
  by (simp add: int_of_digits_def)

lemma parse_resolve:
  assumes "valid_time now" "match_filename u fname = Some (g1, g2, g3)"
  shows "parse_filename_date u now fname =
           map_option date_info_of (resolve_date now (int_of_digits u g1) (int_of_digits u g2))"
  using assms
  by (simp add: parse_filename_date_def mk_datetime_valid sub_days_midnight resolve_date_def
        Let_def mk_date_info_def date_info_of_def midnight_year)

lemma thumbnail_loop_ok:
  "\<forall>n. write_ok e THUMBNAILS_DIR n \<Longrightarrow>
     \<exists>r st'. thumbnail_loop e sid bid xs acc st = (Inr r, st')"
  by (induction xs arbitrary: acc st) (auto simp: save_file_def Let_def)

lemma upload_pdf_succeeds:
  assumes "endswith (up_filename req) (codes ''.pdf'')"
    and "write_ok e ORIGINALS_DIR (uuids e 0 @ ''.pdf'')"
    and "\<forall>n. write_ok e THUMBNAILS_DIR n"
    and "page_count e (up_content req) = Some n"
    and "uuids e 0 \<notin> set (map session_id (beos (db st)))"
  shows "\<exists>r st' b. upload_pdf e req st = (Inr r, st') \<and>
           beos (db st') = beos (db st) @ [b] \<and>
           b = set_date_info (parse_filename_date (unicode e) (localnow e) (up_filename req))
                 (new_beo e (seq_beo st) (uuids e 0) (up_filename req) (int n) ''new''
                    (up_file_type req))"
proof -
  let ?st1 = "put_file ORIGINALS_DIR (uuids e 0 @ ''.pdf'') (up_content req) st"
  let ?b = "set_date_info (parse_filename_date (unicode e) (localnow e) (up_filename req))
                 (new_beo e (seq_beo st) (uuids e 0) (up_filename req) (int n) ''new''
                    (up_file_type req))"
  let ?st2 = "?st1\<lparr>seq_beo := Suc (seq_beo ?st1), db := (db ?st1)\<lparr>beos := beos (db ?st1) @ [?b]\<rparr>\<rparr>"
  have db1: "db ?st1 = db st" "seq_beo ?st1 = seq_beo st" by (simp_all add: put_file_def)
  have sid: "session_id ?b = uuids e 0" by (simp add: set_date_info_def new_beo_def)
  have ab: "add_beo (\<lambda>i. set_date_info (parse_filename_date (unicode e) (localnow e) (up_filename req))
                 (new_beo e i (uuids e 0) (up_filename req) (int n) ''new''
                    (up_file_type req))) ?st1 = (Inr ?b, ?st2)"
    using assms(5) by (simp add: add_beo_def Let_def db1 sid)
  obtain r st3 where tl: "thumbnail_loop e (uuids e 0) (b_id ?b)
       (enumerate_py (map (render e (up_content req) 75) [0..<n])) [] ?st2 = (Inr r, st3)"
    using thumbnail_loop_ok[OF assms(3)] by blast
  from thumbnail_loop_added[OF tl] obtain new where "pages_added (b_id ?b) ?st2 st3 new"
    by blast
  then have b3: "beos (db st3) = beos (db st) @ [?b]"
    by (simp add: pages_added_def db1)
  have "upload_pdf_try e req st =
     (Inr \<lparr>sr_session_id = uuids e 0, sr_filename = up_filename req,
           sr_total_pages = int n, sr_pages = r\<rparr>, st3)"
    using assms(1,2,4) ab tl
    by (simp add: upload_pdf_try_def save_file_def convert_from_bytes_def Let_def)
  then show ?thesis using b3 by (simp add: upload_pdf_def)
qed

subsection \<open>Input validation of \<open>upload_pdf\<close>\<close>

text \<open>
  C7. An upload whose file name does not end in \<open>.pdf\<close> is refused before anything is
  stored: the state is unchanged. The \<open>HTTPException(400)\<close> the code raises is raised
  inside the \<open>try\<close> block, so the \<open>except Exception\<close> handler catches it and the
  caller gets status 500 with the detail \<open>PDF processing failed: ...\<close>, not the 400.
\<close>

theorem upload_pdf_non_pdf_is_500:
  "\<not> endswith (up_filename req) (codes ''.pdf'') \<Longrightarrow>
   upload_pdf e req st =
     (Inl (HTTPException 500 ''PDF processing failed: ''
            (Some (HTTPException 400 ''File must be a PDF'' None))), st)"
  by (simp add: upload_pdf_def upload_pdf_try_def rollback_def)

theorem upload_pdf_non_pdf_is_500_witness:
  "upload_pdf demo_env
     \<lparr>up_filename = codes ''notes.txt'', up_content = ''abc'', up_file_type = ''daily''\<rparr> init_state =
     (Inl (HTTPException 500 ''PDF processing failed: ''
            (Some (HTTPException 400 ''File must be a PDF'' None))), init_state)"
proof -
  have "\<not> endswith (codes ''notes.txt'') (codes ''.pdf'')" by (simp add: endswith_def codes_def)
  then show ?thesis
    using upload_pdf_non_pdf_is_500
      [of "\<lparr>up_filename = codes ''notes.txt'', up_content = ''abc'', up_file_type = ''daily''\<rparr>"
          demo_env init_state]
    by simp
qed

subsection \<open>\<open>select_pages\<close>\<close>

text \<open>
  C9. For an existing document, \<open>select_pages\<close> answers with the length of the
  selection and leaves a state that does not depend on the selection: the row of the
  document gets status \<open>selected\<close> and a fresh \<open>updated_at\<close>, every other field, every
  other row, the pages, the annotations, the sequences and the files are as before. Two
  calls that differ only in the selected indices leave the same state.
\<close>

theorem select_pages_frame:
  assumes "find_beo st sid = Some beo"
  shows "select_pages e \<lparr>ps_session_id = sid, selected_pages = xs\<rparr> st =
           (Inr (length xs),
            st\<lparr>db := (db st)\<lparr>beos :=
              map (\<lambda>b. if b_id b = b_id beo
                        then b\<lparr>status := ''selected'', updated_at := utcnow e\<rparr> else b)
                (beos (db st))\<rparr>\<rparr>)
         \<and> snd (select_pages e \<lparr>ps_session_id = sid, selected_pages = xs\<rparr> st) =
           snd (select_pages e \<lparr>ps_session_id = sid, selected_pages = ys\<rparr> st)"
  using assms by (simp add: select_pages_def upd_beo_def)

theorem select_pages_frame_witness:
  "fst (select_pages demo_env \<lparr>ps_session_id = ''u0'', selected_pages = [0, 2]\<rparr> demo_state)
     = Inr 2
   \<and> snd (select_pages demo_env \<lparr>ps_session_id = ''u0'', selected_pages = [0, 2]\<rparr> demo_state) =
     snd (select_pages demo_env \<lparr>ps_session_id = ''u0'', selected_pages = [1]\<rparr> demo_state)
   \<and> map status (beos (db (snd (select_pages demo_env
         \<lparr>ps_session_id = ''u0'', selected_pages = [0, 2]\<rparr> demo_state)))) = [''selected'']"
proof -
  have f: "find_beo demo_state ''u0'' = Some (hd (beos (db demo_state)))"
    by code_simp
  have s: "map status (map (\<lambda>b. if b_id b = b_id (hd (beos (db demo_state)))
                        then b\<lparr>status := ''selected'', updated_at := utcnow demo_env\<rparr> else b)
                (beos (db demo_state))) = [''selected'']"
    by code_simp
  note t = select_pages_frame[OF f, of demo_env "[0, 2]" "[1]"]
  have a: "fst (select_pages demo_env \<lparr>ps_session_id = ''u0'', selected_pages = [0, 2]\<rparr>
             demo_state) = Inr 2"
    using conjunct1[OF t] by simp
  have c: "map status (beos (db (snd (select_pages demo_env
         \<lparr>ps_session_id = ''u0'', selected_pages = [0, 2]\<rparr> demo_state)))) = [''selected'']"
    using s by (simp add: conjunct1[OF t])
  from a conjunct2[OF t] c show ?thesis by blast
qed

subsection \<open>The date of a file name\<close>

text \<open>
  C4, as amended. (1) A file name that begins with two digits (the month \<open>m\<close>), two
  digits (the day \<open>d\<close>), white space, a word and \<open>.pdf\<close> in any letter case gives the date
  \<open>resolve_date now m d\<close> with the weekday name, the ISO week number and the year of that
  date: the day \<open>m/d\<close> of the current year, or of the next year when it lies more than
  180 days before the date of \<open>now\<close>; nothing when \<open>m/d\<close> is not a day of the current
  year, and nothing when the year rolls and \<open>m/d\<close> is not a day of the next year
  (29 February). (2) A name that does not begin so gives nothing. (3) Whatever the
  parse gives, an upload whose name ends in \<open>.pdf\<close>, whose bytes rasterize, whose files
  can be written and whose identifier is new succeeds, and the new row carries exactly
  the four values of the parse (all unset when it gives nothing).
\<close>

theorem parse_filename_date_resolves:
  assumes "valid_time now"
  shows
    "(name_shape u a b c d sp w x y z \<longrightarrow>
        parse_filename_date u now ([a, b, c, d] @ sp @ w @ [46, x, y, z] @ rest) =
          map_option date_info_of
            (resolve_date now (10 * digit_val u a + digit_val u b)
                              (10 * digit_val u c + digit_val u d)))
     \<and> ((\<forall>a b c d sp w x y z rest.
            fname = [a, b, c, d] @ sp @ w @ [46, x, y, z] @ rest \<longrightarrow>
            \<not> name_shape u a b c d sp w x y z) \<longrightarrow>
          parse_filename_date u now fname = None)
     \<and> (endswith (up_filename req) (codes ''.pdf'') \<and>
        write_ok e ORIGINALS_DIR (uuids e 0 @ ''.pdf'') \<and>
        (\<forall>n. write_ok e THUMBNAILS_DIR n) \<and> page_count e (up_content req) = Some n \<and>
        uuids e 0 \<notin> set (map session_id (beos (db st))) \<longrightarrow>
          (\<exists>r st' b. upload_pdf e req st = (Inr r, st') \<and>
             beos (db st') = beos (db st) @ [b] \<and>
             event_date b =
               map_option di_event_date
                 (parse_filename_date (unicode e) (localnow e) (up_filename req)) \<and>
             day_of_week b =
               map_option di_day_of_week
                 (parse_filename_date (unicode e) (localnow e) (up_filename req)) \<and>
             week_number b =
               map_option di_week_number
                 (parse_filename_date (unicode e) (localnow e) (up_filename req)) \<and>
             year b =
               map_option di_year
                 (parse_filename_date (unicode e) (localnow e) (up_filename req))))"
proof (intro conjI impI)
  assume h: "name_shape u a b c d sp w x y z"
  from match_filename_complete[OF h, of rest] obtain g3 where
    m: "match_filename u ([a, b, c, d] @ sp @ w @ [46, x, y, z] @ rest) =
          Some ([a, b], [c, d], g3)"
    by blast
  show "parse_filename_date u now ([a, b, c, d] @ sp @ w @ [46, x, y, z] @ rest) =
          map_option date_info_of
            (resolve_date now (10 * digit_val u a + digit_val u b)
                              (10 * digit_val u c + digit_val u d))"
    using parse_resolve[OF assms m] by (simp only: int_of_two_digits)
next
  assume "\<forall>a b c d sp w x y z rest.
            fname = [a, b, c, d] @ sp @ w @ [46, x, y, z] @ rest \<longrightarrow>
            \<not> name_shape u a b c d sp w x y z"
  then have "match_filename u fname = None" by (rule match_filename_None)
  then show "parse_filename_date u now fname = None"
    by (simp add: parse_filename_date_def)
next
  assume h: "endswith (up_filename req) (codes ''.pdf'') \<and>
        write_ok e ORIGINALS_DIR (uuids e 0 @ ''.pdf'') \<and>
        (\<forall>n. write_ok e THUMBNAILS_DIR n) \<and> page_count e (up_content req) = Some n \<and>
        uuids e 0 \<notin> set (map session_id (beos (db st)))"
  let ?pd = "parse_filename_date (unicode e) (localnow e) (up_filename req)"
  from upload_pdf_succeeds[of req e n st] h obtain r st' b where
    u: "upload_pdf e req st = (Inr r, st')" "beos (db st') = beos (db st) @ [b]"
       "b = set_date_info ?pd
                 (new_beo e (seq_beo st) (uuids e 0) (up_filename req) (int n) ''new''
                    (up_file_type req))"
    by blast
  from u(3) have "event_date b = map_option di_event_date ?pd"
    "day_of_week b = map_option di_day_of_week ?pd"
    "week_number b = map_option di_week_number ?pd"
    "year b = map_option di_year ?pd"
    by (simp_all add: set_date_info_def)
  with u(1,2) show "\<exists>r st' b. upload_pdf e req st = (Inr r, st') \<and>
             beos (db st') = beos (db st) @ [b] \<and>
             event_date b = map_option di_event_date ?pd \<and>
             day_of_week b = map_option di_day_of_week ?pd \<and>
             week_number b = map_option di_week_number ?pd \<and>
             year b = map_option di_year ?pd"
    by blast
qed

text \<open>
  C4 as written fails in four ways. On 1 December 2024 the name \<open>0229 Thursday.pdf\<close>
  matches, 29 February 2024 exists and lies 276 days back, the year rolls to 2025,
  where the day does not exist, and the event date stays unset. The word of the
  pattern need not be the name of a weekday: \<open>1028 Party.pdf\<close> gets 28 October. The
  letters of \<open>.pdf\<close> may be capitals and the name may go on after them:
  \<open>1028 Tuesday.PDF.pdf\<close> gets 28 October. And an upload whose name does not end in
  \<open>.pdf\<close> in small letters is refused, whether or not the pattern matches it:
  \<open>1028 Tuesday.PDF\<close> leaves no row.
\<close>

theorem parse_filename_date_feb29_counterexample:
  "match_filename demo_ucd (codes ''0229 Thursday.pdf'') =
     Some (codes ''02'', codes ''29'', codes ''Thursday'')
   \<and> mk_datetime (dt_year leap_now) 2 29 = Inr (midnight 2024 2 29)
   \<and> sub_days leap_now (midnight 2024 2 29) = 276
   \<and> parse_filename_date demo_ucd leap_now (codes ''0229 Thursday.pdf'') = None
   \<and> map_option di_event_date (parse_filename_date demo_ucd demo_now (codes ''1028 Party.pdf'')) =
       Some demo_date
   \<and> map_option di_event_date
       (parse_filename_date demo_ucd demo_now (codes ''1028 Tuesday.PDF.pdf'')) = Some demo_date
   \<and> map_option di_event_date
       (parse_filename_date demo_ucd demo_now (codes ''1028 Tuesday.PDF'')) = Some demo_date
   \<and> upload_pdf demo_env
        \<lparr>up_filename = codes ''1028 Tuesday.PDF'', up_content = ''abc'', up_file_type = ''daily''\<rparr>
        init_state =
      (Inl (HTTPException 500 ''PDF processing failed: ''
             (Some (HTTPException 400 ''File must be a PDF'' None))), init_state)"
  by code_simp

text \<open>
  C4 on names that match (one of them with full-width digits, a no-break space and an
  accented letter) and on an upload whose name does not.
\<close>

theorem parse_filename_date_resolves_witness:
  "valid_time demo_now
   \<and> parse_filename_date demo_ucd demo_now (codes ''1028 Tuesday.pdf'') =
       Some \<lparr>di_event_date = demo_date, di_day_of_week = ''Tuesday'',
             di_week_number = 44, di_year = 2025\<rparr>
   \<and> parse_filename_date demo_ucd demo_now (codes ''0115 Thursday.pdf'') =
       Some \<lparr>di_event_date = midnight 2026 1 15, di_day_of_week = ''Thursday'',
             di_week_number = 3, di_year = 2026\<rparr>
   \<and> parse_filename_date demo_ucd demo_now
        ([65297, 65296, 65298, 65304, 160] @ codes ''Caf'' @ [233] @ codes ''.pdf'') =
       Some \<lparr>di_event_date = demo_date, di_day_of_week = ''Tuesday'',
             di_week_number = 44, di_year = 2025\<rparr>
   \<and> parse_filename_date demo_ucd demo_now (codes ''notes.pdf'') = None
   \<and> (\<exists>r st' b. upload_pdf demo_env notes_upload init_state = (Inr r, st') \<and>
         beos (db st') = [b] \<and> event_date b = None \<and> day_of_week b = None \<and>
         week_number b = None \<and> year b = None)"
proof -
  have vt: "valid_time demo_now" by (simp add: valid_time_def demo_now_def)
  note t = parse_filename_date_resolves[OF vt, where fname = "codes ''notes.pdf''"
      and req = notes_upload and e = demo_env and n = 3 and st = init_state
      and u = demo_ucd and x = 112 and y = 100 and z = 102 and rest = "[]"]
  have r1: "resolve_date demo_now 10 28 = Some demo_date" by code_simp
  have r2: "resolve_date demo_now 1 15 = Some (midnight 2026 1 15)" by code_simp
  have r3: "date_info_of demo_date = \<lparr>di_event_date = demo_date, di_day_of_week = ''Tuesday'',
      di_week_number = 44, di_year = 2025\<rparr>" by code_simp
  have r4: "date_info_of (midnight 2026 1 15) =
      \<lparr>di_event_date = midnight 2026 1 15, di_day_of_week = ''Thursday'',
       di_week_number = 3, di_year = 2026\<rparr>" by code_simp
  have s1: "name_shape demo_ucd 49 48 50 56 [32] (codes ''Tuesday'') 112 100 102" by code_simp
  have s2: "name_shape demo_ucd 48 49 49 53 [32] (codes ''Thursday'') 112 100 102" by code_simp
  have s3: "name_shape demo_ucd 65297 65296 65298 65304 [160] (codes ''Caf'' @ [233]) 112 100 102"
    by code_simp
  have v1: "10 * digit_val demo_ucd 49 + digit_val demo_ucd 48 = 10"
    "10 * digit_val demo_ucd 50 + digit_val demo_ucd 56 = 28"
    "10 * digit_val demo_ucd 48 + digit_val demo_ucd 49 = 1"
    "10 * digit_val demo_ucd 49 + digit_val demo_ucd 53 = 15"
    "10 * digit_val demo_ucd 65297 + digit_val demo_ucd 65296 = 10"
    "10 * digit_val demo_ucd 65298 + digit_val demo_ucd 65304 = 28"
    by code_simp+
  have p1: "parse_filename_date demo_ucd demo_now (codes ''1028 Tuesday.pdf'') =
       Some \<lparr>di_event_date = demo_date, di_day_of_week = ''Tuesday'',
             di_week_number = 44, di_year = 2025\<rparr>"
    using conjunct1[OF t[where a = 49 and b = 48 and c = 50 and d = 56 and sp = "[32]"
          and w = "codes ''Tuesday''"]] s1
    by (simp add: v1 r1 r3 codes_def)
  have p2: "parse_filename_date demo_ucd demo_now (codes ''0115 Thursday.pdf'') =
       Some \<lparr>di_event_date = midnight 2026 1 15, di_day_of_week = ''Thursday'',
             di_week_number = 3, di_year = 2026\<rparr>"
    using conjunct1[OF t[where a = 48 and b = 49 and c = 49 and d = 53 and sp = "[32]"
          and w = "codes ''Thursday''"]] s2
    by (simp add: v1 r2 r4 codes_def)
  have p3: "parse_filename_date demo_ucd demo_now
        ([65297, 65296, 65298, 65304, 160] @ codes ''Caf'' @ [233] @ codes ''.pdf'') =
       Some \<lparr>di_event_date = demo_date, di_day_of_week = ''Tuesday'',
             di_week_number = 44, di_year = 2025\<rparr>"
    using conjunct1[OF t[where a = 65297 and b = 65296 and c = 65298 and d = 65304
          and sp = "[160]" and w = "codes ''Caf'' @ [233]"]] s3
    by (simp add: v1 r1 r3 codes_def)
  have nd: "\<not> is_digit demo_ucd 110" by code_simp
  have no: "\<forall>a b c d sp w x y z rest.
            codes ''notes.pdf'' = [a, b, c, d] @ sp @ w @ [46, x, y, z] @ rest \<longrightarrow>
            \<not> name_shape demo_ucd a b c d sp w x y z"
    using nd by (auto simp: codes_def name_shape_def)
  have p4: "parse_filename_date demo_ucd demo_now (codes ''notes.pdf'') = None"
    using conjunct1[OF conjunct2[OF t[where a = 0 and b = 0 and c = 0 and d = 0 and sp = "[]"
          and w = "[]"]]] no by blast
  have h: "endswith (up_filename notes_upload) (codes ''.pdf'') \<and>
        write_ok demo_env ORIGINALS_DIR (uuids demo_env 0 @ ''.pdf'') \<and>
        (\<forall>n. write_ok demo_env THUMBNAILS_DIR n) \<and>
        page_count demo_env (up_content notes_upload) = Some 3 \<and>
        uuids demo_env 0 \<notin> set (map session_id (beos (db init_state)))"
    by (simp add: notes_upload_def endswith_def demo_env_def init_state_def codes_def)
  have ln: "localnow demo_env = demo_now" "unicode demo_env = demo_ucd"
    "up_filename notes_upload = codes ''notes.pdf''"
    by (simp_all add: demo_env_def notes_upload_def)
  have b0: "beos (db init_state) = []" by (simp add: init_state_def)
  have p5: "\<exists>r st' b. upload_pdf demo_env notes_upload init_state = (Inr r, st') \<and>
         beos (db st') = [b] \<and> event_date b = None \<and> day_of_week b = None \<and>
         week_number b = None \<and> year b = None"
    using conjunct2[OF conjunct2[OF t[where a = 0 and b = 0 and c = 0 and d = 0 and sp = "[]"
          and w = "[]"]]] h by (simp add: ln p4 b0)
  from vt p1 p2 p3 p4 p5 show ?thesis by blast
qed

subsection \<open>\<open>upload_pdf\<close> is all or nothing\<close>

lemma enumerate_py_fst: "map (int \<circ> fst) (enumerate_py xs) = map int [0..<length xs]"
  by (simp add: enumerate_py_def map_fst_zip[symmetric] del: map_fst_zip)
   (metis length_upt map_fst_zip minus_nat.diff_0 list.map_comp)

lemma upload_pdf_try_Inr:
  assumes "upload_pdf_try e req st = (Inr r, st')"
  shows "\<exists>b new. page_count e (up_content req) = Some (length new) \<and>
           db st' = \<lparr>beos = beos (db st) @ [b], beo_pages = beo_pages (db st) @ new,
                     annotations = annotations (db st)\<rparr> \<and>
           session_id b = sr_session_id r \<and> sr_session_id r = uuids e 0 \<and>
           session_id b \<notin> set (map session_id (beos (db st))) \<and>
           b_id b = seq_beo st \<and> total_pages b = int (length new) \<and>
           sr_total_pages r = int (length new) \<and>
           map page_index new = map int [0..<length new] \<and>
           (\<forall>p\<in>set new. beo_id p = b_id b)"
proof -
  let ?sid = "uuids e 0"
  from assms have ew: "endswith (up_filename req) (codes ''.pdf'')"
    by (auto simp: upload_pdf_try_def split: if_splits)
  obtain r1 st1 where s1: "save_file e (up_content req) ORIGINALS_DIR (?sid @ ''.pdf'') st = (r1, st1)"
    by (cases "save_file e (up_content req) ORIGINALS_DIR (?sid @ ''.pdf'') st")
  note f1 = save_file_frame[OF s1]
  from assms ew s1 obtain y1 where r1: "r1 = Inr y1"
    by (cases r1) (auto simp: upload_pdf_try_def Let_def)
  from assms ew s1 r1 obtain images where cv: "convert_from_bytes e (up_content req) 75 = Inr images"
    by (cases "convert_from_bytes e (up_content req) 75") (auto simp: upload_pdf_try_def Let_def)
  then obtain n where pc: "page_count e (up_content req) = Some n" and im: "length images = n"
    by (auto simp: convert_from_bytes_def split: option.splits)
  let ?mk = "\<lambda>i. set_date_info (parse_filename_date (unicode e) (localnow e) (up_filename req))
                    (new_beo e i ?sid (up_filename req) (int (length images)) ''new''
                       (up_file_type req))"
  obtain r2 st2 where s2: "add_beo ?mk st1 = (r2, st2)" by (cases "add_beo ?mk st1")
  from assms ew s1 r1 cv s2 obtain b where r2: "r2 = Inr b"
    by (cases r2) (auto simp: upload_pdf_try_def Let_def)
  note f2 = add_beo_Inr[OF s2[unfolded r2]]
  obtain r3 st3 where s3: "thumbnail_loop e ?sid (b_id b) (enumerate_py images) [] st2 = (r3, st3)"
    by (cases "thumbnail_loop e ?sid (b_id b) (enumerate_py images) [] st2")
  from assms ew s1 r1 cv s2 r2 s3 obtain th where r3: "r3 = Inr th"
    by (cases r3) (auto simp: upload_pdf_try_def Let_def)
  from assms ew s1 r1 cv s2 r2 s3 r3 have res: "st' = st3"
    "r = \<lparr>sr_session_id = ?sid, sr_filename = up_filename req,
          sr_total_pages = int (length images), sr_pages = th\<rparr>"
    by (auto simp: upload_pdf_try_def Let_def)
  from thumbnail_loop_added[OF s3] r3 obtain new where
    pa: "pages_added (b_id b) st2 st3 new" and pi: "map page_index new = map (int \<circ> fst) (enumerate_py images)"
    by blast
  from pi have len: "length new = length images"
    by (metis length_map enumerate_py_fst length_upt minus_nat.diff_0)
  have bb: "b = ?mk (seq_beo st1)" using f2 by simp
  have "db st' = \<lparr>beos = beos (db st) @ [b], beo_pages = beo_pages (db st) @ new,
                     annotations = annotations (db st)\<rparr>"
    using pa f2 f1 res(1) by (simp add: pages_added_def)
  moreover have "session_id b = ?sid" "b_id b = seq_beo st" "total_pages b = int (length new)"
    using bb f1 len by (simp_all add: set_date_info_def new_beo_def)
  moreover have "session_id b \<notin> set (map session_id (beos (db st)))"
  proof -
    from f2 have "session_id b \<notin> set (map session_id (beos (db st1)))" by (elim conjE)
    with f1 show ?thesis by simp
  qed
  moreover have "map page_index new = map int [0..<length new]"
    using pi len by (simp add: enumerate_py_fst)
  moreover have "\<forall>p\<in>set new. beo_id p = b_id b" using pa by (simp add: pages_added_def)
  ultimately show ?thesis using pc im len res(2) by auto
qed

lemma upload_pdf_Inl: "upload_pdf e req st = (Inl x, st') \<Longrightarrow> db st' = db st"
  by (auto simp: upload_pdf_def rollback_def split: prod.splits sum.splits)

lemma upload_pdf_Inr: "upload_pdf e req st = (Inr r, st') \<Longrightarrow> upload_pdf_try e req st = (Inr r, st')"
  by (auto simp: upload_pdf_def split: prod.splits sum.splits)

text \<open>
  C3. Whatever \<open>upload_pdf\<close> answers, the registry it leaves is one of two: when it
  fails (a refused name, a failed write of the original or of any thumbnail, a PDF
  that does not rasterize, an identifier already taken), the tables are those of the
  start, with no document row and no page row added; when it succeeds, exactly one
  document row and one page row per rasterized page were appended, the pages numbered
  from 0 and all belonging to the new document, and annotations are untouched.
\<close>

theorem upload_pdf_all_or_nothing:
  "case upload_pdf e req st of
     (Inl x, st') \<Rightarrow> db st' = db st
   | (Inr r, st') \<Rightarrow>
       (\<exists>b new. page_count e (up_content req) = Some (length new) \<and>
          db st' = \<lparr>beos = beos (db st) @ [b], beo_pages = beo_pages (db st) @ new,
                    annotations = annotations (db st)\<rparr> \<and>
          session_id b = sr_session_id r \<and> b_id b = seq_beo st \<and>
          total_pages b = int (length new) \<and>
          map page_index new = map int [0..<length new] \<and>
          (\<forall>p\<in>set new. beo_id p = b_id b))"
proof (cases "upload_pdf e req st")
  case (Pair res st')
  show ?thesis
  proof (cases res)
    case (Inl x)
    with Pair upload_pdf_Inl show ?thesis by auto
  next
    case (Inr r)
    with Pair have "upload_pdf_try e req st = (Inr r, st')" by (simp add: upload_pdf_Inr)
    from upload_pdf_try_Inr[OF this] Pair Inr show ?thesis by auto
  qed
qed

theorem upload_pdf_all_or_nothing_witness:
  "fst (upload_pdf failing_env demo_upload init_state) =
     Inl (HTTPException 500 ''PDF processing failed: '' (Some OSError))
   \<and> db (snd (upload_pdf failing_env demo_upload init_state)) = db init_state
   \<and> map fst (thumbnails (snd (upload_pdf failing_env demo_upload init_state))) =
       [''u0_thumb_0.jpg'']"
proof -
  have a: "fst (upload_pdf failing_env demo_upload init_state) =
     Inl (HTTPException 500 ''PDF processing failed: '' (Some OSError))"
    by code_simp
  have c: "map fst (thumbnails (snd (upload_pdf failing_env demo_upload init_state))) =
       [''u0_thumb_0.jpg'']"
    by code_simp
  obtain x st' where p: "upload_pdf failing_env demo_upload init_state = (Inl x, st')"
    using a by (cases "upload_pdf failing_env demo_upload init_state") auto
  from upload_pdf_all_or_nothing[where e = failing_env and req = demo_upload
      and st = init_state] p
  have "db st' = db init_state" by simp
  with p a c show ?thesis by simp
qed

subsection \<open>\<open>process_selected_pages\<close>\<close>

lemma only_high_res_refl: "only_high_res xs xs"
  unfolding only_high_res_def
  by (rule list_all2_refl) (metis BEOPage.update_convs(6) BEOPage.surjective BEOPage.select_convs(6))

lemma only_high_res_trans:
  assumes "only_high_res xs ys" "only_high_res ys zs"
  shows "only_high_res xs zs"
  using assms unfolding only_high_res_def
  by (rule list_all2_trans[rotated 1]) auto

lemma only_high_res_map:
  "only_high_res xs (map (\<lambda>p. if c p then p\<lparr>high_res_path := h\<rparr> else p) xs)"
  unfolding only_high_res_def list_all2_map2
  by (rule list_all2_refl) (metis BEOPage.update_convs(6) BEOPage.surjective BEOPage.select_convs(6))

lemma only_high_res_fields:
  "only_high_res xs ys \<Longrightarrow>
     map page_index ys = map page_index xs \<and> map beo_id ys = map beo_id xs \<and>
     map p_id ys = map p_id xs"
  unfolding only_high_res_def
  by (induction xs ys rule: list_all2_induct) auto

lemma pages_marked_refl: "pages_marked st st"
  by (simp add: pages_marked_def only_high_res_refl)

lemma pages_marked_trans:
  "pages_marked st st1 \<Longrightarrow> pages_marked st1 st2 \<Longrightarrow> pages_marked st st2"
  by (auto simp: pages_marked_def intro: only_high_res_trans)

lemma save_high_res_marked:
  "save_file e data HIGH_RES_DIR name st = (r, st') \<Longrightarrow> pages_marked st st'"
  by (auto simp: save_file_def put_file_def pages_marked_def only_high_res_refl split: if_splits)

lemma upd_page_marked:
  "pages_marked st (upd_page i (\<lambda>p. p\<lparr>high_res_path := h\<rparr>) st)"
  by (simp add: pages_marked_def upd_page_def only_high_res_map)

lemma mark_page_marked: "pages_marked st (mark_page bid i name st)"
  by (simp add: mark_page_def pages_marked_refl upd_page_marked split: option.splits)

lemma selected_loop_step:
  "selected_loop e sid bid images (page_idx # rest) hrp st =
     (if page_idx < int (length images) then
        (case py_index images page_idx of
           Inl x \<Rightarrow> (Inl x, st)
         | Inr img \<Rightarrow>
            (case save_file e (jpeg e img 95) HIGH_RES_DIR
                    (sid @ ''_highres_'' @ str_int page_idx @ ''.jpg'') st of
               (Inl x, st1) \<Rightarrow> (Inl x, st1)
             | (Inr _, st1) \<Rightarrow>
                 selected_loop e sid bid images rest
                   (AList.update page_idx (b64encode e (jpeg e img 95)) hrp)
                   (mark_page bid page_idx (sid @ ''_highres_'' @ str_int page_idx @ ''.jpg'') st1)))
      else selected_loop e sid bid images rest hrp st)"
  by (simp add: mark_page_def Let_def split: sum.splits prod.splits)

lemma selected_loop_marked:
  "selected_loop e sid bid images sel hrp st = (r, st') \<Longrightarrow> pages_marked st st'"
proof (induction sel arbitrary: hrp st)
  case Nil
  then show ?case by (simp add: pages_marked_refl)
next
  case (Cons i sel)
  let ?name = "sid @ ''_highres_'' @ str_int i @ ''.jpg''"
  show ?case
  proof (cases "i < int (length images)")
    case False
    with Cons.prems have "selected_loop e sid bid images sel hrp st = (r, st')"
      by (simp only: selected_loop_step if_False)
    then show ?thesis by (rule Cons.IH)
  next
    case True
    show ?thesis
    proof (cases "py_index images i")
      case (Inl x)
      with Cons.prems True have "st' = st" by (simp only: selected_loop_step) simp
      then show ?thesis by (simp add: pages_marked_refl)
    next
      case (Inr img)
      obtain r1 st1 where s1: "save_file e (jpeg e img 95) HIGH_RES_DIR ?name st = (r1, st1)"
        by (cases "save_file e (jpeg e img 95) HIGH_RES_DIR ?name st")
      note m1 = save_high_res_marked[OF s1]
      show ?thesis
      proof (cases r1)
        case (Inl x)
        with Cons.prems True Inr s1 have "st' = st1" by (simp only: selected_loop_step) simp
        with m1 show ?thesis by simp
      next
        case Inr1: (Inr y)
        with Cons.prems True Inr s1 have
          "selected_loop e sid bid images sel (AList.update i (b64encode e (jpeg e img 95)) hrp)
             (mark_page bid i ?name st1) = (r, st')"
          by (simp only: selected_loop_step) simp
        from Cons.IH[OF this] have "pages_marked (mark_page bid i ?name st1) st'" .
        with m1 mark_page_marked show ?thesis by (blast intro: pages_marked_trans)
      qed
    qed
  qed
qed

lemma find_SomeD: "find P xs = Some x \<Longrightarrow> P x \<and> x \<in> set xs"
  by (induction xs) (auto split: if_splits)

lemma filter_map_unchanged:
  "\<forall>x\<in>set xs. g x = x \<or> (\<not> Q x \<and> \<not> Q (g x)) \<Longrightarrow> filter Q (map g xs) = filter Q xs"
  by (induction xs) auto

lemma mark_page_keeps:
  assumes d: "distinct (map p_id (beo_pages (db st)))" and lt: "i < n"
  shows "filter (\<lambda>p. n \<le> page_index p) (beo_pages (db (mark_page bid i name st))) =
         filter (\<lambda>p. n \<le> page_index p) (beo_pages (db st))"
proof (cases "find (\<lambda>p. beo_id p = bid \<and> page_index p = i) (beo_pages (db st))")
  case None
  then show ?thesis by (simp add: mark_page_def)
next
  case (Some page)
  from find_SomeD[OF Some] have pg: "page_index page = i" "page \<in> set (beo_pages (db st))"
    by auto
  have eq: "\<And>p. p \<in> set (beo_pages (db st)) \<Longrightarrow> p_id p = p_id page \<Longrightarrow> p = page"
    using d pg(2) by (meson distinct_map inj_on_def)
  have "filter (\<lambda>p. n \<le> page_index p)
          (map (\<lambda>p. if p_id p = p_id page then p\<lparr>high_res_path := Some name\<rparr> else p)
             (beo_pages (db st))) =
        filter (\<lambda>p. n \<le> page_index p) (beo_pages (db st))"
  proof (rule filter_map_unchanged, intro ballI)
    fix x assume x: "x \<in> set (beo_pages (db st))"
    show "(if p_id x = p_id page then x\<lparr>high_res_path := Some name\<rparr> else x) = x \<or>
          \<not> n \<le> page_index x \<and>
          \<not> n \<le> page_index (if p_id x = p_id page then x\<lparr>high_res_path := Some name\<rparr> else x)"
    proof (cases "p_id x = p_id page")
      case True
      with eq[OF x] have "x = page" by simp
      with pg(1) lt True show ?thesis by simp
    next
      case False
      then show ?thesis by simp
    qed
  qed
  then show ?thesis using Some by (simp add: mark_page_def upd_page_def)
qed

lemma pages_marked_distinct:
  "pages_marked st st' \<Longrightarrow> distinct (map p_id (beo_pages (db st))) \<Longrightarrow>
     distinct (map p_id (beo_pages (db st')))"
  by (auto simp: pages_marked_def dest: only_high_res_fields)

lemma save_file_db: "save_file e data d name st = (r, st') \<Longrightarrow> db st' = db st"
  by (auto dest: save_file_frame)

lemma selected_loop_keeps:
  "selected_loop e sid bid images sel hrp st = (r, st') \<Longrightarrow>
   distinct (map p_id (beo_pages (db st))) \<Longrightarrow>
     filter (\<lambda>p. int (length images) \<le> page_index p) (beo_pages (db st')) =
     filter (\<lambda>p. int (length images) \<le> page_index p) (beo_pages (db st))"
proof (induction sel arbitrary: hrp st)
  case Nil
  then show ?case by simp
next
  case (Cons i sel)
  let ?name = "sid @ ''_highres_'' @ str_int i @ ''.jpg''"
  show ?case
  proof (cases "i < int (length images)")
    case False
    with Cons.prems(1) have "selected_loop e sid bid images sel hrp st = (r, st')"
      by (simp only: selected_loop_step if_False)
    then show ?thesis using Cons.prems(2) by (rule Cons.IH)
  next
    case True
    show ?thesis
    proof (cases "py_index images i")
      case (Inl x)
      with Cons.prems(1) True have "st' = st" by (simp only: selected_loop_step) simp
      then show ?thesis by simp
    next
      case (Inr img)
      obtain r1 st1 where s1: "save_file e (jpeg e img 95) HIGH_RES_DIR ?name st = (r1, st1)"
        by (cases "save_file e (jpeg e img 95) HIGH_RES_DIR ?name st")
      note d1 = save_file_db[OF s1]
      show ?thesis
      proof (cases r1)
        case (Inl x)
        with Cons.prems(1) True Inr s1 have "st' = st1" by (simp only: selected_loop_step) simp
        with d1 show ?thesis by simp
      next
        case Inr1: (Inr y)
        with Cons.prems(1) True Inr s1 have rec:
          "selected_loop e sid bid images sel (AList.update i (b64encode e (jpeg e img 95)) hrp)
             (mark_page bid i ?name st1) = (r, st')"
          by (simp only: selected_loop_step) simp
        have dst1: "distinct (map p_id (beo_pages (db st1)))" using Cons.prems(2) d1 by simp
        have "distinct (map p_id (beo_pages (db (mark_page bid i ?name st1))))"
          using pages_marked_distinct[OF mark_page_marked dst1] .
        from Cons.IH[OF rec this] mark_page_keeps[OF dst1 True] d1 show ?thesis by simp
      qed
    qed
  qed
qed

lemma py_index_ok:
  "- int (length xs) \<le> i \<Longrightarrow> i < int (length xs) \<Longrightarrow> \<exists>x. py_index xs i = Inr x"
  by (auto simp: py_index_def)

lemma selected_loop_ok:
  "\<forall>name. write_ok e HIGH_RES_DIR name \<Longrightarrow> \<forall>i\<in>set sel. - int (length images) \<le> i \<Longrightarrow>
     \<exists>r st'. selected_loop e sid bid images sel hrp st = (Inr r, st') \<and>
       fst ` set r = fst ` set hrp \<union> {i \<in> set sel. i < int (length images)}"
proof (induction sel arbitrary: hrp st)
  case Nil
  then show ?case by simp
next
  case (Cons i sel)
  let ?name = "sid @ ''_highres_'' @ str_int i @ ''.jpg''"
  from Cons.prems have rest: "\<forall>i\<in>set sel. - int (length images) \<le> i" and lo: "- int (length images) \<le> i"
    by auto
  show ?case
  proof (cases "i < int (length images)")
    case False
    from Cons.IH[OF Cons.prems(1) rest, of hrp st] obtain r st' where
      "selected_loop e sid bid images sel hrp st = (Inr r, st')"
      "fst ` set r = fst ` set hrp \<union> {i \<in> set sel. i < int (length images)}" by blast
    with False show ?thesis by (simp only: selected_loop_step if_False) auto
  next
    case True
    from py_index_ok[OF lo True] obtain img where pi: "py_index images i = Inr img" by blast
    let ?st1 = "put_file HIGH_RES_DIR ?name (jpeg e img 95) st"
    have s1: "save_file e (jpeg e img 95) HIGH_RES_DIR ?name st = (Inr ?name, ?st1)"
      using Cons.prems(1) by (simp add: save_file_def)
    from Cons.IH[OF Cons.prems(1) rest, of "AList.update i (b64encode e (jpeg e img 95)) hrp"
        "mark_page bid i ?name ?st1"]
    obtain r st' where rec:
      "selected_loop e sid bid images sel (AList.update i (b64encode e (jpeg e img 95)) hrp)
         (mark_page bid i ?name ?st1) = (Inr r, st')"
      "fst ` set r = fst ` set (AList.update i (b64encode e (jpeg e img 95)) hrp) \<union>
          {i \<in> set sel. i < int (length images)}" by blast
    have "selected_loop e sid bid images (i # sel) hrp st = (Inr r, st')"
      using True pi s1 rec(1) by (simp only: selected_loop_step) simp
    moreover have "fst ` set r = fst ` set hrp \<union> {j \<in> set (i # sel). j < int (length images)}"
      using rec(2) True by (auto simp: dom_update)
    ultimately show ?thesis by blast
  qed
qed

lemma upd_beo_pages [simp]: "beo_pages (db (upd_beo i f st)) = beo_pages (db st)"
  by (simp add: upd_beo_def)

text \<open>
  C10. When the document exists, its original PDF is in the store and rasterizes to
  \<open>n\<close> pages, the high-resolution files can be written and no selected index is below
  \<open>-n\<close>, \<open>process_selected_pages\<close> succeeds whatever else the selection holds: indices
  \<open>\<ge> n\<close> raise nothing, \<open>processed_pages\<close> is the length of the whole selection, the keys
  of \<open>high_res_pages\<close> are exactly the selected indices below \<open>n\<close>, and every page row
  whose \<open>page_index\<close> is \<open>\<ge> n\<close> is as before.
\<close>

theorem process_selected_pages_skips:
  assumes "find_beo st (ps_session_id sel) = Some beo"
    and "map_of (originals st) (ps_session_id sel @ ''.pdf'') = Some pdf"
    and "page_count e pdf = Some n"
    and "\<forall>name. write_ok e HIGH_RES_DIR name"
    and "\<forall>i\<in>set (selected_pages sel). - int n \<le> i"
    and "distinct (map p_id (beo_pages (db st)))"
  shows "\<exists>r st'. process_selected_pages e sel st = (Inr r, st') \<and>
           processed_pages r = length (selected_pages sel) \<and>
           fst ` set (high_res_pages r) = {i \<in> set (selected_pages sel). i < int n} \<and>
           filter (\<lambda>p. int n \<le> page_index p) (beo_pages (db st')) =
             filter (\<lambda>p. int n \<le> page_index p) (beo_pages (db st))"
proof -
  let ?images = "map (render e pdf 300) [0..<n]"
  have len: "length ?images = n" by simp
  from assms(5) have lo: "\<forall>i\<in>set (selected_pages sel). - int (length ?images) \<le> i" by simp
  from selected_loop_ok[OF assms(4) lo, of "ps_session_id sel" "b_id beo" "[]" st]
  obtain hrp st1 where
    lp: "selected_loop e (ps_session_id sel) (b_id beo) ?images (selected_pages sel) [] st = (Inr hrp, st1)"
    and keys: "fst ` set hrp = {i \<in> set (selected_pages sel). i < int n}"
    by auto
  from selected_loop_keeps[OF lp assms(6)] have
    keep: "filter (\<lambda>p. int n \<le> page_index p) (beo_pages (db st1)) =
           filter (\<lambda>p. int n \<le> page_index p) (beo_pages (db st))" by simp
  have "process_selected_pages e sel st =
     (Inr \<lparr>processed_pages = length (selected_pages sel), high_res_pages = hrp\<rparr>,
      upd_beo (b_id beo) (\<lambda>b. b\<lparr>status := ''ready_for_annotation'', updated_at := utcnow e\<rparr>) st1)"
    using assms(1,2,3) lp
    by (simp add: process_selected_pages_def read_file_def get_dir_def convert_from_bytes_def)
  with keys keep show ?thesis by simp
qed

theorem process_selected_pages_skips_witness:
  "\<exists>r st'. process_selected_pages demo_env
               \<lparr>ps_session_id = ''v0'', selected_pages = [0, 1, 2]\<rparr> two_doc_state = (Inr r, st') \<and>
      processed_pages r = 3 \<and> fst ` set (high_res_pages r) = {0} \<and>
      map page_index (filter (\<lambda>p. 1 \<le> page_index p) (beo_pages (db st'))) = [1, 2]"
proof -
  let ?sel = "\<lparr>ps_session_id = ''v0'', selected_pages = [0, 1, 2]\<rparr>"
  have h1: "find_beo two_doc_state (ps_session_id ?sel) = Some (last (beos (db two_doc_state)))"
    by code_simp
  have h2: "map_of (originals two_doc_state) (ps_session_id ?sel @ ''.pdf'') = Some ''z''"
    by code_simp
  have h3: "page_count demo_env ''z'' = Some 1" by (simp add: demo_env_def)
  have h4: "\<forall>name. write_ok demo_env HIGH_RES_DIR name" by (simp add: demo_env_def)
  have h5: "\<forall>i\<in>set (selected_pages ?sel). - int 1 \<le> i" by simp
  have h6: "distinct (map p_id (beo_pages (db two_doc_state)))" by code_simp
  have k: "{i \<in> set (selected_pages ?sel). i < int 1} = {0}" by auto
  have f: "map page_index (filter (\<lambda>p. int 1 \<le> page_index p) (beo_pages (db two_doc_state))) = [1, 2]"
    by code_simp
  from process_selected_pages_skips[OF h1 h2 h3 h4 h5 h6]
  show ?thesis unfolding k using f by auto
qed

text \<open>
  C5, as amended. An unknown identifier gives \<open>HTTPException(404)\<close> and leaves the
  state as it was. When the row exists and the original PDF is not in the store,
  \<open>open\<close> raises \<open>FileNotFoundError\<close>, which no handler catches: the state is as it was
  and the caller sees the plain response 500, which differs from the 404 but is the
  response of every other unhandled failure.
\<close>

theorem process_selected_pages_failures:
  "(find_beo st (ps_session_id sel) = None \<longrightarrow>
      process_selected_pages e sel st = (Inl (HTTPException 404 ''Session not found'' None), st))
   \<and> (find_beo st (ps_session_id sel) \<noteq> None \<and>
      map_of (originals st) (ps_session_id sel @ ''.pdf'') = None \<longrightarrow>
        process_selected_pages e sel st = (Inl FileNotFoundError, st) \<and>
        http_response FileNotFoundError = (500, ''Internal Server Error'', None) \<and>
        fst (http_response (HTTPException 404 ''Session not found'' None)) = 404)"
  by (auto simp: process_selected_pages_def read_file_def get_dir_def http_response_def)

text \<open>
  The claim as written fails: a document made by \<open>create_beo_from_pages\<close> has a row
  and no original PDF of its own; promoting its pages answers exactly as a request that
  fails with an \<open>IndexError\<close> does.
\<close>

theorem process_selected_pages_missing_pdf_counterexample:
  "find_beo split_state ''v0'' \<noteq> None
   \<and> map_of (originals split_state) ''v0.pdf'' = None
   \<and> fst (process_selected_pages demo_env \<lparr>ps_session_id = ''v0'', selected_pages = [0]\<rparr>
           split_state) = Inl FileNotFoundError
   \<and> fst (process_selected_pages demo_env \<lparr>ps_session_id = ''u0'', selected_pages = [-7]\<rparr>
           split_state) = Inl IndexError
   \<and> http_response FileNotFoundError = http_response IndexError"
  by code_simp

theorem process_selected_pages_failures_witness:
  "process_selected_pages demo_env \<lparr>ps_session_id = ''zz'', selected_pages = [0]\<rparr> demo_state =
     (Inl (HTTPException 404 ''Session not found'' None), demo_state)
   \<and> process_selected_pages demo_env \<lparr>ps_session_id = ''v0'', selected_pages = [0]\<rparr> split_state =
     (Inl FileNotFoundError, split_state)"
proof -
  have a: "find_beo demo_state (ps_session_id \<lparr>ps_session_id = ''zz'', selected_pages = [0]\<rparr>) = None"
    by code_simp
  have b: "find_beo split_state (ps_session_id \<lparr>ps_session_id = ''v0'', selected_pages = [0]\<rparr>) \<noteq> None \<and>
      map_of (originals split_state)
        (ps_session_id \<lparr>ps_session_id = ''v0'', selected_pages = [0]\<rparr> @ ''.pdf'') = None"
    by code_simp
  from conjunct1[OF process_selected_pages_failures[where st = demo_state and e = demo_env
        and sel = "\<lparr>ps_session_id = ''zz'', selected_pages = [0]\<rparr>"]] a
  have 1: "process_selected_pages demo_env \<lparr>ps_session_id = ''zz'', selected_pages = [0]\<rparr> demo_state =
     (Inl (HTTPException 404 ''Session not found'' None), demo_state)" by blast
  from conjunct2[OF process_selected_pages_failures[where st = split_state and e = demo_env
        and sel = "\<lparr>ps_session_id = ''v0'', selected_pages = [0]\<rparr>"]] b
  have 2: "process_selected_pages demo_env \<lparr>ps_session_id = ''v0'', selected_pages = [0]\<rparr> split_state =
     (Inl FileNotFoundError, split_state)" by blast
  from 1 2 show ?thesis by blast
qed

subsection \<open>Page indices\<close>

lemma find_append:
  "find P (xs @ ys) = (case find P xs of None \<Rightarrow> find P ys | Some x \<Rightarrow> Some x)"
  by (induction xs) auto

lemma find_None_iff2: "find P xs = None \<longleftrightarrow> (\<forall>x\<in>set xs. \<not> P x)"
  by (induction xs) auto

lemma find_new_beo:
  assumes "beos (db st') = beos (db st) @ [b]" "session_id b \<notin> set (map session_id (beos (db st)))"
  shows "find_beo st' (session_id b) = Some b"
proof -
  have "\<forall>x\<in>set (beos (db st)). session_id x \<noteq> session_id b"
  proof (intro ballI notI)
    fix x assume "x \<in> set (beos (db st))" "session_id x = session_id b"
    then have "session_id b \<in> set (map session_id (beos (db st)))"
      by (metis image_eqI set_map)
    with assms(2) show False by simp
  qed
  then have "find (\<lambda>x. session_id x = session_id b) (beos (db st)) = None"
    by (simp add: find_None_iff2)
  then show ?thesis using assms(1) by (simp add: find_beo_def find_append)
qed

lemma set_map_int_upt: "set (map int [0..<k]) = {0..<int k}"
proof -
  have "int ` {0..<k} = {0..<int k}"
    by (metis image_int_atLeastLessThan of_nat_0)
  then show ?thesis by simp
qed

lemma distinct_map_int_upt: "distinct (map int [0..<k])"
  by (simp add: distinct_map inj_on_def)

lemma dense_new_document:
  assumes pages: "beo_pages (db st') = old @ new"
    and old: "\<forall>p\<in>set old. beo_id p < b_id b"
    and new: "\<forall>p\<in>set new. beo_id p = b_id b"
    and idx: "map page_index new = map int [0..<k]"
    and tot: "total_pages b = int k"
  shows "dense_pages st' b"
proof -
  have "filter (\<lambda>p. beo_id p = b_id b) old = []" using old by (auto simp: filter_empty_conv)
  moreover have "filter (\<lambda>p. beo_id p = b_id b) new = new" using new by (simp add: filter_id_conv)
  ultimately have "pages_of st' (b_id b) = new" by (simp add: pages_of_def pages)
  then show ?thesis
    by (simp add: dense_pages_def idx tot set_map_int_upt distinct_map_int_upt del: set_map)
qed

lemma create_beo_from_pages_Inr:
  assumes "create_beo_from_pages e data st = (Inr res, st')"
  shows "\<exists>parent pdf n b new.
           find_beo st (parent_session_id data) = Some parent \<and>
           map_of (originals st) (parent_session_id data @ ''.pdf'') = Some pdf \<and>
           page_count e pdf = Some n \<and>
           db st' = \<lparr>beos = beos (db st) @ [b], beo_pages = beo_pages (db st) @ new,
                     annotations = annotations (db st)\<rparr> \<and>
           fst res = session_id b \<and>
           session_id b \<notin> set (map session_id (beos (db st))) \<and>
           b_id b = seq_beo st \<and> total_pages b = int (length (page_indices data)) \<and>
           event_date b = event_date parent \<and> day_of_week b = day_of_week parent \<and>
           week_number b = week_number parent \<and> year b = year parent \<and>
           map page_index new =
             map (int \<circ> fst) (filter (\<lambda>(k, i). i < int n) (enumerate_py (page_indices data))) \<and>
           (\<forall>p\<in>set new. beo_id p = b_id b)"
proof -
  let ?sid = "uuids e 0"
  from assms obtain parent where fp: "find_beo st (parent_session_id data) = Some parent"
    by (cases "find_beo st (parent_session_id data)") (auto simp: create_beo_from_pages_def)
  from assms fp obtain pdf where rf: "read_file st ORIGINALS_DIR (parent_session_id data @ ''.pdf'') = Inr pdf"
    by (cases "read_file st ORIGINALS_DIR (parent_session_id data @ ''.pdf'')")
       (auto simp: create_beo_from_pages_def)
  then have mo: "map_of (originals st) (parent_session_id data @ ''.pdf'') = Some pdf"
    by (auto simp: read_file_def get_dir_def split: option.splits)
  from assms fp rf obtain images where cv: "convert_from_bytes e pdf 300 = Inr images"
    by (cases "convert_from_bytes e pdf 300") (auto simp: create_beo_from_pages_def)
  then obtain n where pc: "page_count e pdf = Some n" and im: "length images = n"
    by (auto simp: convert_from_bytes_def split: option.splits)
  let ?mk = "\<lambda>i. (new_beo e i ?sid (filename parent)
                  (int (length (page_indices data))) ''ready_for_annotation''
                  (file_type parent))
               \<lparr>beo_number := Some (cb_beo_number data),
                event_date := event_date parent,
                day_of_week := day_of_week parent,
                week_number := week_number parent,
                year := year parent,
                order_position := cb_order_position data\<rparr>"
  obtain r2 st2 where s2: "add_beo ?mk st = (r2, st2)" by (cases "add_beo ?mk st")
  from assms fp rf cv s2 obtain b where r2: "r2 = Inr b"
    by (cases r2) (auto simp: create_beo_from_pages_def)
  note f2 = add_beo_Inr[OF s2[unfolded r2]]
  obtain r3 st3 where s3: "from_pages_loop e ?sid (b_id b) pdf images
             (enumerate_py (page_indices data)) st2 = (r3, st3)"
    by (cases "from_pages_loop e ?sid (b_id b) pdf images (enumerate_py (page_indices data)) st2")
  from assms fp rf cv s2 r2 s3 have r3: "r3 = Inr ()"
    by (cases r3) (auto simp: create_beo_from_pages_def)
  from assms fp rf cv s2 r2 s3 r3 have res: "st' = st3" "res = (?sid, cb_beo_number data)"
    by (auto simp: create_beo_from_pages_def)
  from from_pages_loop_added[OF s3] r3 obtain new where
    pa: "pages_added (b_id b) st2 st3 new" and
    pi: "map page_index new =
           map (int \<circ> fst) (filter (\<lambda>(k, i). i < int (length images))
             (enumerate_py (page_indices data)))"
    by blast
  have bb: "b = ?mk (seq_beo st)" using f2 by simp
  have "db st' = \<lparr>beos = beos (db st) @ [b], beo_pages = beo_pages (db st) @ new,
                     annotations = annotations (db st)\<rparr>"
    using pa f2 res(1) by (simp add: pages_added_def)
  moreover have "session_id b = ?sid" "b_id b = seq_beo st"
     "total_pages b = int (length (page_indices data))"
     "event_date b = event_date parent" "day_of_week b = day_of_week parent"
     "week_number b = week_number parent" "year b = year parent"
    using bb by (simp_all add: new_beo_def)
  moreover have "session_id b \<notin> set (map session_id (beos (db st)))"
    using f2 by (elim conjE)
  moreover have "\<forall>p\<in>set new. beo_id p = b_id b" using pa by (simp add: pages_added_def)
  ultimately show ?thesis using fp mo pc pi im res(2) by auto
qed

lemma find_map_same:
  "(\<And>x. P (g x) = P x) \<Longrightarrow> find P (map g xs) = map_option g (find P xs)"
  by (induction xs) auto

lemma find_beo_upd:
  assumes "\<And>b. session_id (f b) = session_id b"
  shows "find_beo (upd_beo i f st) sid =
           map_option (\<lambda>b. if b_id b = i then f b else b) (find_beo st sid)"
  unfolding find_beo_def upd_beo_def
  by (simp add: find_map_same assms)

lemma only_high_res_pages_of:
  "only_high_res xs ys \<Longrightarrow>
     map page_index (filter (\<lambda>p. beo_id p = i) ys) =
     map page_index (filter (\<lambda>p. beo_id p = i) xs)"
  unfolding only_high_res_def
proof (induction xs ys rule: list_all2_induct)
  case Nil
  show ?case by simp
next
  case (Cons x xs y ys)
  from Cons(1) obtain h where "y = x\<lparr>high_res_path := h\<rparr>" by blast
  then have "beo_id y = beo_id x" "page_index y = page_index x" by simp_all
  with Cons(3) show ?case by simp
qed

lemma process_selected_pages_Inr:
  assumes "process_selected_pages e sel st = (Inr pr, st')"
  shows "\<exists>beo st1. find_beo st (ps_session_id sel) = Some beo \<and> pages_marked st st1 \<and>
           st' = upd_beo (b_id beo)
                   (\<lambda>b. b\<lparr>status := ''ready_for_annotation'', updated_at := utcnow e\<rparr>) st1"
proof -
  from assms obtain beo where fb: "find_beo st (ps_session_id sel) = Some beo"
    by (cases "find_beo st (ps_session_id sel)") (auto simp: process_selected_pages_def)
  from assms fb obtain pdf where rf: "read_file st ORIGINALS_DIR (ps_session_id sel @ ''.pdf'') = Inr pdf"
    by (cases "read_file st ORIGINALS_DIR (ps_session_id sel @ ''.pdf'')")
       (auto simp: process_selected_pages_def)
  from assms fb rf obtain images where cv: "convert_from_bytes e pdf 300 = Inr images"
    by (cases "convert_from_bytes e pdf 300") (auto simp: process_selected_pages_def)
  obtain r1 st1 where lp: "selected_loop e (ps_session_id sel) (b_id beo) images
       (selected_pages sel) [] st = (r1, st1)"
    by (cases "selected_loop e (ps_session_id sel) (b_id beo) images (selected_pages sel) [] st")
  from assms fb rf cv lp have "st' = upd_beo (b_id beo)
                   (\<lambda>b. b\<lparr>status := ''ready_for_annotation'', updated_at := utcnow e\<rparr>) st1"
    by (cases r1) (auto simp: process_selected_pages_def)
  with fb selected_loop_marked[OF lp] show ?thesis by blast
qed

text \<open>
  What the other paths do. (1) After a successful \<open>upload_pdf\<close> the page rows of the
  new document carry \<open>page_index\<close> exactly \<open>0 .. total_pages - 1\<close>, each once: the
  document row stores the number of pages that were written. (2) A successful
  \<open>process_selected_pages\<close> changes neither \<open>total_pages\<close> nor the \<open>page_index\<close> values
  of the document. (3) A successful \<open>create_beo_from_pages\<close> whose indices are all below
  the page count of the parent's PDF does as \<open>upload_pdf\<close> does. In (1) and (3) the
  foreign keys of the existing page rows are below the document sequence, as they are
  for rows the program wrote.
\<close>

lemma page_index_dense:
  "(upload_pdf e req st = (Inr r, st') \<and> (\<forall>p\<in>set (beo_pages (db st)). beo_id p < seq_beo st) \<longrightarrow>
      (\<exists>b. find_beo st' (sr_session_id r) = Some b \<and> dense_pages st' b))
   \<and> (process_selected_pages e sel st = (Inr pr, st') \<and>
        find_beo st (ps_session_id sel) = Some b \<longrightarrow>
      (\<exists>b'. find_beo st' (ps_session_id sel) = Some b' \<and> b_id b' = b_id b \<and>
         total_pages b' = total_pages b \<and>
         map page_index (pages_of st' (b_id b')) = map page_index (pages_of st (b_id b)) \<and>
         dense_pages st' b' = dense_pages st b))
   \<and> (create_beo_from_pages e data st = (Inr res, st') \<and>
        map_of (originals st) (parent_session_id data @ ''.pdf'') = Some pdf \<and>
        page_count e pdf = Some n \<and> (\<forall>i\<in>set (page_indices data). i < int n) \<and>
        (\<forall>p\<in>set (beo_pages (db st)). beo_id p < seq_beo st) \<longrightarrow>
      (\<exists>b. find_beo st' (fst res) = Some b \<and> dense_pages st' b))"
proof (intro conjI impI)
  assume h: "upload_pdf e req st = (Inr r, st') \<and>
     (\<forall>p\<in>set (beo_pages (db st)). beo_id p < seq_beo st)"
  from upload_pdf_try_Inr[OF upload_pdf_Inr[OF conjunct1[OF h]]] obtain b new where
    u: "db st' = \<lparr>beos = beos (db st) @ [b], beo_pages = beo_pages (db st) @ new,
                     annotations = annotations (db st)\<rparr>"
       "session_id b = sr_session_id r"
       "session_id b \<notin> set (map session_id (beos (db st)))"
       "b_id b = seq_beo st" "total_pages b = int (length new)"
       "map page_index new = map int [0..<length new]"
       "\<forall>p\<in>set new. beo_id p = b_id b"
    by blast
  have "find_beo st' (session_id b) = Some b"
    using u(1,3) by (intro find_new_beo) simp_all
  moreover have "dense_pages st' b"
    using u h by (intro dense_new_document[where old = "beo_pages (db st)" and new = new
          and k = "length new"]) simp_all
  ultimately show "\<exists>b. find_beo st' (sr_session_id r) = Some b \<and> dense_pages st' b"
    using u(2) by auto
next
  assume h: "process_selected_pages e sel st = (Inr pr, st') \<and>
        find_beo st (ps_session_id sel) = Some b"
  from process_selected_pages_Inr[OF conjunct1[OF h]] h obtain st1 where
    m: "pages_marked st st1" and
    s: "st' = upd_beo (b_id b)
                   (\<lambda>b. b\<lparr>status := ''ready_for_annotation'', updated_at := utcnow e\<rparr>) st1"
    by auto
  let ?b' = "b\<lparr>status := ''ready_for_annotation'', updated_at := utcnow e\<rparr>"
  have fb1: "find_beo st1 (ps_session_id sel) = Some b"
    using h m by (simp add: find_beo_def pages_marked_def)
  have fb: "find_beo st' (ps_session_id sel) = Some ?b'"
    unfolding s by (subst find_beo_upd) (simp_all add: fb1)
  have pg: "map page_index (pages_of st' (b_id ?b')) = map page_index (pages_of st (b_id b))"
    using m unfolding s pages_of_def pages_marked_def
    by (simp add: upd_beo_def only_high_res_pages_of)
  have "dense_pages st' ?b' = dense_pages st b"
    unfolding dense_pages_def using pg by (simp del: set_map)
  with fb pg show "\<exists>b'. find_beo st' (ps_session_id sel) = Some b' \<and> b_id b' = b_id b \<and>
         total_pages b' = total_pages b \<and>
         map page_index (pages_of st' (b_id b')) = map page_index (pages_of st (b_id b)) \<and>
         dense_pages st' b' = dense_pages st b"
    by auto
next
  assume h: "create_beo_from_pages e data st = (Inr res, st') \<and>
        map_of (originals st) (parent_session_id data @ ''.pdf'') = Some pdf \<and>
        page_count e pdf = Some n \<and> (\<forall>i\<in>set (page_indices data). i < int n) \<and>
        (\<forall>p\<in>set (beo_pages (db st)). beo_id p < seq_beo st)"
  from create_beo_from_pages_Inr[OF conjunct1[OF h]] h obtain b new where
    u: "db st' = \<lparr>beos = beos (db st) @ [b], beo_pages = beo_pages (db st) @ new,
                     annotations = annotations (db st)\<rparr>"
       "fst res = session_id b"
       "session_id b \<notin> set (map session_id (beos (db st)))"
       "b_id b = seq_beo st" "total_pages b = int (length (page_indices data))"
       "map page_index new =
             map (int \<circ> fst) (filter (\<lambda>(k, i). i < int n) (enumerate_py (page_indices data)))"
       "\<forall>p\<in>set new. beo_id p = b_id b"
    by auto
  have "filter (\<lambda>(k, i). i < int n) (enumerate_py (page_indices data)) =
          enumerate_py (page_indices data)"
    using h by (auto simp: filter_id_conv enumerate_py_def dest: set_zip_rightD)
  with u(6) have idx: "map page_index new = map int [0..<length (page_indices data)]"
    by (simp add: enumerate_py_fst)
  have "find_beo st' (session_id b) = Some b"
    using u(1,3) by (intro find_new_beo) simp_all
  moreover have "dense_pages st' b"
    using u h idx by (intro dense_new_document[where old = "beo_pages (db st)" and new = new
          and k = "length (page_indices data)"]) simp_all
  ultimately show "\<exists>b. find_beo st' (fst res) = Some b \<and> dense_pages st' b"
    using u(2) by auto
qed

text \<open>
  C2. The page indices of a document are not always \<open>0 .. total_pages - 1\<close> after a
  successful \<open>create_beo_from_pages\<close>: splitting the pages 0, 99 and 1 off a three-page
  upload succeeds, stores \<open>total_pages = 3\<close> (the length of the index list) and writes
  the page rows 0 and 2 only. The loop skips index 99, which is not below the page
  count, and \<open>enumerate\<close> still counts its position; \<open>upload_pdf\<close> and
  \<open>process_all_pages\<close> store the number of pages they wrote.
\<close>

theorem create_beo_from_pages_gap:
  "fst (create_beo_from_pages demo_env2 split_request demo_state) = Inr (''v0'', ''7'')
   \<and> split_state = snd (create_beo_from_pages demo_env2 split_request demo_state)
   \<and> find_beo split_state ''v0'' = Some (last (beos (db split_state)))
   \<and> total_pages (last (beos (db split_state))) = 3
   \<and> map page_index (pages_of split_state (b_id (last (beos (db split_state))))) = [0, 2]
   \<and> \<not> dense_pages split_state (last (beos (db split_state)))"
proof -
  have a: "fst (create_beo_from_pages demo_env2 split_request demo_state) = Inr (''v0'', ''7'')"
    by code_simp
  have b: "split_state = snd (create_beo_from_pages demo_env2 split_request demo_state)"
    by (simp add: split_state_def split_request_def)
  have c: "find_beo split_state ''v0'' = Some (last (beos (db split_state)))" by code_simp
  have d: "total_pages (last (beos (db split_state))) = 3" by code_simp
  have e: "map page_index (pages_of split_state (b_id (last (beos (db split_state))))) = [0, 2]"
    by code_simp
  have "(1::int) \<notin> set (map page_index (pages_of split_state (b_id (last (beos (db split_state))))))"
    unfolding e by simp
  then have f: "\<not> dense_pages split_state (last (beos (db split_state)))"
    unfolding dense_pages_def d by auto
  from a b c d e f show ?thesis by blast
qed

lemma page_index_dense_instances:
  "(\<exists>b. find_beo demo_state ''u0'' = Some b \<and> dense_pages demo_state b)
   \<and> (\<exists>b. find_beo promoted_state ''u0'' = Some b \<and> total_pages b = 3 \<and>
          map page_index (pages_of promoted_state (b_id b)) = [0, 1, 2])
   \<and> (\<exists>b. find_beo split_ok_state ''v0'' = Some b \<and> dense_pages split_ok_state b)"
proof -
  let ?r = "\<lparr>sr_session_id = ''u0'', sr_filename = codes ''1028 Tuesday.pdf'', sr_total_pages = 3,
             sr_pages = [''a'', ''b'', ''c'']\<rparr>"
  have u: "upload_pdf demo_env demo_upload init_state = (Inr ?r, demo_state)" by code_simp
  have u0: "\<forall>p\<in>set (beo_pages (db init_state)). beo_id p < seq_beo init_state"
    by (simp add: init_state_def)
  from conjunct1[OF page_index_dense[where e = demo_env and req = demo_upload
        and st = init_state and r = ?r and st' = demo_state]] u u0
  have 1: "\<exists>b. find_beo demo_state ''u0'' = Some b \<and> dense_pages demo_state b" by simp
  let ?sel = "\<lparr>ps_session_id = ''u0'', selected_pages = [0, 2]\<rparr>"
  let ?pr = "\<lparr>processed_pages = 2, high_res_pages = [(0, ''a''), (2, ''c'')]\<rparr>"
  have p: "process_selected_pages demo_env ?sel demo_state = (Inr ?pr, promoted_state)"
    by code_simp
  have pb: "find_beo demo_state (ps_session_id ?sel) = Some (hd (beos (db demo_state)))"
    by code_simp
  have pv: "total_pages (hd (beos (db demo_state))) = 3"
     "map page_index (pages_of demo_state (b_id (hd (beos (db demo_state))))) = [0, 1, 2]"
    by code_simp+
  from conjunct1[OF conjunct2[OF page_index_dense[where e = demo_env and sel = ?sel
        and st = demo_state and pr = ?pr and st' = promoted_state
        and b = "hd (beos (db demo_state))"]]] p pb
  have "\<exists>b'. find_beo promoted_state (ps_session_id ?sel) = Some b' \<and>
         b_id b' = b_id (hd (beos (db demo_state))) \<and>
         total_pages b' = total_pages (hd (beos (db demo_state))) \<and>
         map page_index (pages_of promoted_state (b_id b')) =
           map page_index (pages_of demo_state (b_id (hd (beos (db demo_state))))) \<and>
         dense_pages promoted_state b' = dense_pages demo_state (hd (beos (db demo_state)))"
    by blast
  then have 2: "\<exists>b. find_beo promoted_state ''u0'' = Some b \<and> total_pages b = 3 \<and>
          map page_index (pages_of promoted_state (b_id b)) = [0, 1, 2]"
    using pv by auto
  have c: "create_beo_from_pages demo_env2 split_ok_request demo_state =
             (Inr (''v0'', ''8''), split_ok_state)" by code_simp
  have c1: "map_of (originals demo_state) (parent_session_id split_ok_request @ ''.pdf'') =
              Some ''abc''" by code_simp
  have c2: "page_count demo_env2 ''abc'' = Some 3" by (simp add: demo_env2_def demo_env_def)
  have c3: "\<forall>i\<in>set (page_indices split_ok_request). i < int 3"
    by (simp add: split_ok_request_def)
  have c4: "\<forall>p\<in>set (beo_pages (db demo_state)). beo_id p < seq_beo demo_state" by code_simp
  from conjunct2[OF conjunct2[OF page_index_dense[where e = demo_env2
        and data = split_ok_request and st = demo_state and res = "(''v0'', ''8'')"
        and st' = split_ok_state and pdf = "''abc''" and n = 3]]] c c1 c2 c3 c4
  have 3: "\<exists>b. find_beo split_ok_state ''v0'' = Some b \<and> dense_pages split_ok_state b" by simp
  from 1 2 3 show ?thesis by blast
qed

subsection \<open>Invariants of the registry\<close>

lemma mk_datetime_year: "mk_datetime y m d = Inr ev \<Longrightarrow> dt_year ev = y"
  by (auto simp: mk_datetime_def split: if_splits)

lemma parse_consistent:
  assumes "parse_filename_date u now fn = Some i"
  shows "di_day_of_week i = strftime_A (di_event_date i) \<and>
     di_week_number i = isocalendar_week (di_event_date i) \<and>
     di_year i = dt_year (di_event_date i)"
proof (cases "match_filename u fn")
  case None
  with assms show ?thesis by (simp add: parse_filename_date_def)
next
  case (Some g)
  obtain g1 g2 g3 where g: "g = (g1, g2, g3)" by (cases g)
  let ?y = "dt_year now" and ?m = "int_of_digits u g1" and ?d = "int_of_digits u g2"
  show ?thesis
  proof (cases "mk_datetime ?y ?m ?d")
    case (Inl x)
    with assms Some g show ?thesis by (simp add: parse_filename_date_def)
  next
    case (Inr ev)
    show ?thesis
    proof (cases "sub_days now ev > 180")
      case False
      with assms Some g Inr have "i = mk_date_info ev ?y" by (simp add: parse_filename_date_def)
      with mk_datetime_year[OF Inr] show ?thesis by (simp add: mk_date_info_def)
    next
      case True
      show ?thesis
      proof (cases "mk_datetime (?y + 1) ?m ?d")
        case (Inl x)
        with assms Some g Inr True show ?thesis by (simp add: parse_filename_date_def)
      next
        case Inr2: (Inr ev')
        with assms Some g Inr True have "i = mk_date_info ev' (?y + 1)"
          by (simp add: parse_filename_date_def)
        with mk_datetime_year[OF Inr2] show ?thesis by (simp add: mk_date_info_def)
      qed
    qed
  qed
qed

lemma new_beo_consistent: "date_consistent (new_beo e i sid fn n s ft)"
  by (simp add: date_consistent_def new_beo_def)

lemma set_date_info_consistent:
  "date_consistent (set_date_info (parse_filename_date u now fn) b)"
  by (cases "parse_filename_date u now fn")
     (auto simp: date_consistent_def set_date_info_def dest: parse_consistent)

lemma set_event_date_consistent: "date_consistent (set_event_date d b)"
  by (simp add: date_consistent_def set_event_date_def)

lemma inv2_db: "db st' = db st \<Longrightarrow> inv2 A st' = inv2 A st"
  by (simp add: inv2_def dates_ok_def ann_unique_def)

lemma inv2_rollback: "inv2 A (rollback st st') = inv2 A st"
  by (rule inv2_db) (simp add: rollback_def)

lemma inv2_pages_added: "pages_added bid st st' new \<Longrightarrow> inv2 A st' = inv2 A st"
  by (simp add: inv2_def dates_ok_def ann_unique_def pages_added_def)

lemma inv2_pages_marked: "pages_marked st st' \<Longrightarrow> inv2 A st' = inv2 A st"
  by (simp add: inv2_def dates_ok_def ann_unique_def pages_marked_def)

lemma inv2_add_beo:
  assumes "add_beo mk st = (r, st')" "inv2 A st" "\<And>i. date_consistent (mk i)"
  shows "inv2 A st'"
proof (cases r)
  case (Inl x)
  with assms(1) have "db st' = db st" by (auto dest: add_beo_Inl)
  with assms(2) show ?thesis using inv2_db[of st' st A] by simp
next
  case (Inr b)
  with assms(1) have "b = mk (seq_beo st)" "db st' = (db st)\<lparr>beos := beos (db st) @ [b]\<rparr>"
    by (auto dest: add_beo_Inr)
  with assms(2,3) show ?thesis by (simp add: inv2_def dates_ok_def ann_unique_def)
qed

lemma inv2_upd_beo:
  assumes "inv2 A st" "\<And>b. date_consistent b \<Longrightarrow> date_consistent (f b)"
  shows "inv2 A (upd_beo i f st)"
proof -
  have "\<forall>b\<in>set (beos (db st)). date_consistent (if b_id b = i then f b else b)"
    using assms by (simp add: inv2_def dates_ok_def)
  with assms(1) show ?thesis by (auto simp: inv2_def dates_ok_def ann_unique_def upd_beo_def)
qed

lemma inv2_save_file: "save_file e data d name st = (r, st') \<Longrightarrow> inv2 A st' = inv2 A st"
  by (rule inv2_db) (simp add: save_file_db)

lemma inv2_thumbnail_loop:
  "thumbnail_loop e sid bid xs acc st = (r, st') \<Longrightarrow> inv2 A st' = inv2 A st"
  using thumbnail_loop_added inv2_pages_added by blast

lemma inv2_upload_pdf_try:
  assumes "upload_pdf_try e req st = (r, st')" "inv2 A st"
  shows "inv2 A st'"
proof (cases "endswith (up_filename req) (codes ''.pdf'')")
  case False
  with assms show ?thesis by (simp add: upload_pdf_try_def)
next
  case ew: True
  let ?sid = "uuids e 0"
  obtain r1 st1 where s1: "save_file e (up_content req) ORIGINALS_DIR (?sid @ ''.pdf'') st = (r1, st1)"
    by (cases "save_file e (up_content req) ORIGINALS_DIR (?sid @ ''.pdf'') st")
  have i1: "inv2 A st1" using inv2_save_file[OF s1] assms(2) by simp
  show ?thesis
  proof (cases r1)
    case (Inl x)
    with assms(1) ew s1 have "st' = st1" by (simp add: upload_pdf_try_def Let_def)
    with i1 show ?thesis by simp
  next
    case r1: (Inr y1)
    show ?thesis
    proof (cases "convert_from_bytes e (up_content req) 75")
      case (Inl x)
      with assms(1) ew s1 r1 have "st' = st1" by (simp add: upload_pdf_try_def Let_def)
      with i1 show ?thesis by simp
    next
      case cv: (Inr images)
      let ?mk = "\<lambda>i. set_date_info (parse_filename_date (unicode e) (localnow e) (up_filename req))
                    (new_beo e i ?sid (up_filename req) (int (length images)) ''new''
                       (up_file_type req))"
      obtain r2 st2 where s2: "add_beo ?mk st1 = (r2, st2)" by (cases "add_beo ?mk st1")
      have i2: "inv2 A st2"
        by (rule inv2_add_beo[OF s2 i1]) (rule set_date_info_consistent)
      show ?thesis
      proof (cases r2)
        case (Inl x)
        with assms(1) ew s1 r1 cv s2 have "st' = st2" by (simp add: upload_pdf_try_def Let_def)
        with i2 show ?thesis by simp
      next
        case r2: (Inr b)
        obtain r3 st3 where s3:
          "thumbnail_loop e ?sid (b_id b) (enumerate_py images) [] st2 = (r3, st3)"
          by (cases "thumbnail_loop e ?sid (b_id b) (enumerate_py images) [] st2")
        have i3: "inv2 A st3" using inv2_thumbnail_loop[OF s3] i2 by simp
        from assms(1) ew s1 r1 cv s2 r2 s3 have "st' = st3"
          by (cases r3) (simp_all add: upload_pdf_try_def Let_def)
        with i3 show ?thesis by simp
      qed
    qed
  qed
qed

lemma inv2_upload_pdf: "inv2 A st \<Longrightarrow> inv2 A (snd (upload_pdf e req st))"
proof -
  assume i: "inv2 A st"
  obtain r st' where t: "upload_pdf_try e req st = (r, st')" by (cases "upload_pdf_try e req st")
  from inv2_upload_pdf_try[OF t i] i t show ?thesis
    by (cases r) (simp_all add: upload_pdf_def inv2_rollback)
qed

lemma inv2_multi_loop:
  "multi_loop e info k files results st = (r, st') \<Longrightarrow> inv2 A st \<Longrightarrow> inv2 A st'"
proof (induction files arbitrary: k results st)
  case Nil
  then show ?case by simp
next
  case (Cons f files)
  obtain fname pdf_bytes where f: "f = (fname, pdf_bytes)" by (cases f)
  show ?case
  proof (cases "endswith fname (codes ''.pdf'')")
    case False
    with Cons.prems(1) f have "multi_loop e info k files results st = (r, st')" by simp
    from Cons.IH[OF this Cons.prems(2)] show ?thesis .
  next
    case ew: True
    let ?sid = "uuids e k"
    let ?fi = "file_info_map info fname"
    let ?ftype = "case ?fi of None \<Rightarrow> ''daily''
                     | Some i \<Rightarrow> (case fi_file_type i of None \<Rightarrow> ''daily'' | Some t \<Rightarrow> t)"
    let ?ev = "parse_event_date e (case ?fi of None \<Rightarrow> None | Some i \<Rightarrow> fi_event_date i)"
    obtain r1 st1 where s1: "save_file e pdf_bytes ORIGINALS_DIR (?sid @ ''.pdf'') st = (r1, st1)"
      by (cases "save_file e pdf_bytes ORIGINALS_DIR (?sid @ ''.pdf'') st")
    have i1: "inv2 A st1" using inv2_save_file[OF s1] Cons.prems(2) by simp
    show ?thesis
    proof (cases r1)
      case (Inl x)
      with Cons.prems(1) f ew s1 have "st' = st1" by (simp add: Let_def)
      with i1 show ?thesis by simp
    next
      case r1: (Inr y1)
      show ?thesis
      proof (cases "convert_from_bytes e pdf_bytes 75")
        case (Inl x)
        with Cons.prems(1) f ew s1 r1 have "st' = st1" by (simp add: Let_def)
        with i1 show ?thesis by simp
      next
        case cv: (Inr images)
        let ?mk = "\<lambda>i. set_event_date ?ev
                  (new_beo e i ?sid fname (int (length images)) ''new'' ?ftype)"
        obtain r2 st2 where s2: "add_beo ?mk st1 = (r2, st2)" by (cases "add_beo ?mk st1")
        have i2: "inv2 A st2"
          by (rule inv2_add_beo[OF s2 i1]) (rule set_event_date_consistent)
        show ?thesis
        proof (cases r2)
          case (Inl x)
          with Cons.prems(1) f ew s1 r1 cv s2 have "st' = st2" by (simp add: Let_def)
          with i2 show ?thesis by simp
        next
          case r2: (Inr b)
          obtain r3 st3 where s3:
            "thumbnail_loop e ?sid (b_id b) (enumerate_py images) [] st2 = (r3, st3)"
            by (cases "thumbnail_loop e ?sid (b_id b) (enumerate_py images) [] st2")
          have i3: "inv2 A st3" using inv2_thumbnail_loop[OF s3] i2 by simp
          show ?thesis
          proof (cases r3)
            case (Inl x)
            with Cons.prems(1) f ew s1 r1 cv s2 r2 s3 have "st' = st3" by (simp add: Let_def)
            with i3 show ?thesis by simp
          next
            case (Inr th)
            with Cons.prems(1) f ew s1 r1 cv s2 r2 s3 obtain res' where
              "multi_loop e info (Suc k) files res' st3 = (r, st')"
              by (simp add: Let_def)
            from Cons.IH[OF this i3] show ?thesis .
          qed
        qed
      qed
    qed
  qed
qed

lemma inv2_upload_multiple_pdfs: "inv2 A st \<Longrightarrow> inv2 A (snd (upload_multiple_pdfs e req st))"
proof -
  assume i: "inv2 A st"
  show ?thesis
  proof (cases "um_file_info req")
    case None
    with i show ?thesis by (simp add: upload_multiple_pdfs_def)
  next
    case (Some info)
    obtain r st' where t: "multi_loop e info 0 (um_files req) [] st = (r, st')"
      by (cases "multi_loop e info 0 (um_files req) [] st")
    from inv2_multi_loop[OF t i] i t Some show ?thesis
      by (cases r) (simp_all add: upload_multiple_pdfs_def inv2_rollback)
  qed
qed

lemma find_beo_consistent:
  "find_beo st sid = Some b \<Longrightarrow> inv2 A st \<Longrightarrow> date_consistent b"
  by (auto simp: find_beo_def inv2_def dates_ok_def dest: find_SomeD)

lemma copy_dates_consistent:
  "date_consistent p \<Longrightarrow>
   date_consistent (b\<lparr>beo_number := nb, event_date := event_date p, day_of_week := day_of_week p,
                       week_number := week_number p, year := year p, order_position := pos\<rparr>)"
  by (simp add: date_consistent_def)

lemma inv2_all_pages_inner:
  "all_pages_inner e sid bid pdf xs st = (r, st') \<Longrightarrow> inv2 A st' = inv2 A st"
  using all_pages_inner_added inv2_pages_added by blast

lemma inv2_from_pages_loop:
  "from_pages_loop e sid bid pdf images xs st = (r, st') \<Longrightarrow> inv2 A st' = inv2 A st"
  using from_pages_loop_added inv2_pages_added by blast

lemma inv2_all_pages_loop:
  "all_pages_loop e k sids processed st = (r, st') \<Longrightarrow> inv2 A st \<Longrightarrow> inv2 A st'"
proof (induction sids arbitrary: k processed st)
  case Nil
  then show ?case by simp
next
  case (Cons sid sids)
  show ?case
  proof (cases "find_beo st sid")
    case None
    with Cons.prems(1) have "all_pages_loop e k sids processed st = (r, st')" by simp
    from Cons.IH[OF this Cons.prems(2)] show ?thesis .
  next
    case fb: (Some upload_beo)
    show ?thesis
    proof (cases "map_of (originals st) (sid @ ''.pdf'')")
      case None
      with Cons.prems(1) fb have "all_pages_loop e k sids processed st = (r, st')" by simp
      from Cons.IH[OF this Cons.prems(2)] show ?thesis .
    next
      case mo: (Some pdf_bytes)
      show ?thesis
      proof (cases "convert_from_bytes e pdf_bytes 300")
        case (Inl x)
        with Cons.prems fb mo show ?thesis by simp
      next
        case cv: (Inr images)
        let ?sid = "uuids e k"
        let ?mk = "\<lambda>i. (new_beo e i ?sid (filename upload_beo) (int (length images))
                  ''ready_for_annotation'' (file_type upload_beo))
               \<lparr>beo_number := Some ''BEO 1'',
                event_date := event_date upload_beo,
                day_of_week := day_of_week upload_beo,
                week_number := week_number upload_beo,
                year := year upload_beo,
                order_position := 0\<rparr>"
        obtain r2 st2 where s2: "add_beo ?mk st = (r2, st2)" by (cases "add_beo ?mk st")
        have i2: "inv2 A st2"
          by (rule inv2_add_beo[OF s2 Cons.prems(2)])
             (rule copy_dates_consistent[OF find_beo_consistent[OF fb Cons.prems(2)]])
        show ?thesis
        proof (cases r2)
          case (Inl x)
          with Cons.prems(1) fb mo cv s2 have "st' = st2" by (simp add: Let_def)
          with i2 show ?thesis by simp
        next
          case r2: (Inr nb)
          obtain r3 st3 where s3:
            "all_pages_inner e ?sid (b_id nb) pdf_bytes (enumerate_py images) st2 = (r3, st3)"
            by (cases "all_pages_inner e ?sid (b_id nb) pdf_bytes (enumerate_py images) st2")
          have i3: "inv2 A st3" using inv2_all_pages_inner[OF s3] i2 by simp
          show ?thesis
          proof (cases r3)
            case (Inl x)
            with Cons.prems(1) fb mo cv s2 r2 s3 have "st' = st3" by (simp add: Let_def)
            with i3 show ?thesis by simp
          next
            case (Inr u)
            with Cons.prems(1) fb mo cv s2 r2 s3 obtain p' where
              "all_pages_loop e (Suc k) sids p' st3 = (r, st')"
              by (simp add: Let_def)
            from Cons.IH[OF this i3] show ?thesis .
          qed
        qed
      qed
    qed
  qed
qed

lemma inv2_process_all_pages: "inv2 A st \<Longrightarrow> inv2 A (snd (process_all_pages e sids st))"
proof -
  assume i: "inv2 A st"
  obtain r st' where t: "all_pages_loop e 0 sids [] st = (r, st')"
    by (cases "all_pages_loop e 0 sids [] st")
  from inv2_all_pages_loop[OF t i] i t show ?thesis
    by (cases r) (simp_all add: process_all_pages_def inv2_rollback)
qed

lemma inv2_create_beo_from_pages:
  assumes i: "inv2 A st"
  shows "inv2 A (snd (create_beo_from_pages e data st))"
proof (cases "find_beo st (parent_session_id data)")
  case None
  with i show ?thesis by (simp add: create_beo_from_pages_def)
next
  case fb: (Some parent_beo)
  show ?thesis
  proof (cases "read_file st ORIGINALS_DIR (parent_session_id data @ ''.pdf'')")
    case (Inl x)
    with i fb show ?thesis by (simp add: create_beo_from_pages_def)
  next
    case rf: (Inr pdf_bytes)
    show ?thesis
    proof (cases "convert_from_bytes e pdf_bytes 300")
      case (Inl x)
      with i fb rf show ?thesis by (simp add: create_beo_from_pages_def)
    next
      case cv: (Inr images)
      let ?sid = "uuids e 0"
      let ?mk = "\<lambda>i. (new_beo e i ?sid (filename parent_beo)
                  (int (length (page_indices data))) ''ready_for_annotation''
                  (file_type parent_beo))
               \<lparr>beo_number := Some (cb_beo_number data),
                event_date := event_date parent_beo,
                day_of_week := day_of_week parent_beo,
                week_number := week_number parent_beo,
                year := year parent_beo,
                order_position := cb_order_position data\<rparr>"
      obtain r2 st2 where s2: "add_beo ?mk st = (r2, st2)" by (cases "add_beo ?mk st")
      have i2: "inv2 A st2"
        by (rule inv2_add_beo[OF s2 i])
           (rule copy_dates_consistent[OF find_beo_consistent[OF fb i]])
      show ?thesis
      proof (cases r2)
        case (Inl x)
        with fb rf cv s2 i show ?thesis by (simp add: create_beo_from_pages_def inv2_rollback)
      next
        case r2: (Inr nb)
        obtain r3 st3 where s3: "from_pages_loop e ?sid (b_id nb) pdf_bytes images
             (enumerate_py (page_indices data)) st2 = (r3, st3)"
          by (cases "from_pages_loop e ?sid (b_id nb) pdf_bytes images
             (enumerate_py (page_indices data)) st2")
        have i3: "inv2 A st3" using inv2_from_pages_loop[OF s3] i2 by simp
        from fb rf cv s2 r2 s3 i i3 show ?thesis
          by (cases r3) (simp_all add: create_beo_from_pages_def inv2_rollback)
      qed
    qed
  qed
qed

lemma inv2_select_pages: "inv2 A st \<Longrightarrow> inv2 A (snd (select_pages e sel st))"
proof (cases "find_beo st (ps_session_id sel)")
  case None
  assume "inv2 A st"
  with None show ?thesis by (simp add: select_pages_def)
next
  case (Some beo)
  assume "inv2 A st"
  then have "inv2 A (upd_beo (b_id beo) (\<lambda>b. b\<lparr>status := ''selected'', updated_at := utcnow e\<rparr>) st)"
    by (rule inv2_upd_beo) (simp add: date_consistent_def)
  with Some show ?thesis by (simp add: select_pages_def)
qed

lemma process_selected_pages_Inl:
  assumes "process_selected_pages e sel st = (Inl x, st')"
  shows "db st' = db st"
proof (cases "find_beo st (ps_session_id sel)")
  case None
  with assms show ?thesis by (simp add: process_selected_pages_def)
next
  case fb: (Some beo)
  show ?thesis
  proof (cases "read_file st ORIGINALS_DIR (ps_session_id sel @ ''.pdf'')")
    case (Inl y)
    with assms fb show ?thesis by (simp add: process_selected_pages_def)
  next
    case rf: (Inr pdf)
    show ?thesis
    proof (cases "convert_from_bytes e pdf 300")
      case (Inl y)
      with assms fb rf show ?thesis by (simp add: process_selected_pages_def)
    next
      case cv: (Inr images)
      obtain r1 st1 where lp: "selected_loop e (ps_session_id sel) (b_id beo) images
           (selected_pages sel) [] st = (r1, st1)"
        by (cases "selected_loop e (ps_session_id sel) (b_id beo) images (selected_pages sel) [] st")
      from assms fb rf cv lp show ?thesis
        by (cases r1) (auto simp: process_selected_pages_def rollback_def)
    qed
  qed
qed

lemma inv2_process_selected_pages:
  assumes i: "inv2 A st"
  shows "inv2 A (snd (process_selected_pages e sel st))"
proof (cases "process_selected_pages e sel st")
  case (Pair r st')
  show ?thesis
  proof (cases r)
    case (Inr pr)
    with Pair have "process_selected_pages e sel st = (Inr pr, st')" by simp
    from process_selected_pages_Inr[OF this] obtain beo st1 where
      fb: "find_beo st (ps_session_id sel) = Some beo" and
      m: "pages_marked st st1" and
      s: "st' = upd_beo (b_id beo)
                   (\<lambda>b. b\<lparr>status := ''ready_for_annotation'', updated_at := utcnow e\<rparr>) st1"
      by (elim exE conjE)
    have "inv2 A st1" using inv2_pages_marked[OF m] i by simp
    then have "inv2 A st'" unfolding s
      by (rule inv2_upd_beo) (simp add: date_consistent_def)
    with Pair show ?thesis by simp
  next
    case (Inl x)
    with Pair have "db st' = db st" using process_selected_pages_Inl by simp
    from inv2_db[OF this] i Pair show ?thesis by simp
  qed
qed

lemma ann_keys_upd:
  "map (\<lambda>a. (a_beo_id a, a_page_index a))
     (map (\<lambda>x. if c x then x\<lparr>canvas_data := v, a_updated_at := t\<rparr> else x) xs) =
   map (\<lambda>a. (a_beo_id a, a_page_index a)) xs"
  by (induction xs) auto

lemma inv2_save_annotation:
  assumes i: "inv2 A st"
  shows "inv2 A (snd (save_annotation e a st))"
proof (cases "find_beo st (ad_session_id a)")
  case None
  with i show ?thesis by (simp add: save_annotation_def)
next
  case (Some beo)
  let ?P = "\<lambda>x. a_beo_id x = b_id beo \<and> a_page_index x = ad_page_index a"
  let ?st1 = "case find ?P (annotations (db st)) of
                Some existing \<Rightarrow>
                  upd_annotation (a_id existing)
                    (\<lambda>x. x\<lparr>canvas_data := annotation_data a, a_updated_at := utcnow e\<rparr>) st
              | None \<Rightarrow>
                  add_annotation e (b_id beo) (ad_page_index a) (annotation_data a) st"
  have "inv2 A ?st1"
  proof (cases "find ?P (annotations (db st))")
    case None
    then have "\<forall>x\<in>set (annotations (db st)). \<not> ?P x" by (simp add: find_None_iff2)
    then have "(b_id beo, ad_page_index a) \<notin>
        set (map (\<lambda>a. (a_beo_id a, a_page_index a)) (annotations (db st)))" by auto
    with i None show ?thesis
      by (simp add: inv2_def dates_ok_def ann_unique_def add_annotation_def)
  next
    case (Some existing)
    have "annotations (db (upd_annotation (a_id existing)
                    (\<lambda>x. x\<lparr>canvas_data := annotation_data a, a_updated_at := utcnow e\<rparr>) st)) =
          map (\<lambda>x. if a_id x = a_id existing
                       then x\<lparr>canvas_data := annotation_data a, a_updated_at := utcnow e\<rparr>
                       else x) (annotations (db st))"
         "beos (db (upd_annotation (a_id existing)
                    (\<lambda>x. x\<lparr>canvas_data := annotation_data a, a_updated_at := utcnow e\<rparr>) st)) =
          beos (db st)"
      by (simp_all add: upd_annotation_def)
    with i Some show ?thesis
      by (simp add: inv2_def dates_ok_def ann_unique_def ann_keys_upd del: map_map)
  qed
  then have "inv2 A (upd_beo (b_id beo) (\<lambda>b. b\<lparr>status := ''annotated'', updated_at := utcnow e\<rparr>) ?st1)"
    by (rule inv2_upd_beo) (simp add: date_consistent_def)
  with Some show ?thesis by (simp add: save_annotation_def Let_def)
qed

lemma inv2_update_beo_metadata:
  assumes i: "inv2 A st"
  shows "inv2 A (snd (update_beo_metadata e m st))"
proof (cases "find_beo st (md_session_id m)")
  case None
  with i show ?thesis by (simp add: update_beo_metadata_def)
next
  case fb: (Some beo)
  let ?f1 = "case md_beo_number m of
                  None \<Rightarrow> (\<lambda>b. b) | Some n \<Rightarrow> (\<lambda>b. b\<lparr>beo_number := Some n\<rparr>)"
  let ?f3 = "case md_order_position m of
                  None \<Rightarrow> (\<lambda>b. b) | Some p \<Rightarrow> (\<lambda>b. b\<lparr>order_position := p\<rparr>)"
  have f1: "\<And>b. date_consistent (?f1 b) = date_consistent b"
    by (simp add: date_consistent_def split: option.splits)
  have f3: "\<And>b. date_consistent (?f3 b) = date_consistent b"
    by (simp add: date_consistent_def split: option.splits)
  have u: "\<And>b. date_consistent (b\<lparr>updated_at := utcnow e\<rparr>) = date_consistent b"
    by (simp add: date_consistent_def)
  show ?thesis
  proof (cases "md_event_date m")
    case None
    have "inv2 A (upd_beo (b_id beo) (\<lambda>b. (?f3 (?f1 b))\<lparr>updated_at := utcnow e\<rparr>) st)"
      using i by (rule inv2_upd_beo) (simp add: u f3 f1)
    with fb None show ?thesis by (simp add: update_beo_metadata_def Let_def)
  next
    case ev: (Some s)
    show ?thesis
    proof (cases "fromisoformat e s")
      case None
      with i fb ev show ?thesis by (simp add: update_beo_metadata_def Let_def)
    next
      case (Some event_dt)
      have "inv2 A (upd_beo (b_id beo)
                     (\<lambda>b. (?f3 (set_event_date (Some event_dt) (?f1 b)))\<lparr>updated_at := utcnow e\<rparr>)
                     st)"
        using i by (rule inv2_upd_beo) (simp add: u f3 set_event_date_consistent)
      with fb ev Some show ?thesis by (simp add: update_beo_metadata_def Let_def)
    qed
  qed
qed

lemma inv2_adjust_position: "inv2 A st \<Longrightarrow> inv2 A (adjust_position e pos st ib)"
proof -
  assume i: "inv2 A st"
  obtain idx other where ib: "ib = (idx, other)" by (cases ib)
  show ?thesis unfolding ib adjust_position_def prod.case Let_def
    using i by (rule inv2_upd_beo) (simp add: date_consistent_def)
qed

lemma inv2_foldl_adjust: "inv2 A st \<Longrightarrow> inv2 A (foldl (adjust_position e pos) st xs)"
  by (induction xs arbitrary: st) (simp_all add: inv2_adjust_position)

lemma inv2_reorder_beo:
  assumes i: "inv2 A st"
  shows "inv2 A (snd (reorder_beo e r st))"
proof (cases "find_beo st (ro_session_id r)")
  case None
  with i show ?thesis by (simp add: reorder_beo_def)
next
  case fb: (Some beo)
  show ?thesis
  proof (cases "fromisoformat e (ro_event_date r)")
    case None
    with i fb show ?thesis by (simp add: reorder_beo_def)
  next
    case (Some new_date)
    have c: "\<And>b. date_consistent ((set_event_date (Some new_date) b)
                         \<lparr>order_position := ro_order_position r, updated_at := utcnow e\<rparr>)"
      using set_event_date_consistent[of "Some new_date"] by (simp add: date_consistent_def)
    have "inv2 A (upd_beo (b_id beo)
                 (\<lambda>b. (set_event_date (Some new_date) b)
                         \<lparr>order_position := ro_order_position r,
                          updated_at := utcnow e\<rparr>) st)"
      using i by (rule inv2_upd_beo) (rule c)
    from inv2_foldl_adjust[OF this] fb Some show ?thesis
      by (simp add: reorder_beo_def Let_def)
  qed
qed

lemma inv2_delete_beo: "inv2 A st \<Longrightarrow> inv2 A (snd (delete_beo sid st))"
  by (cases "find_beo st sid")
     (auto simp: delete_beo_def inv2_def dates_ok_def ann_unique_def distinct_map_filter)

lemma inv2_step: "inv2 A st \<Longrightarrow> inv2 A (step st er)"
proof -
  assume i: "inv2 A st"
  obtain e r where er: "er = (e, r)" by (cases er)
  show ?thesis unfolding er using i
    by (cases r)
       (simp_all add: inv2_upload_pdf inv2_upload_multiple_pdfs inv2_process_all_pages
          inv2_select_pages inv2_process_selected_pages inv2_save_annotation
          inv2_create_beo_from_pages inv2_update_beo_metadata inv2_reorder_beo inv2_delete_beo)
qed

lemma inv2_run: "inv2 A st \<Longrightarrow> inv2 A (run st rs)"
  unfolding run_def by (induction rs arbitrary: st) (simp_all add: inv2_step)

lemma inv2_init: "inv2 A init_state"
  by (simp add: inv2_def dates_ok_def ann_unique_def init_state_def)

lemma filter_map_same:
  "(\<And>x. P (g x) = P x) \<Longrightarrow> filter P (map g xs) = map g (filter P xs)"
  by (induction xs) auto

lemma find_filter_hd: "find P xs = Some x \<Longrightarrow> \<exists>ys. filter P xs = x # ys"
  by (induction xs) (auto split: if_splits)

lemma distinct_key_filter:
  "distinct (map k xs) \<Longrightarrow> length (filter (\<lambda>x. k x = v) xs) \<le> 1"
proof (induction xs)
  case Nil
  then show ?case by simp
next
  case (Cons a xs)
  show ?case
  proof (cases "k a = v")
    case True
    with Cons.prems have "\<forall>x\<in>set xs. k x \<noteq> v" by (auto simp: image_iff)
    then have "filter (\<lambda>x. k x = v) xs = []" by (simp add: filter_empty_conv)
    with True show ?thesis by simp
  next
    case False
    with Cons show ?thesis by simp
  qed
qed

lemma ann_unique_rows: "ann_unique st \<Longrightarrow> length (ann_rows st bid idx) \<le> 1"
proof -
  assume "ann_unique st"
  then have "length (filter (\<lambda>a. (a_beo_id a, a_page_index a) = (bid, idx)) (annotations (db st))) \<le> 1"
    unfolding ann_unique_def by (rule distinct_key_filter)
  then show ?thesis by (simp add: ann_rows_def)
qed

lemma save_annotation_once:
  assumes fb: "find_beo st sid = Some d"
    and le: "length (ann_rows st (b_id d) i) \<le> 1"
  shows "\<exists>st1 d1 x.
           save_annotation e \<lparr>ad_session_id = sid, ad_page_index = i, annotation_data = payload\<rparr> st =
             (Inr (), st1) \<and>
           find_beo st1 sid = Some d1 \<and> b_id d1 = b_id d \<and>
           ann_rows st1 (b_id d) i = [x] \<and> canvas_data x = payload \<and>
           length (annotations (db st1)) =
             length (annotations (db st)) + (if ann_rows st (b_id d) i = [] then 1 else 0)"
proof -
  let ?P = "\<lambda>a. a_beo_id a = b_id d \<and> a_page_index a = i"
  let ?a = "\<lparr>ad_session_id = sid, ad_page_index = i, annotation_data = payload\<rparr>"
  let ?f = "\<lambda>x. x\<lparr>canvas_data := payload, a_updated_at := utcnow e\<rparr>"
  let ?u = "\<lambda>b. b\<lparr>status := ''annotated'', updated_at := utcnow e\<rparr>"
  let ?d1 = "d\<lparr>status := ''annotated'', updated_at := utcnow e\<rparr>"
  show ?thesis
  proof (cases "find ?P (annotations (db st))")
    case None
    let ?st1 = "add_annotation e (b_id d) i payload st"
    let ?new = "\<lparr>a_id = seq_ann st, a_beo_id = b_id d, a_page_index = i, canvas_data = payload,
            a_created_at = utcnow e, a_updated_at = utcnow e\<rparr>"
    have sa: "save_annotation e ?a st = (Inr (), upd_beo (b_id d) ?u ?st1)"
      using fb None by (simp add: save_annotation_def)
    have f0: "filter ?P (annotations (db st)) = []"
      using None by (simp add: find_None_iff2 filter_empty_conv)
    have an: "annotations (db (upd_beo (b_id d) ?u ?st1)) = annotations (db st) @ [?new]"
      by (simp add: upd_beo_def add_annotation_def)
    have fb0: "find_beo ?st1 sid = Some d"
      using fb by (simp add: find_beo_def add_annotation_def)
    have fb1: "find_beo (upd_beo (b_id d) ?u ?st1) sid = Some ?d1"
      by (subst find_beo_upd) (simp_all add: fb0)
    have rows: "ann_rows (upd_beo (b_id d) ?u ?st1) (b_id d) i = [?new]"
      unfolding ann_rows_def an using f0 by simp
    have "ann_rows st (b_id d) i = []" using f0 by (simp add: ann_rows_def)
    with sa fb1 rows an show ?thesis by simp
  next
    case (Some ex)
    let ?g = "\<lambda>x. if a_id x = a_id ex then ?f x else x"
    let ?st1 = "upd_annotation (a_id ex) ?f st"
    have sa: "save_annotation e ?a st = (Inr (), upd_beo (b_id d) ?u ?st1)"
      using fb Some by (simp add: save_annotation_def)
    from find_filter_hd[OF Some] obtain ys where "filter ?P (annotations (db st)) = ex # ys" by blast
    with le have f1: "filter ?P (annotations (db st)) = [ex]" by (simp add: ann_rows_def)
    have an: "annotations (db (upd_beo (b_id d) ?u ?st1)) = map ?g (annotations (db st))"
      by (simp add: upd_beo_def upd_annotation_def)
    have fb0: "find_beo ?st1 sid = Some d"
      using fb by (simp add: find_beo_def upd_annotation_def)
    have fb1: "find_beo (upd_beo (b_id d) ?u ?st1) sid = Some ?d1"
      by (subst find_beo_upd) (simp_all add: fb0)
    have "filter ?P (map ?g (annotations (db st))) = map ?g (filter ?P (annotations (db st)))"
      by (rule filter_map_same) simp
    then have rows: "ann_rows (upd_beo (b_id d) ?u ?st1) (b_id d) i = [?f ex]"
      unfolding ann_rows_def an f1 by simp
    have "ann_rows st (b_id d) i \<noteq> []" using f1 by (simp add: ann_rows_def)
    with sa fb1 rows an show ?thesis by simp
  qed
qed

text \<open>
  C8. From a state in which every document's weekday name, week number and year are
  the ones of its event date (all unset when the date is unset), every request leaves
  such a state, and so does every sequence of requests: each operation that writes
  \<open>event_date\<close> writes the three values derived from it in the same update, a new row
  gets the four values together (from the file name, from the given date, or copied
  from a consistent row), and nothing else touches them.
\<close>

theorem dates_ok_preserved:
  "dates_ok st \<Longrightarrow> dates_ok (step st er) \<and> dates_ok (run st rs)"
  using inv2_step[of False st er] inv2_run[of False st rs] by (simp add: inv2_def)

theorem dates_ok_preserved_witness:
  "dates_ok init_state \<and> dates_ok (run init_state demo_requests) \<and>
   map (\<lambda>b. (event_date b, day_of_week b, week_number b, year b))
     (beos (db (run init_state demo_requests))) =
     [(Some demo_date, Some ''Tuesday'', Some 44, Some 2025)]"
proof -
  have i: "dates_ok init_state" by (simp add: dates_ok_def init_state_def)
  have v: "map (\<lambda>b. (event_date b, day_of_week b, week_number b, year b))
     (beos (db (run init_state demo_requests))) =
     [(Some demo_date, Some ''Tuesday'', Some 44, Some 2025)]"
    by code_simp
  from dates_ok_preserved[OF i, of _ demo_requests] i v show ?thesis by blast
qed

text \<open>
  C6. In a state with at most one annotation row per document and page, for an existing
  document, two \<open>save_annotation\<close> calls in a row with the same identifier, page index
  and payload both succeed and leave exactly one row for that page, holding the payload:
  the first call adds a row when there is none and changes the existing row otherwise,
  the second adds nothing. Both calls keep the property that no two rows share a
  document and page, and every state reached from the empty system has it.
\<close>

theorem save_annotation_upsert:
  assumes "ann_unique st" and "find_beo st sid = Some d"
  shows "\<exists>st1 st2 x.
           save_annotation e1 \<lparr>ad_session_id = sid, ad_page_index = i, annotation_data = payload\<rparr> st =
             (Inr (), st1) \<and>
           save_annotation e2 \<lparr>ad_session_id = sid, ad_page_index = i, annotation_data = payload\<rparr> st1 =
             (Inr (), st2) \<and>
           ann_rows st2 (b_id d) i = [x] \<and> canvas_data x = payload \<and>
           length (annotations (db st1)) =
             length (annotations (db st)) + (if ann_rows st (b_id d) i = [] then 1 else 0) \<and>
           length (annotations (db st2)) = length (annotations (db st1)) \<and>
           ann_unique st1 \<and> ann_unique st2 \<and> ann_unique (run init_state rs)"
proof -
  let ?a = "\<lparr>ad_session_id = sid, ad_page_index = i, annotation_data = payload\<rparr>"
  from save_annotation_once[OF assms(2) ann_unique_rows[OF assms(1)], of e1 i payload]
  obtain st1 d1 x1 where
    1: "save_annotation e1 ?a st = (Inr (), st1)" "find_beo st1 sid = Some d1" "b_id d1 = b_id d"
       "ann_rows st1 (b_id d) i = [x1]"
       "length (annotations (db st1)) =
          length (annotations (db st)) + (if ann_rows st (b_id d) i = [] then 1 else 0)"
    by blast
  have le1: "length (ann_rows st1 (b_id d1) i) \<le> 1" using 1(3,4) by simp
  from save_annotation_once[OF 1(2) le1, of e2 payload]
  obtain st2 x where
    2: "save_annotation e2 ?a st1 = (Inr (), st2)"
       "ann_rows st2 (b_id d) i = [x]" "canvas_data x = payload"
       "length (annotations (db st2)) = length (annotations (db st1))"
    using 1(3,4) by auto
  have u0: "inv2 True (run init_state rs)" by (rule inv2_run[OF inv2_init])
  have keep: "\<And>s e a. ann_unique s \<Longrightarrow> ann_unique (snd (save_annotation e a s))"
  proof -
    fix s e a assume s: "ann_unique s"
    show "ann_unique (snd (save_annotation e a s))"
    proof (cases "find_beo s (ad_session_id a)")
      case None
      with s show ?thesis by (simp add: save_annotation_def)
    next
      case (Some beo)
      let ?P = "\<lambda>x. a_beo_id x = b_id beo \<and> a_page_index x = ad_page_index a"
      show ?thesis
      proof (cases "find ?P (annotations (db s))")
        case None
        then have "\<forall>x\<in>set (annotations (db s)). \<not> ?P x" by (simp add: find_None_iff2)
        then have "(b_id beo, ad_page_index a) \<notin>
            set (map (\<lambda>a. (a_beo_id a, a_page_index a)) (annotations (db s)))" by auto
        with s Some None show ?thesis
          by (simp add: save_annotation_def ann_unique_def add_annotation_def upd_beo_def)
      next
        case ex: (Some existing)
        with s Some show ?thesis
          by (simp add: save_annotation_def ann_unique_def upd_annotation_def upd_beo_def
              ann_keys_upd del: map_map)
      qed
    qed
  qed
  from keep[OF assms(1), of e1 ?a] 1(1) have a1: "ann_unique st1" by simp
  from keep[OF a1, of e2 ?a] 2(1) have a2: "ann_unique st2" by simp
  from u0 have "ann_unique (run init_state rs)" by (simp add: inv2_def)
  with 1 2 a1 a2 show ?thesis by blast
qed

theorem save_annotation_upsert_witness:
  "ann_unique demo_state \<and>
   (\<exists>st1 st2 x.
      save_annotation demo_env demo_annotation demo_state = (Inr (), st1) \<and>
      save_annotation demo_env demo_annotation st1 = (Inr (), st2) \<and>
      ann_rows st2 1 1 = [x] \<and> canvas_data x = ''{}'' \<and>
      length (annotations (db st1)) = 1 \<and> length (annotations (db st2)) = 1)"
proof -
  have u: "ann_unique demo_state" by code_simp
  have f: "find_beo demo_state ''u0'' = Some (hd (beos (db demo_state)))" by code_simp
  have b: "b_id (hd (beos (db demo_state))) = 1" by code_simp
  have r: "ann_rows demo_state 1 1 = []" by code_simp
  have l: "length (annotations (db demo_state)) = 0" by code_simp
  from save_annotation_upsert[OF u f, where ?e1.0 = demo_env and i = 1 and payload = "''{}''"
      and ?e2.0 = demo_env and rs = "[]"]
  have "\<exists>st1 st2 x.
      save_annotation demo_env demo_annotation demo_state = (Inr (), st1) \<and>
      save_annotation demo_env demo_annotation st1 = (Inr (), st2) \<and>
      ann_rows st2 1 1 = [x] \<and> canvas_data x = ''{}'' \<and>
      length (annotations (db st1)) = 1 \<and> length (annotations (db st2)) = 1"
    unfolding b r l demo_annotation_def by auto
  with u show ?thesis by blast
qed

subsection \<open>\<open>reorder_beo\<close>\<close>

lemma adjust_position_eq:
  "adjust_position e p st (idx, other) = upd_beo (b_id other) (set_position e (shifted p idx)) st"
  by (auto simp: adjust_position_def shifted_def Let_def set_position_def[abs_def])

lemma set_position_fields [simp]:
  "b_id (set_position e v b) = b_id b" "order_position (set_position e v b) = v"
  "event_date (set_position e v b) = event_date b" "is_active (set_position e v b) = is_active b"
  "session_id (set_position e v b) = session_id b"
  by (simp_all add: set_position_def)

lemma foldl_adjust_beos:
  "distinct (map (b_id \<circ> snd) xs) \<Longrightarrow>
   beos (db (foldl (adjust_position e p) st xs)) =
     map (assign e (map (\<lambda>(idx, other). (b_id other, shifted p idx)) xs)) (beos (db st))"
proof (induction xs arbitrary: st)
  case Nil
  show ?case by (simp add: assign_def)
next
  case (Cons x xs)
  obtain idx other where x: "x = (idx, other)" by (cases x)
  let ?al = "map (\<lambda>(idx, other). (b_id other, shifted p idx)) xs"
  from Cons.prems x have nin: "b_id other \<notin> fst ` set ?al" and d: "distinct (map (b_id \<circ> snd) xs)"
    by (auto simp: image_iff comp_def)
  then have none: "map_of ?al (b_id other) = None" by (simp add: map_of_eq_None_iff)
  have "beos (db (foldl (adjust_position e p) st (x # xs))) =
        map (assign e ?al) (beos (db (upd_beo (b_id other) (set_position e (shifted p idx)) st)))"
    using Cons.IH[OF d] by (simp add: x adjust_position_eq)
  also have "\<dots> = map (assign e ((b_id other, shifted p idx) # ?al)) (beos (db st))"
    using none by (auto simp: upd_beo_def assign_def)
  finally show ?case by (simp add: x)
qed

lemma assign_None: "map_of al (b_id x) = None \<Longrightarrow> assign e al x = x"
  unfolding assign_def by (simp only: option.case)

lemma assign_Some: "map_of al (b_id x) = Some v \<Longrightarrow> assign e al x = set_position e v x"
  unfolding assign_def by (simp only: option.case)

lemma adjust_alist:
  "map (\<lambda>(idx, other). (b_id other, shifted p idx)) (enumerate_py os) =
   zip (map b_id os) (map (shifted p) [0..<length os])"
  unfolding enumerate_py_def by (rule nth_equalityI) simp_all

lemma length_filter_one_more:
  "distinct xs \<Longrightarrow> d \<in> set xs \<Longrightarrow> \<not> R d \<Longrightarrow>
   length (filter (\<lambda>b. b = d \<or> R b) xs) = Suc (length (filter R xs))"
proof (induction xs)
  case Nil
  then show ?case by simp
next
  case (Cons x xs)
  show ?case
  proof (cases "x = d")
    case True
    with Cons.prems have "d \<notin> set xs" by simp
    then have "filter (\<lambda>b. b = d \<or> R b) xs = filter R xs"
      by (intro filter_cong) auto
    with True Cons.prems show ?thesis by simp
  next
    case False
    with Cons show ?thesis by simp
  qed
qed

lemma shifted_range:
  assumes "0 \<le> p" "p \<le> int n"
  shows "insert p (shifted p ` {0..<n}) = {0..int n}"
proof (rule set_eqI)
  fix y
  show "y \<in> insert p (shifted p ` {0..<n}) \<longleftrightarrow> y \<in> {0..int n}"
  proof
    assume "y \<in> insert p (shifted p ` {0..<n})"
    then show "y \<in> {0..int n}" using assms by (auto simp: shifted_def)
  next
    assume y: "y \<in> {0..int n}"
    show "y \<in> insert p (shifted p ` {0..<n})"
    proof (cases "y = p")
      case True
      then show ?thesis by simp
    next
      case False
      show ?thesis
      proof (cases "y < p")
        case True
        with y assms have "nat y \<in> {0..<n}" "shifted p (nat y) = y" by (auto simp: shifted_def)
        then show ?thesis by (metis imageI insertI2)
      next
        case False
        with \<open>y \<noteq> p\<close> y assms have "nat (y - 1) \<in> {0..<n}" "shifted p (nat (y - 1)) = y"
          by (auto simp: shifted_def)
        then show ?thesis by (metis imageI insertI2)
      qed
    qed
  qed
qed


lemma reorder_beo_beos:
  assumes ids: "distinct (map b_id (beos (db st)))"
      and f: "find_beo st sid = Some d"
      and iso: "fromisoformat e ds = Some t"
      and r: "reorder_beo e \<lparr>ro_session_id = sid, ro_event_date = ds, ro_order_position = p\<rparr> st
                = (res, st')"
  shows "res = Inr () \<and>
         beos (db st') =
           map (\<lambda>b. assign e (zip (map b_id (same_day_beos st t sid))
                                 (map (shifted p) [0..<length (same_day_beos st t sid)]))
                      (if b_id b = b_id d
                       then (set_event_date (Some t) b)\<lparr>order_position := p, updated_at := utcnow e\<rparr>
                       else b))
               (beos (db st))"
proof -
  let ?os = "same_day_beos st t sid"
  let ?st1 = "upd_beo (b_id d) (\<lambda>b. (set_event_date (Some t) b)
                 \<lparr>order_position := p, updated_at := utcnow e\<rparr>) st"
  from r f iso have res: "res = Inr ()" and st': "st' = foldl (adjust_position e p) ?st1 (enumerate_py ?os)"
    by (simp_all add: reorder_beo_def Let_def)
  have inj: "inj_on b_id (set (beos (db st)))" and dist: "distinct (beos (db st))"
    using ids by (simp_all add: distinct_map)
  have sub: "set ?os \<subseteq> set (beos (db st))" by (auto simp: same_day_beos_def)
  have "distinct ?os" using dist by (simp add: same_day_beos_def)
  then have dos: "distinct (map b_id ?os)"
    using inj sub by (simp add: distinct_map inj_on_subset)
  have "map (b_id \<circ> snd) (enumerate_py ?os) = map b_id ?os"
    unfolding enumerate_py_def by (rule nth_equalityI) simp_all
  with dos have "distinct (map (b_id \<circ> snd) (enumerate_py ?os))" by simp
  from foldl_adjust_beos[OF this, of e p ?st1]
  have "beos (db st') = map (assign e (zip (map b_id ?os) (map (shifted p) [0..<length ?os])))
                            (beos (db ?st1))"
    by (simp add: st' adjust_alist)
  then show ?thesis using res by (simp add: upd_beo_def comp_def)
qed

text \<open>
  C1, as amended. Let \<open>d\<close> be an active document, \<open>t\<close> the date of the request, \<open>n\<close> the
  number of other active documents on \<open>t\<close> and \<open>0 \<le> p \<le> n\<close>. Then \<open>reorder_beo\<close>
  succeeds, and afterwards the \<open>n + 1\<close> active documents on \<open>t\<close> hold the positions
  \<open>0 .. n\<close>, each once, with \<open>d\<close> at \<open>p\<close>. The other documents keep their relative order:
  \<open>same_day_beos\<close> lists them by ascending position before the call, and the one at
  index \<open>j\<close> of that list gets \<open>j\<close> when \<open>j < p\<close> and \<open>j + 1\<close> otherwise. The rows of the
  table have distinct primary keys and distinct session identifiers (the primary key
  and the unique index of \<open>models.py\<close>).
\<close>

theorem reorder_beo_places:
  assumes ids: "distinct (map b_id (beos (db st)))"
      and sids: "distinct (map session_id (beos (db st)))"
      and f: "find_beo st sid = Some d"
      and act: "is_active d"
      and iso: "fromisoformat e ds = Some t"
      and n: "n = length (same_day_beos st t sid)"
      and lo: "0 \<le> p" and hi: "p \<le> int n"
      and r: "reorder_beo e \<lparr>ro_session_id = sid, ro_event_date = ds, ro_order_position = p\<rparr> st
                = (res, st')"
  shows "res = Inr () \<and>
         length (day_beos st' t) = n + 1 \<and>
         distinct (map order_position (day_beos st' t)) \<and>
         set (map order_position (day_beos st' t)) = {0..int n} \<and>
         (\<exists>b \<in> set (day_beos st' t). session_id b = sid \<and> order_position b = p) \<and>
         sorted (map order_position (same_day_beos st t sid)) \<and>
         set (same_day_beos st t sid) =
           {b \<in> set (beos (db st)). event_date b = Some t \<and> session_id b \<noteq> sid \<and> is_active b} \<and>
         (\<forall>j<n. \<exists>b \<in> set (day_beos st' t).
             session_id b = session_id (same_day_beos st t sid ! j) \<and>
             order_position b = shifted p j)"
proof -
  let ?os = "same_day_beos st t sid"
  let ?bs = "beos (db st)"
  let ?al = "zip (map b_id ?os) (map (shifted p) [0..<length ?os])"
  let ?new = "\<lambda>b. (set_event_date (Some t) b)\<lparr>order_position := p, updated_at := utcnow e\<rparr>"
  define G where "G = (\<lambda>b::BEO. assign e ?al (if b_id b = b_id d then ?new b else b))"
  define Q where "Q = (\<lambda>b::BEO. event_date b = Some t \<and> is_active b)"
  define R where "R = (\<lambda>b::BEO. event_date b = Some t \<and> session_id b \<noteq> sid \<and> is_active b)"
  from reorder_beo_beos[OF ids f iso r]
  have res: "res = Inr ()" and bs': "beos (db st') = map G ?bs" by (simp_all add: G_def)
  have day: "day_beos st' t = filter Q (map G ?bs)"
    by (simp add: day_beos_def bs' Q_def)
  from f have d_in: "d \<in> set ?bs" and d_sid: "session_id d = sid"
    using find_SomeD[of "\<lambda>b. session_id b = sid" ?bs d] by (simp_all add: find_beo_def)
  have inj: "inj_on b_id (set ?bs)" and dist: "distinct ?bs"
    using ids by (simp_all add: distinct_map)
  have sinj: "inj_on session_id (set ?bs)"
    using sids by (simp add: distinct_map)
  have set_os: "set ?os = {b \<in> set ?bs. R b}" by (auto simp: same_day_beos_def R_def)
  have len_os: "length ?os = length (filter R ?bs)" by (simp add: same_day_beos_def R_def)
  have "distinct ?os" using dist by (simp add: same_day_beos_def)
  then have dos: "distinct (map b_id ?os)"
    using inj set_os by (simp add: distinct_map inj_on_def)
  have notR: "\<not> R d" using d_sid by (simp add: R_def)
  have RQ: "Q b" if "R b" for b using that by (simp add: R_def Q_def)
  have lookup: "map_of ?al (b_id (?os ! j)) = Some (shifted p j)" if "j < n" for j
    using map_of_zip_nth[of "map b_id ?os" "map (shifted p) [0..<length ?os]" j] dos that n
    by simp
  have none: "map_of ?al i = None" if "i \<notin> b_id ` set ?os" for i
  proof -
    have "map fst ?al = map b_id ?os" by (simp add: map_fst_zip)
    then have "fst ` set ?al = b_id ` set ?os" by (metis set_map)
    with that show ?thesis by (simp only: map_of_eq_None_iff not_False_eq_True)
  qed
  have id_in: "c = b" if "c \<in> set ?os" "b \<in> set ?bs" "b_id c = b_id b" for b c
  proof -
    from that(1) set_os have "c \<in> set ?bs" by simp
    with inj that show ?thesis by (auto dest: inj_onD)
  qed
  have d_notin: "b_id d \<notin> b_id ` set ?os"
  proof
    assume "b_id d \<in> b_id ` set ?os"
    then obtain c where c: "c \<in> set ?os" "b_id c = b_id d" by auto
    from id_in[OF c(1) d_in c(2)] c(1) set_os have "R d" by simp
    with notR show False by simp
  qed
  have Gd: "G d = ?new d"
  proof -
    have "b_id (?new d) = b_id d" by (simp add: set_event_date_def)
    with none[OF d_notin] have "map_of ?al (b_id (?new d)) = None" by (simp only:)
    from assign_None[OF this, where e = e] show ?thesis by (simp add: G_def)
  qed
  have Gos: "G (?os ! j) = set_position e (shifted p j) (?os ! j)" if "j < n" for j
  proof -
    from that n have "?os ! j \<in> set ?os" by simp
    with d_notin have ne: "b_id (?os ! j) \<noteq> b_id d" by (metis imageI)
    from assign_Some[OF lookup[OF that], where e = e] ne show ?thesis by (simp add: G_def)
  qed
  have Gelse: "G b = b" if "b \<in> set ?bs" "b \<noteq> d" "\<not> R b" for b
  proof -
    from that inj d_in have ne: "b_id b \<noteq> b_id d" by (auto dest: inj_onD)
    have "b_id b \<notin> b_id ` set ?os"
    proof
      assume "b_id b \<in> b_id ` set ?os"
      then obtain c where c: "c \<in> set ?os" "b_id c = b_id b" by auto
      from id_in[OF c(1) that(1) c(2)] c(1) set_os have "R b" by simp
      with that show False by simp
    qed
    from assign_None[OF none[OF this], where e = e] ne show ?thesis by (simp add: G_def)
  qed
  have other_sid: "session_id b \<noteq> sid" if "b \<in> set ?bs" "b \<noteq> d" for b
    using that sinj d_in d_sid by (auto dest: inj_onD)
  have Qd: "Q (G d)" using act by (simp add: Gd Q_def set_event_date_def)
  have nth_os: "\<exists>j<n. ?os ! j = b" if "b \<in> set ?bs" "R b" for b
  proof -
    from that set_os have "b \<in> set ?os" by simp
    then show ?thesis using n by (auto simp: in_set_conv_nth)
  qed
  have QG: "Q (G b) \<longleftrightarrow> (b = d \<or> R b)" if b: "b \<in> set ?bs" for b
  proof (cases "b = d")
    case True
    then show ?thesis using Qd by simp
  next
    case False
    show ?thesis
    proof (cases "R b")
      case True
      from nth_os[OF b True] obtain j where j: "j < n" "?os ! j = b" by blast
      from Gos[OF j(1)] j(2) have "G b = set_position e (shifted p j) b" by simp
      with RQ[OF True] True show ?thesis by (simp add: Q_def)
    next
      case nR: False
      have "\<not> Q b" using other_sid[OF b False] nR by (simp add: Q_def R_def)
      with Gelse[OF b False nR] nR False show ?thesis by simp
    qed
  qed
  have "filter Q (map G ?bs) = map G (filter (\<lambda>b. b = d \<or> R b) ?bs)"
    unfolding filter_map comp_def
    by (rule arg_cong[where f = "map G"], rule filter_cong) (simp_all add: QG)
  then have "length (day_beos st' t) = length (filter (\<lambda>b. b = d \<or> R b) ?bs)"
    by (simp add: day)
  also have "\<dots> = Suc (length (filter R ?bs))"
    by (rule length_filter_one_more[where R = R, OF dist d_in notR])
  finally have len: "length (day_beos st' t) = n + 1" by (simp add: n len_os)
  have in_day: "G b \<in> set (day_beos st' t)" if "b \<in> set ?bs" "b = d \<or> R b" for b
  proof -
    from QG[OF that(1)] that(2) have "Q (G b)" by simp
    with that(1) show ?thesis unfolding day by simp
  qed
  have pd: "G d \<in> set (day_beos st' t)" "session_id (G d) = sid" "order_position (G d) = p"
    using in_day[OF d_in] d_sid by (simp_all add: Gd set_event_date_def)
  have po: "G (?os ! j) \<in> set (day_beos st' t) \<and>
            session_id (G (?os ! j)) = session_id (?os ! j) \<and>
            order_position (G (?os ! j)) = shifted p j" if "j < n" for j
  proof -
    from that n have "?os ! j \<in> set ?os" by simp
    with set_os have "?os ! j \<in> set ?bs" "R (?os ! j)" by auto
    from in_day[OF this(1)] this(2) Gos[OF that] show ?thesis by simp
  qed
  have pos: "set (map order_position (day_beos st' t)) = insert p (shifted p ` {0..<n})"
  proof (rule set_eqI, rule iffI)
    fix y assume "y \<in> set (map order_position (day_beos st' t))"
    then obtain b where b: "b \<in> set ?bs" "Q (G b)" "y = order_position (G b)"
      unfolding day by auto
    from QG[OF b(1)] b(2) have "b = d \<or> R b" by simp
    then show "y \<in> insert p (shifted p ` {0..<n})"
    proof
      assume "b = d" with b pd show ?thesis by simp
    next
      assume "R b"
      from nth_os[OF b(1) this] obtain j where j: "j < n" "?os ! j = b" by blast
      from po[OF j(1)] j b show ?thesis by simp
    qed
  next
    fix y assume "y \<in> insert p (shifted p ` {0..<n})"
    then show "y \<in> set (map order_position (day_beos st' t))"
    proof
      assume "y = p" with pd show ?thesis by (metis image_eqI set_map)
    next
      assume "y \<in> shifted p ` {0..<n}"
      then obtain j where j: "j < n" "y = shifted p j" by auto
      from po[OF j(1)] j(2) show ?thesis by (metis image_eqI set_map)
    qed
  qed
  then have pos': "set (map order_position (day_beos st' t)) = {0..int n}"
    by (simp only: shifted_range[OF lo hi])
  have "card (set (map order_position (day_beos st' t))) = length (map order_position (day_beos st' t))"
    by (simp only: pos' len length_map) simp
  then have dis: "distinct (map order_position (day_beos st' t))" by (rule card_distinct)
  have one: "\<exists>b \<in> set (day_beos st' t). session_id b = sid \<and> order_position b = p"
    using pd by blast
  have rest: "\<forall>j<n. \<exists>b \<in> set (day_beos st' t).
             session_id b = session_id (?os ! j) \<and> order_position b = shifted p j"
    using po by blast
  have srt: "sorted (map order_position ?os)" by (simp add: same_day_beos_def)
  have mem: "set ?os = {b \<in> set ?bs. event_date b = Some t \<and> session_id b \<noteq> sid \<and> is_active b}"
    using set_os by (simp add: R_def)
  from res len dis pos' one srt mem rest show ?thesis by blast
qed

text \<open>
  C1 as written fails twice. With \<open>u0\<close>, \<open>w0\<close>, \<open>v0\<close> at positions 0, 1, 2 of the day,
  moving \<open>u0\<close> to position 2 leaves \<open>v0\<close>, whose position 2 was not below the target, at
  position 1 and not at 3: the loop numbers the other documents by their rank, not by
  their current position (shifting \<open>v0\<close> to 3 would leave a gap). And a target position
  beyond the number of documents is stored as it is: the only document of a day,
  moved to position 5, is at position 5.
\<close>

theorem reorder_beo_shift_counterexample:
  "positions (snd (reorder_beo demo_env insert_request calendar_state)) demo_date =
     [(''u0'', 0), (''v0'', 2), (''w0'', 1)]
   \<and> fst (reorder_beo demo_env move_request
            (snd (reorder_beo demo_env insert_request calendar_state))) = Inr ()
   \<and> positions (snd (reorder_beo demo_env move_request
         (snd (reorder_beo demo_env insert_request calendar_state)))) demo_date =
       [(''u0'', 2), (''v0'', 1), (''w0'', 0)]
   \<and> positions demo_state demo_date = [(''u0'', 0)]
   \<and> fst (reorder_beo demo_env far_request demo_state) = Inr ()
   \<and> positions (snd (reorder_beo demo_env far_request demo_state)) demo_date = [(''u0'', 5)]"
  by code_simp

text \<open>
  C1 in the case of the specification: \<open>w0\<close> inserted at position 1 between \<open>u0\<close> at 0
  and \<open>v0\<close> at 1 gives the positions 0, 1, 2 with \<open>w0\<close> at 1 and \<open>v0\<close> moved to 2.
\<close>

theorem reorder_beo_places_witness:
  "distinct (map b_id (beos (db calendar_state)))
   \<and> distinct (map session_id (beos (db calendar_state)))
   \<and> positions calendar_state demo_date = [(''u0'', 0), (''v0'', 1)]
   \<and> length (same_day_beos calendar_state demo_date ''w0'') = 2
   \<and> fst (reorder_beo demo_env insert_request calendar_state) = Inr ()
   \<and> length (day_beos (snd (reorder_beo demo_env insert_request calendar_state)) demo_date) = 3
   \<and> distinct (map order_position
        (day_beos (snd (reorder_beo demo_env insert_request calendar_state)) demo_date))
   \<and> set (map order_position
        (day_beos (snd (reorder_beo demo_env insert_request calendar_state)) demo_date)) = {0..2}
   \<and> positions (snd (reorder_beo demo_env insert_request calendar_state)) demo_date =
        [(''u0'', 0), (''v0'', 2), (''w0'', 1)]"
proof -
  have h1: "distinct (map b_id (beos (db calendar_state)))" by code_simp
  have h2: "distinct (map session_id (beos (db calendar_state)))" by code_simp
  have h3: "find_beo calendar_state ''w0'' = Some (beos (db calendar_state) ! 2)" by code_simp
  have h4: "is_active (beos (db calendar_state) ! 2)" by code_simp
  have h5: "fromisoformat demo_env ''2025-10-28'' = Some demo_date" by (simp add: demo_env_def)
  have h6: "2 = length (same_day_beos calendar_state demo_date ''w0'')" by code_simp
  have h7: "reorder_beo demo_env
              \<lparr>ro_session_id = ''w0'', ro_event_date = ''2025-10-28'', ro_order_position = 1\<rparr>
              calendar_state =
            (fst (reorder_beo demo_env insert_request calendar_state),
             snd (reorder_beo demo_env insert_request calendar_state))"
    by (simp add: insert_request_def)
  note t = reorder_beo_places[where st = calendar_state and sid = "''w0''"
      and d = "beos (db calendar_state) ! 2" and e = demo_env and ds = "''2025-10-28''"
      and t = demo_date and n = 2 and p = 1
      and res = "fst (reorder_beo demo_env insert_request calendar_state)"
      and st' = "snd (reorder_beo demo_env insert_request calendar_state)",
      OF h1 h2 h3 h4 h5 h6 _ _ h7]
  have t': "fst (reorder_beo demo_env insert_request calendar_state) = Inr () \<and>
     length (day_beos (snd (reorder_beo demo_env insert_request calendar_state)) demo_date) = 3 \<and>
     distinct (map order_position
        (day_beos (snd (reorder_beo demo_env insert_request calendar_state)) demo_date)) \<and>
     set (map order_position
        (day_beos (snd (reorder_beo demo_env insert_request calendar_state)) demo_date)) = {0..2}"
    using t by simp
  have p0: "positions calendar_state demo_date = [(''u0'', 0), (''v0'', 1)]" by code_simp
  have p1: "positions (snd (reorder_beo demo_env insert_request calendar_state)) demo_date =
        [(''u0'', 0), (''v0'', 2), (''w0'', 1)]" by code_simp
  from h1 h2 p0 h6 t' p1 show ?thesis by simp
qed

end
